(* ===== verification/Prelude.thy ===== *)
theory Prelude
  imports Complex_Main "HOL-Library.Word" "HOL-Library.Multiset" "HOL-Library.List_Lexorder"
    "HOL-Library.Char_ord" "HOL-Library.Product_Lexorder" "HOL-Library.Code_Target_Nat"
begin

text \<open>
  Shared vocabulary of the development: the parts of the Rust language and of its
  standard library that the control plane uses.

  \<^item> fixed-width unsigned integers with \<open>saturating_add\<close>, \<open>saturating_sub\<close> and
    \<open>saturating_mul\<close>;
  \<^item> \<open>Result\<close> as a sum whose left side is the error, and sequences of checks joined by
    the question-mark operator;
  \<^item> \<open>std::cmp::Ordering\<close>, comparators and the stable \<open>slice::sort_by\<close>, with the
    contract a comparator has to satisfy as the locale \<open>total_cmp\<close>;
  \<^item> \<open>BTreeMap\<close> as an association list sorted by its keys, with the map interface as
    the locale \<open>ordered_map\<close>;
  \<^item> UTF-8 strings as byte strings (\<open>char\<close> is a byte, so \<open>length\<close> is \<open>str::len\<close>), with
    \<open>trim\<close>, \<open>join\<close> and the decimal and hexadecimal formatters.
\<close>

named_theorems rust_simps
named_theorems checks

section \<open>Machine integers\<close>

type_synonym u32 = "32 word"
type_synonym u64 = "64 word"

definition sat_add :: "'w::len word \<Rightarrow> 'w word \<Rightarrow> 'w word" where
  "sat_add a b = (if uint a + uint b < 2 ^ LENGTH('w) then a + b else - 1)"

definition sat_sub :: "'w::len word \<Rightarrow> 'w word \<Rightarrow> 'w word" where
  "sat_sub a b = (if b \<le> a then a - b else 0)"

definition sat_mul :: "'w::len word \<Rightarrow> 'w word \<Rightarrow> 'w word" where
  "sat_mul a b = (if uint a * uint b < 2 ^ LENGTH('w) then a * b else - 1)"

section \<open>Results and sequences of checks\<close>

text \<open>
  A validator is a list of checks, each the value of one \<open>check(...)?\<close> statement. The checks
  are pure, so running them in order and returning at the first error is the same as
  evaluating all of them and taking the first error.
\<close>

type_synonym 'e check = "'e + unit"

definition ok :: "'e check" where
  "ok = Inr ()"

fun run_checks :: "'e check list \<Rightarrow> 'e check" where
  "run_checks [] = ok"
| "run_checks (c # cs) = (case c of Inl e \<Rightarrow> Inl e | Inr _ \<Rightarrow> run_checks cs)"

definition guard_err :: "bool \<Rightarrow> 'e \<Rightarrow> 'e check" where
  "guard_err b e = (if b then Inl e else ok)"

section \<open>Orderings and sort_by\<close>

datatype ordering = Less | Equal | Greater

definition cmp :: "'a::linorder \<Rightarrow> 'a \<Rightarrow> ordering" where
  "cmp x y = (if x < y then Less else if x = y then Equal else Greater)"

fun then_with :: "ordering \<Rightarrow> ordering \<Rightarrow> ordering" where
  "then_with Equal b = b"
| "then_with Less b = Less"
| "then_with Greater b = Greater"

fun reverse :: "ordering \<Rightarrow> ordering" where
  "reverse Less = Greater"
| "reverse Equal = Equal"
| "reverse Greater = Less"

fun insert_by :: "('a \<Rightarrow> 'a \<Rightarrow> ordering) \<Rightarrow> 'a \<Rightarrow> 'a list \<Rightarrow> 'a list" where
  "insert_by c x [] = [x]"
| "insert_by c x (y # ys) = (if c x y = Greater then y # insert_by c x ys else x # y # ys)"

fun sort_by :: "('a \<Rightarrow> 'a \<Rightarrow> ordering) \<Rightarrow> 'a list \<Rightarrow> 'a list" where
  "sort_by c [] = []"
| "sort_by c (x # xs) = insert_by c x (sort_by c xs)"

section \<open>BTreeMap\<close>

type_synonym ('k, 'v) BTreeMap = "('k \<times> 'v) list"

definition bt_wf :: "('k::linorder, 'v) BTreeMap \<Rightarrow> bool" where
  "bt_wf m = sorted_wrt (<) (map fst m)"

fun bt_insert :: "'k::linorder \<Rightarrow> 'v \<Rightarrow> ('k, 'v) BTreeMap \<Rightarrow> ('k, 'v) BTreeMap" where
  "bt_insert k v [] = [(k, v)]"
| "bt_insert k v (e # m) =
     (case cmp k (fst e) of
        Less \<Rightarrow> (k, v) # e # m
      | Equal \<Rightarrow> (k, v) # m
      | Greater \<Rightarrow> e # bt_insert k v m)"

definition bt_get :: "('k, 'v) BTreeMap \<Rightarrow> 'k \<Rightarrow> 'v option" where
  "bt_get m k = map_of m k"

definition bt_keys :: "('k, 'v) BTreeMap \<Rightarrow> 'k list" where
  "bt_keys m = map fst m"

definition bt_values :: "('k, 'v) BTreeMap \<Rightarrow> 'v list" where
  "bt_values m = map snd m"

text \<open>\<open>entry(k).or_insert(d)\<close> followed by an in-place update \<open>f\<close> of the value.\<close>

definition bt_update :: "'k::linorder \<Rightarrow> 'v \<Rightarrow> ('v \<Rightarrow> 'v) \<Rightarrow> ('k, 'v) BTreeMap \<Rightarrow> ('k, 'v) BTreeMap" where
  "bt_update k d f m = bt_insert k (f (case bt_get m k of None \<Rightarrow> d | Some v \<Rightarrow> v)) m"

text \<open>\<open>collect::<BTreeMap<_, _>>()\<close>: later pairs replace earlier ones.\<close>

fun bt_collect :: "('k::linorder \<times> 'v) list \<Rightarrow> ('k, 'v) BTreeMap \<Rightarrow> ('k, 'v) BTreeMap" where
  "bt_collect [] m = m"
| "bt_collect (e # es) m = bt_collect es (bt_insert (fst e) (snd e) m)"

section \<open>Strings\<close>

text \<open>
  The length in bytes of the Unicode \<open>White_Space\<close> character at the start of a byte list, or
  0 if it does not start with one. Code points of more than one byte: U+0085, U+00A0, U+1680,
  U+2000 to U+200A, U+2028, U+2029, U+202F, U+205F and U+3000.
\<close>

definition ws_len :: "int list \<Rightarrow> nat" where
  "ws_len bs =
     (case bs of
        [] \<Rightarrow> 0
      | a # r \<Rightarrow>
        if (9 \<le> a \<and> a \<le> 13) \<or> a = 32 then 1
        else (case r of
            [] \<Rightarrow> 0
          | b # s \<Rightarrow>
            if a = 0xC2 \<and> (b = 0x85 \<or> b = 0xA0) then 2
            else (case s of
                [] \<Rightarrow> 0
              | c # _ \<Rightarrow>
                if (a = 0xE1 \<and> b = 0x9A \<and> c = 0x80)
                 \<or> (a = 0xE2 \<and> b = 0x80 \<and> (0x80 \<le> c \<and> c \<le> 0x8A \<or> c = 0xA8 \<or> c = 0xA9 \<or> c = 0xAF))
                 \<or> (a = 0xE2 \<and> b = 0x81 \<and> c = 0x9F)
                 \<or> (a = 0xE3 \<and> b = 0x80 \<and> c = 0x80) then 3
                else 0)))"

text \<open>The same at the end of a string: the byte list is reversed, so the bytes come last first.\<close>

definition ws_len_end :: "int list \<Rightarrow> nat" where
  "ws_len_end rs =
     (if ws_len (rev (take 1 rs)) = 1 then 1
      else if ws_len (rev (take 2 rs)) = 2 then 2
      else if ws_len (rev (take 3 rs)) = 3 then 3
      else 0)"

fun drop_while_len :: "(int list \<Rightarrow> nat) \<Rightarrow> nat \<Rightarrow> int list \<Rightarrow> int list" where
  "drop_while_len w 0 bs = bs"
| "drop_while_len w (Suc n) bs = (if w bs = 0 then bs else drop_while_len w n (drop (w bs) bs))"

definition bytes :: "string \<Rightarrow> int list" where
  "bytes s = map of_char s"

definition str_of_bytes :: "int list \<Rightarrow> string" where
  "str_of_bytes bs = map char_of bs"

definition str_trim :: "string \<Rightarrow> string" where
  "str_trim s =
     (let a = drop_while_len ws_len (length s) (bytes s);
          b = drop_while_len ws_len_end (length a) (rev a)
      in str_of_bytes (rev b))"

fun str_join :: "string \<Rightarrow> string list \<Rightarrow> string" where
  "str_join sep [] = []"
| "str_join sep [x] = x"
| "str_join sep (x # y # r) = x @ sep @ str_join sep (y # r)"

text \<open>The decimal digits of a non-negative integer, and the \<open>Display\<close> format of a signed one.\<close>

function dec_digits :: "int \<Rightarrow> string" where
  "dec_digits n = (if n < 10 then [char_of (48 + n)] else dec_digits (n div 10) @ [char_of (48 + n mod 10)])"
  by pat_completeness auto
termination
  by (relation "measure nat") auto

declare dec_digits.simps [simp del]

definition dec_int :: "int \<Rightarrow> string" where
  "dec_int i = (if i < 0 then ''-'' @ dec_digits (- i) else dec_digits i)"

definition str_split_once :: "char \<Rightarrow> string \<Rightarrow> (string \<times> string) option" where
  "str_split_once d s =
     (if d \<in> set s then Some (takeWhile (\<lambda>c. c \<noteq> d) s, tl (dropWhile (\<lambda>c. c \<noteq> d) s)) else None)"

fun str_split :: "char \<Rightarrow> string \<Rightarrow> string list" where
  "str_split d [] = [[]]"
| "str_split d (c # s) =
     (if c = d then [] # str_split d s
      else (case str_split d s of [] \<Rightarrow> [[c]] | f # fs \<Rightarrow> (c # f) # fs))"

definition ascii_lower :: "char \<Rightarrow> char" where
  "ascii_lower c = (let n = (of_char c :: int) in if 65 \<le> n \<and> n \<le> 90 then char_of (n + 32) else c)"

definition str_lower :: "string \<Rightarrow> string" where
  "str_lower s = map ascii_lower s"

section \<open>Lemmas: machine integers\<close>

lemma int_less_pow: "int n < 2 ^ k \<longleftrightarrow> n < 2 ^ k"
  by (metis of_nat_less_iff of_nat_numeral of_nat_power)

lemma unat_sat_add [rust_simps]:
  fixes a b :: "'w::len word"
  shows "unat (sat_add a b) = min (unat a + unat b) (2 ^ LENGTH('w) - 1)"
proof -
  have "uint a + uint b < 2 ^ LENGTH('w) \<longleftrightarrow> unat a + unat b < 2 ^ LENGTH('w)"
    using int_less_pow [of "unat a + unat b"] by simp
  then show ?thesis
    by (auto simp: sat_add_def unat_word_ariths unsigned_minus_1_eq_mask mask_eq_exp_minus_1)
qed

lemma unat_sat_sub [rust_simps]: "unat (sat_sub a b) = unat a - unat b"
  by (auto simp: sat_sub_def unat_sub word_le_nat_alt)

lemma unat_sat_mul [rust_simps]:
  fixes a b :: "'w::len word"
  shows "unat (sat_mul a b) = min (unat a * unat b) (2 ^ LENGTH('w) - 1)"
proof -
  have "uint a * uint b < 2 ^ LENGTH('w) \<longleftrightarrow> unat a * unat b < 2 ^ LENGTH('w)"
    using int_less_pow [of "unat a * unat b"] by simp
  then show ?thesis
    by (auto simp: sat_mul_def unat_word_ariths unsigned_minus_1_eq_mask mask_eq_exp_minus_1)
qed

lemma unat_le_max: "unat (a :: 'w::len word) \<le> 2 ^ LENGTH('w) - Suc 0"
  using unsigned_less [of a, where ?'a = nat] by linarith

lemma sat_add_ge: "a \<le> sat_add a b"
  by (auto simp: word_le_nat_alt unat_sat_add intro: unat_le_max)

section \<open>Lemmas: checks\<close>

lemma guard_err_ok [simp]: "guard_err b e = Inr u \<longleftrightarrow> \<not> b"
  by (simp add: guard_err_def ok_def)

lemma guard_err_Inl [simp]: "guard_err b e = Inl e' \<longleftrightarrow> b \<and> e' = e"
  by (auto simp: guard_err_def ok_def)

lemma run_checks_ok [checks]: "run_checks cs = Inr u \<longleftrightarrow> (\<forall>c \<in> set cs. c = Inr ())"
  by (induction cs) (auto simp: ok_def split: sum.splits)

lemma run_checks_first_error:
  "run_checks cs = Inl e \<longleftrightarrow> (\<exists>ps qs. cs = ps @ Inl e # qs \<and> (\<forall>c \<in> set ps. c = Inr ()))"
proof (induction cs)
  case Nil
  then show ?case by (simp add: ok_def)
next
  case (Cons c cs)
  show ?case
  proof (cases c)
    case (Inl e')
    then show ?thesis by (auto simp: Cons_eq_append_conv)
  next
    case (Inr u)
    have "(\<exists>ps qs. Inr () # cs = ps @ Inl e # qs \<and> (\<forall>d \<in> set ps. d = Inr ())) \<longleftrightarrow>
        (\<exists>ps qs. cs = ps @ Inl e # qs \<and> (\<forall>d \<in> set ps. d = Inr ()))" (is "?l = ?r")
    proof
      assume ?l
      then show ?r by (auto simp: Cons_eq_append_conv)
    next
      assume ?r
      then obtain ps qs where "Inr () # cs = (Inr () # ps) @ Inl e # qs" "\<forall>d \<in> set (Inr () # ps). d = Inr ()"
        by auto
      then show ?l by blast
    qed
    with Cons.IH Inr show ?thesis by simp
  qed
qed

lemma run_checks_append:
  "run_checks (cs @ ds) = (case run_checks cs of Inl e \<Rightarrow> Inl e | Inr _ \<Rightarrow> run_checks ds)"
  by (induction cs) (auto simp: ok_def split: sum.splits)

declare run_checks.simps [simp del]

section \<open>Lemmas: comparators and sorting\<close>

text \<open>The contract \<open>slice::sort_by\<close> asks of its comparator: a total preorder.\<close>

locale total_cmp =
  fixes c :: "'a \<Rightarrow> 'a \<Rightarrow> ordering"
  assumes cmp_swap: "c y x = reverse (c x y)"
    and cmp_trans: "c x y \<noteq> Greater \<Longrightarrow> c y z \<noteq> Greater \<Longrightarrow> c x z \<noteq> Greater"
begin

lemma cmp_refl: "c x x = Equal"
  using cmp_swap [of x x] by (cases "c x x") auto

lemma not_greater_total: "c x y \<noteq> Greater \<or> c y x \<noteq> Greater"
  using cmp_swap [of y x] by (cases "c x y"; cases "c y x") auto

lemma both_not_greater: "c x y \<noteq> Greater \<Longrightarrow> c y x \<noteq> Greater \<Longrightarrow> c x y = Equal"
  using cmp_swap [of y x] by (cases "c x y"; cases "c y x") auto

lemma mset_insert_by: "mset (insert_by c x xs) = add_mset x (mset xs)"
  by (induction xs) auto

lemma mset_sort_by: "mset (sort_by c xs) = mset xs"
  by (induction xs) (auto simp: mset_insert_by)

lemma set_insert_by: "set (insert_by c x xs) = insert x (set xs)"
  by (induction xs) auto

lemma set_sort_by: "set (sort_by c xs) = set xs"
  by (induction xs) (auto simp: set_insert_by)

lemma length_sort_by: "length (sort_by c xs) = length xs"
  by (metis mset_sort_by size_mset)

lemma sorted_insert_by:
  "sorted_wrt (\<lambda>x y. c x y \<noteq> Greater) xs \<Longrightarrow> sorted_wrt (\<lambda>x y. c x y \<noteq> Greater) (insert_by c x xs)"
proof (induction xs)
  case Nil
  then show ?case by simp
next
  case (Cons y ys)
  show ?case
  proof (cases "c x y = Greater")
    case True
    then have "c y x \<noteq> Greater" using not_greater_total by blast
    with Cons True show ?thesis by (auto simp: set_insert_by)
  next
    case False
    have "c x z \<noteq> Greater" if "z \<in> set ys" for z
      using Cons.prems that by (intro cmp_trans [OF False]) simp
    with False Cons.prems show ?thesis by simp
  qed
qed

lemma sorted_sort_by: "sorted_wrt (\<lambda>x y. c x y \<noteq> Greater) (sort_by c xs)"
  by (induction xs) (auto simp: sorted_insert_by)

text \<open>Two sorted lists with the same elements are equal when ties are only between equal elements.\<close>

lemma sorted_unique:
  assumes "mset xs = mset ys"
    and "sorted_wrt (\<lambda>x y. c x y \<noteq> Greater) xs" and "sorted_wrt (\<lambda>x y. c x y \<noteq> Greater) ys"
    and "\<And>x y. x \<in> set xs \<Longrightarrow> y \<in> set xs \<Longrightarrow> c x y = Equal \<Longrightarrow> x = y"
  shows "xs = ys"
  using assms
proof (induction xs arbitrary: ys)
  case Nil
  then show ?case by simp
next
  case (Cons x xs)
  from Cons.prems(1) obtain y zs where ys: "ys = y # zs"
    by (cases ys) auto
  have sets: "set (x # xs) = set (y # zs)"
    using Cons.prems(1) ys by (metis set_mset_mset)
  have "x = y"
  proof (rule ccontr)
    assume ne: "x \<noteq> y"
    with sets have "x \<in> set zs" and "y \<in> set xs" by auto
    with Cons.prems(2,3) ys have "c x y \<noteq> Greater" and "c y x \<noteq> Greater" by auto
    then have "c x y = Equal" by (rule both_not_greater)
    with Cons.prems(4) \<open>y \<in> set xs\<close> ne show False by simp
  qed
  moreover have "xs = zs"
    using Cons.prems ys \<open>x = y\<close> by (intro Cons.IH) auto
  ultimately show ?case using ys by simp
qed

lemma sort_by_perm:
  assumes "mset xs = mset ys"
    and "\<And>x y. x \<in> set xs \<Longrightarrow> y \<in> set xs \<Longrightarrow> c x y = Equal \<Longrightarrow> x = y"
  shows "sort_by c xs = sort_by c ys"
  using assms by (intro sorted_unique) (auto simp: mset_sort_by sorted_sort_by set_sort_by)

lemma sort_by_id: "sorted_wrt (\<lambda>x y. c x y \<noteq> Greater) xs \<Longrightarrow> sort_by c xs = xs"
proof (induction xs)
  case Nil
  then show ?case by simp
next
  case (Cons x xs)
  then show ?case by (cases xs) auto
qed

lemma sort_by_snoc_greatest:
  "(\<And>x. x \<in> set xs \<Longrightarrow> c x y \<noteq> Greater) \<Longrightarrow> sort_by c (xs @ [y]) = sort_by c xs @ [y]"
proof (induction xs)
  case Nil
  then show ?case by simp
next
  case (Cons x xs)
  have "insert_by c x (zs @ [y]) = insert_by c x zs @ [y]" for zs
    using Cons.prems [of x] by (induction zs) auto
  with Cons show ?case by simp
qed

end

lemma total_cmp_linorder: "total_cmp (cmp :: 'a::linorder \<Rightarrow> 'a \<Rightarrow> ordering)"
  by unfold_locales (auto simp: cmp_def split: if_splits)

lemma total_cmp_key: "total_cmp c \<Longrightarrow> total_cmp (\<lambda>x y. c (f x) (f y))"
  unfolding total_cmp_def by blast

lemma total_cmp_flip: "total_cmp c \<Longrightarrow> total_cmp (\<lambda>x y. c y x)"
  unfolding total_cmp_def by blast

lemma reverse_reverse [simp]: "reverse (reverse r) = r"
  by (cases r) auto

lemma reverse_then_with: "reverse (then_with a b) = then_with (reverse a) (reverse b)"
  by (cases a) auto

lemma then_with_not_greater: "then_with a b \<noteq> Greater \<longleftrightarrow> a = Less \<or> (a = Equal \<and> b \<noteq> Greater)"
  by (cases a) auto

lemma then_with_Equal [simp]: "then_with a b = Equal \<longleftrightarrow> a = Equal \<and> b = Equal"
  by (cases a) auto

lemma then_with_Less: "then_with a b = Less \<longleftrightarrow> a = Less \<or> (a = Equal \<and> b = Less)"
  by (cases a) auto

lemma total_cmp_then:
  assumes c: "total_cmp c" and d: "total_cmp d"
  shows "total_cmp (\<lambda>x y. then_with (c x y) (d x y))"
proof
  fix x y
  show "then_with (c y x) (d y x) = reverse (then_with (c x y) (d x y))"
    by (simp add: reverse_then_with total_cmp.cmp_swap [OF c, of y x] total_cmp.cmp_swap [OF d, of y x])
next
  fix x y z
  assume xy: "then_with (c x y) (d x y) \<noteq> Greater" and yz: "then_with (c y z) (d y z) \<noteq> Greater"
  have swap: "c u v = Less \<longleftrightarrow> c v u = Greater" "c u v = Equal \<longleftrightarrow> c v u = Equal" for u v
    using total_cmp.cmp_swap [OF c, of v u] by (cases "c u v"; simp)+
  have tr: "c u v \<noteq> Greater \<Longrightarrow> c v w \<noteq> Greater \<Longrightarrow> c u w \<noteq> Greater" for u v w
    using c by (rule total_cmp.cmp_trans)
  from xy yz have "c x y \<noteq> Greater" and "c y z \<noteq> Greater"
    by (auto simp: then_with_not_greater)
  then have xz: "c x z \<noteq> Greater" by (rule tr)
  show "then_with (c x z) (d x z) \<noteq> Greater"
  proof (cases "c x z")
    case Equal
    then have "c z x \<noteq> Greater" using swap(2) [of x z] by simp
    then have "c y x \<noteq> Greater" and "c z y \<noteq> Greater"
      using tr \<open>c x y \<noteq> Greater\<close> \<open>c y z \<noteq> Greater\<close> by blast+
    then have "c x y = Equal" and "c y z = Equal"
      using \<open>c x y \<noteq> Greater\<close> \<open>c y z \<noteq> Greater\<close> swap ordering.exhaust by metis+
    with xy yz have "d x y \<noteq> Greater" and "d y z \<noteq> Greater" by simp_all
    then have "d x z \<noteq> Greater" by (rule total_cmp.cmp_trans [OF d])
    with Equal show ?thesis by simp
  qed (use xz in simp_all)
qed

lemmas total_cmp_intros = total_cmp_then total_cmp_linorder
  total_cmp_key [OF total_cmp_linorder] total_cmp_flip [OF total_cmp_key [OF total_cmp_linorder]]

lemma cmp_Equal [simp]: "cmp x y = Equal \<longleftrightarrow> x = y"
  by (simp add: cmp_def)

lemma cmp_Less [simp]: "cmp x y = Less \<longleftrightarrow> x < y"
  by (auto simp: cmp_def)

lemma cmp_Greater [simp]: "cmp x y = Greater \<longleftrightarrow> y < x"
  by (auto simp: cmp_def)

text \<open>\<open>Vec::sort\<close> on totally ordered elements.\<close>

interpretation ord_cmp: total_cmp "cmp :: 'a::linorder \<Rightarrow> 'a \<Rightarrow> ordering"
  by (rule total_cmp_linorder)

section \<open>Lemmas: BTreeMap\<close>

text \<open>The interface the components use: lookup after insertion, and keys in ascending order.\<close>

locale ordered_map =
  fixes empty :: 'm
    and get :: "'m \<Rightarrow> 'k::linorder \<Rightarrow> 'v option"
    and insert :: "'k \<Rightarrow> 'v \<Rightarrow> 'm \<Rightarrow> 'm"
    and keys :: "'m \<Rightarrow> 'k list"
    and wf :: "'m \<Rightarrow> bool"
  assumes wf_empty: "wf empty"
    and wf_insert: "wf m \<Longrightarrow> wf (insert k v m)"
    and get_empty: "get empty k = None"
    and get_insert: "wf m \<Longrightarrow> get (insert k v m) j = (if j = k then Some v else get m j)"
    and keys_get: "wf m \<Longrightarrow> set (keys m) = {k. get m k \<noteq> None}"
    and keys_sorted: "wf m \<Longrightarrow> sorted_wrt (<) (keys m)"
begin

primrec collect :: "('k \<times> 'v) list \<Rightarrow> 'm \<Rightarrow> 'm" where
  "collect [] m = m"
| "collect (e # es) m = collect es (insert (fst e) (snd e) m)"

lemma wf_collect: "wf m \<Longrightarrow> wf (collect es m)"
  by (induction es arbitrary: m) (auto simp: wf_insert)

lemma get_collect: "wf m \<Longrightarrow> get (collect es m) k = (case map_of (rev es) k of None \<Rightarrow> get m k | Some v \<Rightarrow> Some v)"
  by (induction es arbitrary: m) (auto simp: wf_insert get_insert map_add_def split: option.splits)

lemma keys_insert: "wf m \<Longrightarrow> set (keys (insert k v m)) = Set.insert k (set (keys m))"
  by (auto simp: keys_get wf_insert get_insert)

lemma distinct_keys: "wf m \<Longrightarrow> distinct (keys m)"
  using keys_sorted strict_sorted_iff by blast

end

lemma bt_insert_keys: "set (map fst (bt_insert k v m)) = insert k (fst ` set m)"
  by (induction m) (auto split: ordering.splits)

lemma bt_wf_insert: "bt_wf m \<Longrightarrow> bt_wf (bt_insert k v m)"
proof (induction m)
  case Nil
  then show ?case by (simp add: bt_wf_def)
next
  case (Cons e m)
  have "fst x \<in> insert k (fst ` set m)" if "x \<in> set (bt_insert k v m)" for x
    using that bt_insert_keys [of k v m] by auto
  with Cons show ?case
    by (fastforce simp: bt_wf_def split: ordering.splits)
qed

lemma bt_get_insert: "bt_get (bt_insert k v m) j = (if j = k then Some v else bt_get m j)"
proof (induction m)
  case Nil
  then show ?case by (simp add: bt_get_def)
next
  case (Cons e m)
  then show ?case
    by (cases e) (auto simp: bt_get_def split: ordering.splits)
qed

interpretation bt: ordered_map "[]" bt_get bt_insert bt_keys bt_wf
proof
  fix m :: "('a::linorder, 'b) BTreeMap" and k j v
  show "bt_wf ([] :: ('a, 'b) BTreeMap)" by (simp add: bt_wf_def)
  show "bt_get ([] :: ('a, 'b) BTreeMap) k = None" by (simp add: bt_get_def)
  assume wf: "bt_wf m"
  show "bt_wf (bt_insert k v m)" using wf by (rule bt_wf_insert)
  show "bt_get (bt_insert k v m) j = (if j = k then Some v else bt_get m j)"
    by (rule bt_get_insert)
  show "sorted_wrt (<) (bt_keys m)" using wf by (simp add: bt_wf_def bt_keys_def)
  show "set (bt_keys m) = {k. bt_get m k \<noteq> None}"
    unfolding bt_keys_def bt_get_def map_of_eq_None_iff by simp
qed

lemma bt_collect_eq: "bt_collect es m = bt.collect es m"
  by (induction es arbitrary: m) auto

lemma bt_get_collect: "bt_get (bt_collect es []) k = map_of (rev es) k"
  by (simp add: bt_collect_eq bt.get_collect bt.wf_empty bt.get_empty split: option.splits)

lemma bt_wf_collect: "bt_wf (bt_collect es [])"
  by (simp add: bt_collect_eq bt.wf_collect bt.wf_empty)

lemma bt_get_update:
  "bt_wf m \<Longrightarrow> bt_get (bt_update k d f m) j =
     (if j = k then Some (f (case bt_get m k of None \<Rightarrow> d | Some v \<Rightarrow> v)) else bt_get m j)"
  by (simp add: bt_update_def bt.get_insert)

lemma bt_wf_update: "bt_wf m \<Longrightarrow> bt_wf (bt_update k d f m)"
  by (simp add: bt_update_def bt.wf_insert)

lemma bt_get_mem: "bt_wf m \<Longrightarrow> bt_get m k = Some v \<longleftrightarrow> (k, v) \<in> set m"
  by (metis bt.distinct_keys bt_get_def bt_keys_def map_of_eq_Some_iff)

text \<open>Two ordered maps with the same lookups are equal.\<close>

lemma bt_ext:
  assumes wf: "bt_wf m" "bt_wf m'" and get: "\<And>k. bt_get m k = bt_get m' k"
  shows "m = m'"
proof -
  have entries: "n = map (\<lambda>k. (k, the (bt_get n k))) (bt_keys n)" if "bt_wf n" for n :: "('a, 'b) BTreeMap"
    unfolding bt_keys_def map_map by (rule map_idI [symmetric]) (metis bt_get_mem comp_apply option.sel prod.collapse that)
  have "set (bt_keys m) = set (bt_keys m')"
    using bt.keys_get [OF wf(1)] bt.keys_get [OF wf(2)] get by simp
  then have keys: "bt_keys m = bt_keys m'"
    using bt.keys_sorted [OF wf(1)] bt.keys_sorted [OF wf(2)] by (intro strict_sorted_equal) simp_all
  have "m = map (\<lambda>k. (k, the (bt_get m k))) (bt_keys m)" by (rule entries [OF wf(1)])
  also have "\<dots> = map (\<lambda>k. (k, the (bt_get m' k))) (bt_keys m')" by (simp add: keys get)
  also have "\<dots> = m'" by (rule entries [OF wf(2), symmetric])
  finally show ?thesis .
qed

text \<open>
  The grouping loops, \<open>entry(key).or_default().push(value)\<close> for the elements that have a key:
  a key maps to its values in the order of the loop.
\<close>

lemma bt_group_get:
  assumes step: "\<And>x m. h x m = (case f x of None \<Rightarrow> m | Some k \<Rightarrow> bt_update k [] (\<lambda>l. l @ [g x]) m)"
    and "bt_wf m"
  shows "bt_wf (fold h xs m) \<and>
    bt_get (fold h xs m) k =
      (let l = (case bt_get m k of None \<Rightarrow> [] | Some l \<Rightarrow> l) @ map g (filter (\<lambda>x. f x = Some k) xs)
       in if bt_get m k = None \<and> l = [] then None else Some l)"
  using assms(2)
proof (induction xs arbitrary: m)
  case Nil
  then show ?case by (auto split: option.split)
next
  case (Cons x xs)
  have "bt_wf (h x m)" using Cons.prems by (simp add: step bt_wf_update split: option.split)
  with Cons.IH [of "h x m"] Cons.prems show ?case
    by (auto simp: step bt_get_update Let_def split: option.splits)
qed

lemmas bt_group_empty = bt_group_get [where m = "[]", simplified bt.get_empty bt.wf_empty, simplified]

section \<open>Lemmas: lists with a key\<close>

text \<open>Counting the elements that satisfy a predicate in a list with distinct keys.\<close>

lemma count_remove_key:
  assumes "distinct (map fst xs)" and "(k, v) \<in> set xs"
  shows "length (filter P (map snd xs)) =
    length (filter P (map snd (filter (\<lambda>e. fst e \<noteq> k) xs))) + (if P v then 1 else 0)"
  using assms
proof (induction xs)
  case Nil
  then show ?case by simp
next
  case (Cons e xs)
  show ?case
  proof (cases "fst e = k")
    case True
    with Cons.prems have absent: "k \<notin> fst ` set xs" by simp
    moreover have "snd e = v"
    proof -
      have "(k, v) \<notin> set xs" using absent by force
      with Cons.prems(2) show ?thesis by auto
    qed
    moreover from absent have "filter (\<lambda>e. fst e \<noteq> k) xs = xs" by (force intro!: filter_True)
    ultimately show ?thesis using True by simp
  next
    case False
    with Cons show ?thesis by auto
  qed
qed

lemma filter_key_absent: "k \<notin> fst ` set xs \<Longrightarrow> filter (\<lambda>e. fst e \<noteq> k) xs = xs"
  by (auto intro!: filter_True)

section \<open>What a loop reads\<close>

text \<open>The elements up to the first one with a property, and that one.\<close>

fun up_to :: "('x \<Rightarrow> bool) \<Rightarrow> 'x list \<Rightarrow> 'x list" where
  "up_to p [] = []"
| "up_to p (x # xs) = x # (if p x then [] else up_to p xs)"

lemma up_to_all: "list_all (\<lambda>x. \<not> p x) xs \<Longrightarrow> up_to p xs = xs"
  by (induction xs) auto

end
