(* ===== verification/Floats.thy ===== *)
theory Floats
  imports Prelude
begin

text \<open>
  The primitive types \<open>f32\<close> and \<open>f64\<close>. A value is its bit pattern (\<open>to_bits\<close>), so NaN, the
  infinities and the two zeros are all present. The magnitude of a finite value is an integral
  number of units, the smallest subnormal of the format (\<open>2 ^ -149\<close> and \<open>2 ^ -1074\<close>);
  comparisons are integer comparisons of units, and arithmetic computes the exact result in units
  and rounds it to nearest, ties to even.
\<close>

section \<open>Formats\<close>

text \<open>Bits of the significand, the magnitude bits of infinity, and the exponent of a unit.\<close>

record fl_format =
  fl_prec :: nat
  fl_inf :: int
  fl_scale :: nat

text \<open>A float split into its sign and its magnitude bits.\<close>

type_synonym fl = "bool \<times> int"

text \<open>A magnitude in units; the formula gives an infinity a value above every finite one.\<close>

definition mag_units :: "fl_format \<Rightarrow> int \<Rightarrow> int" where
  "mag_units F m =
     (let h = 2 ^ (fl_prec F - 1); e = m div h; f = m mod h
      in if e = 0 then f else (h + f) * 2 ^ nat (e - 1))"

text \<open>The number of bits of an integer, by words of 64 bits first.\<close>

function bit_len :: "int \<Rightarrow> nat" where
  "bit_len n =
     (if n \<le> 0 then 0
      else if 2 ^ 64 \<le> n then 64 + bit_len (n div 2 ^ 64)
      else Suc (bit_len (n div 2)))"
  by pat_completeness auto
termination
  by (relation "measure nat") auto

declare bit_len.simps [simp del]

text \<open>
  The magnitude bits of the value nearest to \<open>num / den\<close> units. With \<open>p\<close> significant bits kept,
  the bits are \<open>e * 2 ^ (p - 1) + m\<close> for the significand \<open>m\<close> and the shift \<open>e\<close>, which also
  covers a carry out of the significand and the subnormals.
\<close>

definition round_mag :: "fl_format \<Rightarrow> int \<Rightarrow> int \<Rightarrow> int" where
  "round_mag F num den =
     (let e = bit_len (num div den) - fl_prec F;
          d = den * 2 ^ e;
          m = num div d;
          r = num mod d;
          m' = (if d < 2 * r \<or> (2 * r = d \<and> odd m) then m + 1 else m)
      in min (int e * 2 ^ (fl_prec F - 1) + m') (fl_inf F))"

definition fl_nan :: "fl_format \<Rightarrow> fl" where
  "fl_nan F = (False, fl_inf F + 2 ^ (fl_prec F - 2))"

definition fl_is_nan :: "fl_format \<Rightarrow> fl \<Rightarrow> bool" where
  "fl_is_nan F x = (fl_inf F < snd x)"

definition fl_is_inf :: "fl_format \<Rightarrow> fl \<Rightarrow> bool" where
  "fl_is_inf F x = (snd x = fl_inf F)"

definition fl_units :: "fl_format \<Rightarrow> fl \<Rightarrow> int" where
  "fl_units F x = (if fst x then - mag_units F (snd x) else mag_units F (snd x))"

definition fl_add :: "fl_format \<Rightarrow> fl \<Rightarrow> fl \<Rightarrow> fl" where
  "fl_add F a b =
     (if fl_is_nan F a \<or> fl_is_nan F b then fl_nan F
      else if fl_is_inf F a then (if fl_is_inf F b \<and> fst a \<noteq> fst b then fl_nan F else a)
      else if fl_is_inf F b then b
      else (let s = fl_units F a + fl_units F b
            in if s = 0 then (fst a \<and> fst b, 0) else (s < 0, round_mag F \<bar>s\<bar> 1)))"

definition fl_mul :: "fl_format \<Rightarrow> fl \<Rightarrow> fl \<Rightarrow> fl" where
  "fl_mul F a b =
     (let n = (fst a \<noteq> fst b); x = mag_units F (snd a); y = mag_units F (snd b)
      in if fl_is_nan F a \<or> fl_is_nan F b then fl_nan F
         else if fl_is_inf F a then (if y = 0 then fl_nan F else (n, fl_inf F))
         else if fl_is_inf F b then (if x = 0 then fl_nan F else (n, fl_inf F))
         else (n, round_mag F (x * y) (2 ^ fl_scale F)))"

definition fl_div :: "fl_format \<Rightarrow> fl \<Rightarrow> fl \<Rightarrow> fl" where
  "fl_div F a b =
     (let n = (fst a \<noteq> fst b); x = mag_units F (snd a); y = mag_units F (snd b)
      in if fl_is_nan F a \<or> fl_is_nan F b then fl_nan F
         else if fl_is_inf F a then (if fl_is_inf F b then fl_nan F else (n, fl_inf F))
         else if fl_is_inf F b then (n, 0)
         else if y = 0 then (if x = 0 then fl_nan F else (n, fl_inf F))
         else (n, round_mag F (x * 2 ^ fl_scale F) y))"

text \<open>\<open>n as f32\<close> and \<open>n as f64\<close> for an unsigned integer \<open>n\<close>.\<close>

definition fl_of_nat :: "fl_format \<Rightarrow> nat \<Rightarrow> fl" where
  "fl_of_nat F n = (False, round_mag F (int n * 2 ^ fl_scale F) 1)"

section \<open>f32\<close>

type_synonym f32 = u32

definition fmt32 :: fl_format where
  "fmt32 = \<lparr>fl_prec = 24, fl_inf = 0x7F800000, fl_scale = 149\<rparr>"

definition f32_fl :: "f32 \<Rightarrow> fl" where
  "f32_fl x = (0x80000000 \<le> x, uint x mod 2 ^ 31)"

definition fl_f32 :: "fl \<Rightarrow> f32" where
  "fl_f32 a = (if fst a then 0x80000000 else 0) + of_int (snd a)"

definition f32_zero :: f32 where
  "f32_zero = 0"

definition f32_one :: f32 where
  "f32_one = 0x3F800000"

definition f32_hundred :: f32 where
  "f32_hundred = 0x42C80000"

definition f32_is_nan :: "f32 \<Rightarrow> bool" where
  "f32_is_nan x = fl_is_nan fmt32 (f32_fl x)"

definition f32_is_finite :: "f32 \<Rightarrow> bool" where
  "f32_is_finite x = (snd (f32_fl x) < fl_inf fmt32)"

definition f32_units :: "f32 \<Rightarrow> int" where
  "f32_units x = fl_units fmt32 (f32_fl x)"

definition f32_lt :: "f32 \<Rightarrow> f32 \<Rightarrow> bool" where
  "f32_lt a b = (\<not> f32_is_nan a \<and> \<not> f32_is_nan b \<and> f32_units a < f32_units b)"

definition f32_le :: "f32 \<Rightarrow> f32 \<Rightarrow> bool" where
  "f32_le a b = (\<not> f32_is_nan a \<and> \<not> f32_is_nan b \<and> f32_units a \<le> f32_units b)"

definition f32_clamp :: "f32 \<Rightarrow> f32 \<Rightarrow> f32 \<Rightarrow> f32" where
  "f32_clamp x lo hi = (if f32_lt x lo then lo else if f32_lt hi x then hi else x)"

text \<open>\<open>(0.0..=1.0).contains(&x)\<close>\<close>

definition f32_in_unit :: "f32 \<Rightarrow> bool" where
  "f32_in_unit x = (f32_le f32_zero x \<and> f32_le x f32_one)"

definition f32_add :: "f32 \<Rightarrow> f32 \<Rightarrow> f32" where
  "f32_add a b = fl_f32 (fl_add fmt32 (f32_fl a) (f32_fl b))"

definition f32_mul :: "f32 \<Rightarrow> f32 \<Rightarrow> f32" where
  "f32_mul a b = fl_f32 (fl_mul fmt32 (f32_fl a) (f32_fl b))"

definition f32_div :: "f32 \<Rightarrow> f32 \<Rightarrow> f32" where
  "f32_div a b = fl_f32 (fl_div fmt32 (f32_fl a) (f32_fl b))"

definition f32_of_nat :: "nat \<Rightarrow> f32" where
  "f32_of_nat n = fl_f32 (fl_of_nat fmt32 n)"

text \<open>The formatter \<open>{:.0}\<close>: nearest integer, ties to even.\<close>

definition f32_fmt0 :: "f32 \<Rightarrow> string" where
  "f32_fmt0 x =
     (if f32_is_nan x then ''NaN''
      else (if fst (f32_fl x) then ''-'' else []) @
        (if fl_is_inf fmt32 (f32_fl x) then ''inf''
         else (let u = mag_units fmt32 (snd (f32_fl x)); q = u div 2 ^ 149; r = u mod 2 ^ 149
               in dec_digits (if 2 ^ 149 < 2 * r \<or> (2 * r = 2 ^ 149 \<and> odd q) then q + 1 else q))))"

section \<open>f64\<close>

type_synonym f64 = u64

definition fmt64 :: fl_format where
  "fmt64 = \<lparr>fl_prec = 53, fl_inf = 0x7FF0000000000000, fl_scale = 1074\<rparr>"

definition f64_fl :: "f64 \<Rightarrow> fl" where
  "f64_fl x = (0x8000000000000000 \<le> x, uint x mod 2 ^ 63)"

definition fl_f64 :: "fl \<Rightarrow> f64" where
  "fl_f64 a = (if fst a then 0x8000000000000000 else 0) + of_int (snd a)"

definition f64_of_nat :: "nat \<Rightarrow> f64" where
  "f64_of_nat n = fl_f64 (fl_of_nat fmt64 n)"

definition f64_div :: "f64 \<Rightarrow> f64 \<Rightarrow> f64" where
  "f64_div a b = fl_f64 (fl_div fmt64 (f64_fl a) (f64_fl b))"

section \<open>Lemmas\<close>

lemmas f32_defs = f32_is_nan_def f32_is_finite_def f32_units_def fl_is_nan_def fl_units_def f32_fl_def
  mag_units_def fmt32_def

lemma f32_units_zero [simp]: "f32_units f32_zero = 0"
  by (simp add: f32_defs f32_zero_def)

lemma f32_units_one [simp]: "f32_units f32_one = 2 ^ 149"
  by (simp add: f32_defs f32_one_def)

lemma f32_not_nan_consts [simp]: "\<not> f32_is_nan f32_zero" "\<not> f32_is_nan f32_one"
  by (simp_all add: f32_defs f32_zero_def f32_one_def)

lemma f32_in_unit_units: "f32_in_unit x \<longleftrightarrow> \<not> f32_is_nan x \<and> 0 \<le> f32_units x \<and> f32_units x \<le> 2 ^ 149"
  by (auto simp: f32_in_unit_def f32_le_def)

lemma mag_units_inf32: "mag_units fmt32 0x7F800000 = 2 ^ 277"
  by (simp add: mag_units_def fmt32_def)

text \<open>A value in the unit interval is finite, so the two tests of the validators agree.\<close>

lemma f32_in_unit_finite:
  assumes "f32_in_unit x" shows "f32_is_finite x"
proof (rule ccontr)
  assume "\<not> f32_is_finite x"
  with assms have inf: "snd (f32_fl x) = 0x7F800000"
    by (auto simp: f32_in_unit_units f32_is_finite_def f32_is_nan_def fl_is_nan_def fmt32_def)
  from assms show False
    by (simp add: f32_in_unit_units f32_units_def fl_units_def inf mag_units_inf32 split: if_splits)
qed

lemma f32_clamp_in_unit: "\<not> f32_is_nan x \<Longrightarrow> f32_in_unit (f32_clamp x f32_zero f32_one)"
  by (auto simp: f32_clamp_def f32_in_unit_units f32_lt_def)

end
