(* ===== verification/Model.thy ===== *)
theory Model
  imports Floats
begin

text \<open>
  The event protocol, \<open>src/model.rs\<close>: the versioned envelope, the eleven event kinds with
  their payload structs, the UDP policy and the validators. A struct is a record with the source's
  field names (always written with the struct's name in front, as \<open>TaskSpec.task_id\<close>), an enum
  is a datatype. A validator is the sequence of the checks of its source, and its error is the
  error of the first check that fails.

  Values of third-party types: a \<open>uuid::Uuid\<close> is its 128-bit number, whose unsigned order is the
  order of the bytes; a \<open>chrono::DateTime<Utc>\<close> is the pair of \<open>timestamp()\<close> and
  \<open>timestamp_subsec_nanos()\<close>, ordered lexicographically. The second component is below
  \<open>10 ^ 9\<close> except on a leap second, where it is below \<open>2 * 10 ^ 9\<close>.
\<close>

section \<open>Shared types\<close>

type_synonym Uuid = "128 word"
type_synonym DateTime = "int \<times> int"

definition uuid_is_nil :: "Uuid \<Rightarrow> bool" where
  "uuid_is_nil u = (u = 0)"

definition PROTOCOL_VERSION :: string where
  "PROTOCOL_VERSION = ''v1''"

definition EVENT_KINDS :: "string list" where
  "EVENT_KINDS =
    [''agent_registered'', ''heartbeat'', ''goal_declared'', ''task_created'', ''task_started'',
     ''progress_updated'', ''reflection_recorded'', ''lesson_learned'', ''error_observed'',
     ''task_completed'', ''agent_status_changed'']"

definition UDP_EVENT_KINDS :: "string list" where
  "UDP_EVENT_KINDS =
    [''heartbeat'', ''progress_updated'', ''reflection_recorded'', ''error_observed'',
     ''agent_status_changed'']"

datatype Transport = Http | WebSocket | Tcp | Udp

fun transport_as_str :: "Transport \<Rightarrow> string" where
  "transport_as_str Http = ''http''"
| "transport_as_str WebSocket = ''websocket''"
| "transport_as_str Tcp = ''tcp''"
| "transport_as_str Udp = ''udp''"

section \<open>Event payloads\<close>

record AgentRef =
  agent_id :: string
  provider :: string
  model :: string
  instance_id :: "string option"

datatype AgentStatus = Idle | Planning | Running | Waiting | Blocked | Completed | Failed | Offline

record AgentRegistration =
  display_name :: string
  capabilities :: "string list"
  metadata :: "(string, string) BTreeMap"
  status :: AgentStatus

record HeartbeatData =
  status :: "AgentStatus option"
  active_task_id :: "string option"
  load :: "f32 option"

record Goal =
  goal_id :: string
  title :: string
  success_criteria :: "string list"
  constraints :: "string list"
  parent_goal_id :: "string option"

record TaskSpec =
  task_id :: string
  title :: string
  goal_id :: "string option"
  depends_on :: "string list"
  tags :: "string list"
  expected_outcome :: "string option"

record TaskStartedData =
  task_id :: string
  attempt :: u32
  plan_summary :: "string option"

record ProgressUpdate =
  task_id :: string
  progress :: f32
  summary :: string
  blocker :: "string option"
  next_action :: "string option"

record EvidenceReference =
  kind :: string
  reference :: string
  summary :: "string option"

record Reflection =
  task_id :: "string option"
  summary :: string
  confidence :: f32
  assumptions :: "string list"
  evidence :: "EvidenceReference list"
  alternatives_considered :: "string list"
  risks :: "string list"
  next_action :: "string option"

record Lesson =
  lesson_id :: string
  statement :: string
  confidence :: f32
  source_task_id :: "string option"
  evidence :: "EvidenceReference list"
  tags :: "string list"
  applicability :: "string option"

record ErrorObservation =
  task_id :: "string option"
  code :: string
  message :: string
  recoverable :: bool
  proposed_recovery :: "string option"

datatype TaskOutcome = Succeeded | Failed | Canceled | Partial

record TaskCompletedData =
  task_id :: string
  outcome :: TaskOutcome
  summary :: string
  artifacts :: "string list"
  actual_result :: "string option"

record StatusChange =
  status :: AgentStatus
  reason :: "string option"

datatype AgentEvent =
    AgentRegistered AgentRegistration
  | Heartbeat HeartbeatData
  | GoalDeclared Goal
  | TaskCreated TaskSpec
  | TaskStarted TaskStartedData
  | ProgressUpdated ProgressUpdate
  | ReflectionRecorded Reflection
  | LessonLearned Lesson
  | ErrorObserved ErrorObservation
  | TaskCompleted TaskCompletedData
  | AgentStatusChanged StatusChange

record EventEnvelope =
  protocol_version :: string
  event_id :: Uuid
  occurred_at :: DateTime
  agent :: AgentRef
  session_id :: "string option"
  correlation_id :: "string option"
  sequence :: "u64 option"
  event :: AgentEvent

section \<open>Observers of an event\<close>

text \<open>\<open>AgentEvent::kind\<close>\<close>

fun event_kind :: "AgentEvent \<Rightarrow> string" where
  "event_kind (AgentRegistered _) = ''agent_registered''"
| "event_kind (Heartbeat _) = ''heartbeat''"
| "event_kind (GoalDeclared _) = ''goal_declared''"
| "event_kind (TaskCreated _) = ''task_created''"
| "event_kind (TaskStarted _) = ''task_started''"
| "event_kind (ProgressUpdated _) = ''progress_updated''"
| "event_kind (ReflectionRecorded _) = ''reflection_recorded''"
| "event_kind (LessonLearned _) = ''lesson_learned''"
| "event_kind (ErrorObserved _) = ''error_observed''"
| "event_kind (TaskCompleted _) = ''task_completed''"
| "event_kind (AgentStatusChanged _) = ''agent_status_changed''"

text \<open>\<open>AgentEvent::task_id\<close>\<close>

fun event_task_id :: "AgentEvent \<Rightarrow> string option" where
  "event_task_id (TaskCreated v) = Some (TaskSpec.task_id v)"
| "event_task_id (TaskStarted v) = Some (TaskStartedData.task_id v)"
| "event_task_id (ProgressUpdated v) = Some (ProgressUpdate.task_id v)"
| "event_task_id (ReflectionRecorded v) = Reflection.task_id v"
| "event_task_id (LessonLearned v) = Lesson.source_task_id v"
| "event_task_id (ErrorObserved v) = ErrorObservation.task_id v"
| "event_task_id (TaskCompleted v) = Some (TaskCompletedData.task_id v)"
| "event_task_id _ = None"

text \<open>\<open>AgentEvent::allowed_over_udp\<close>\<close>

fun allowed_over_udp :: "AgentEvent \<Rightarrow> bool" where
  "allowed_over_udp (Heartbeat _) = True"
| "allowed_over_udp (ProgressUpdated _) = True"
| "allowed_over_udp (ReflectionRecorded _) = True"
| "allowed_over_udp (ErrorObserved _) = True"
| "allowed_over_udp (AgentStatusChanged _) = True"
| "allowed_over_udp _ = False"

text \<open>\<open>EventEnvelope::new\<close>; the random identifier and the clock reading are arguments.\<close>

definition envelope_new :: "Uuid \<Rightarrow> DateTime \<Rightarrow> AgentRef \<Rightarrow> AgentEvent \<Rightarrow> EventEnvelope" where
  "envelope_new new_v4 now a e =
     \<lparr>EventEnvelope.protocol_version = PROTOCOL_VERSION, event_id = new_v4, occurred_at = now,
      agent = a, session_id = None, correlation_id = None, sequence = None, event = e\<rparr>"

section \<open>Validation\<close>

datatype ValidationError =
    UnsupportedProtocol string
  | NilEventId
  | EmptyText string
  | TextTooLong string nat
  | TooManyValues string nat
  | InvalidUnitInterval string
  | InvalidAttempt

definition validate_text :: "string \<Rightarrow> string \<Rightarrow> nat \<Rightarrow> ValidationError check" where
  "validate_text field v maximum =
     (if str_trim v = [] then Inl (EmptyText field)
      else if length v > maximum then Inl (TextTooLong field maximum)
      else ok)"

definition validate_optional_text :: "string \<Rightarrow> string option \<Rightarrow> nat \<Rightarrow> ValidationError check" where
  "validate_optional_text field v maximum =
     (case v of Some t \<Rightarrow> validate_text field t maximum | None \<Rightarrow> ok)"

definition validate_metadata :: "(string, string) BTreeMap \<Rightarrow> ValidationError check" where
  "validate_metadata vs =
     (if length vs > 128 then Inl (TooManyValues ''metadata'' 128)
      else run_checks (concat (map (\<lambda>(k, v).
        [validate_text ''metadata.key'' k 128, validate_text ''metadata.value'' v 2048]) vs)))"

definition validate_string_list :: "string \<Rightarrow> string list \<Rightarrow> nat \<Rightarrow> nat \<Rightarrow> ValidationError check" where
  "validate_string_list field vs maximum_values maximum_length =
     (if length vs > maximum_values then Inl (TooManyValues field maximum_values)
      else run_checks (map (\<lambda>v. validate_text field v maximum_length) vs))"

definition validate_unit_interval :: "string \<Rightarrow> f32 \<Rightarrow> ValidationError check" where
  "validate_unit_interval field v =
     (if f32_is_finite v \<and> f32_in_unit v then ok else Inl (InvalidUnitInterval field))"

definition validate_optional_unit_interval :: "string \<Rightarrow> f32 option \<Rightarrow> ValidationError check" where
  "validate_optional_unit_interval field v =
     (case v of Some x \<Rightarrow> validate_unit_interval field x | None \<Rightarrow> ok)"

definition validate_goal :: "Goal \<Rightarrow> ValidationError check" where
  "validate_goal g = run_checks
     [validate_text ''goal_id'' (Goal.goal_id g) 256,
      validate_text ''goal.title'' (Goal.title g) 2048,
      validate_string_list ''success_criteria'' (Goal.success_criteria g) 64 2048,
      validate_string_list ''constraints'' (Goal.constraints g) 64 2048,
      validate_optional_text ''parent_goal_id'' (Goal.parent_goal_id g) 256]"

definition validate_task_spec :: "TaskSpec \<Rightarrow> ValidationError check" where
  "validate_task_spec t = run_checks
     [validate_text ''task_id'' (TaskSpec.task_id t) 256,
      validate_text ''task.title'' (TaskSpec.title t) 2048,
      validate_optional_text ''goal_id'' (TaskSpec.goal_id t) 256,
      validate_string_list ''depends_on'' (TaskSpec.depends_on t) 128 256,
      validate_string_list ''tags'' (TaskSpec.tags t) 128 256,
      validate_optional_text ''expected_outcome'' (TaskSpec.expected_outcome t) 8192]"

definition validate_progress :: "ProgressUpdate \<Rightarrow> ValidationError check" where
  "validate_progress p = run_checks
     [validate_text ''task_id'' (ProgressUpdate.task_id p) 256,
      validate_unit_interval ''progress'' (ProgressUpdate.progress p),
      validate_text ''progress.summary'' (ProgressUpdate.summary p) 16384,
      validate_optional_text ''blocker'' (ProgressUpdate.blocker p) 8192,
      validate_optional_text ''next_action'' (ProgressUpdate.next_action p) 8192]"

definition validate_evidence :: "EvidenceReference \<Rightarrow> ValidationError check" where
  "validate_evidence r = run_checks
     [validate_text ''evidence.kind'' (EvidenceReference.kind r) 128,
      validate_text ''evidence.reference'' (EvidenceReference.reference r) 4096,
      validate_optional_text ''evidence.summary'' (EvidenceReference.summary r) 4096]"

definition validate_reflection :: "Reflection \<Rightarrow> ValidationError check" where
  "validate_reflection r = run_checks (
     [validate_optional_text ''task_id'' (Reflection.task_id r) 256,
      validate_text ''reflection.summary'' (Reflection.summary r) 16384,
      validate_unit_interval ''confidence'' (Reflection.confidence r),
      validate_string_list ''assumptions'' (Reflection.assumptions r) 64 4096,
      guard_err (length (Reflection.evidence r) > 128) (TooManyValues ''evidence'' 128)] @
     map validate_evidence (Reflection.evidence r) @
     [validate_string_list ''alternatives_considered'' (Reflection.alternatives_considered r) 64 4096,
      validate_string_list ''risks'' (Reflection.risks r) 64 4096,
      validate_optional_text ''next_action'' (Reflection.next_action r) 8192])"

definition validate_lesson :: "Lesson \<Rightarrow> ValidationError check" where
  "validate_lesson l = run_checks (
     [validate_text ''lesson_id'' (Lesson.lesson_id l) 256,
      validate_text ''lesson.statement'' (Lesson.statement l) 16384,
      validate_unit_interval ''lesson.confidence'' (Lesson.confidence l),
      validate_optional_text ''source_task_id'' (Lesson.source_task_id l) 256,
      guard_err (length (Lesson.evidence l) > 128) (TooManyValues ''lesson.evidence'' 128)] @
     map validate_evidence (Lesson.evidence l) @
     [validate_string_list ''lesson.tags'' (Lesson.tags l) 128 256,
      validate_optional_text ''lesson.applicability'' (Lesson.applicability l) 8192])"

definition validate_error :: "ErrorObservation \<Rightarrow> ValidationError check" where
  "validate_error e = run_checks
     [validate_optional_text ''task_id'' (ErrorObservation.task_id e) 256,
      validate_text ''error.code'' (ErrorObservation.code e) 256,
      validate_text ''error.message'' (ErrorObservation.message e) 16384,
      validate_optional_text ''proposed_recovery'' (ErrorObservation.proposed_recovery e) 8192]"

definition validate_completed :: "TaskCompletedData \<Rightarrow> ValidationError check" where
  "validate_completed c = run_checks
     [validate_text ''task_id'' (TaskCompletedData.task_id c) 256,
      validate_text ''completion.summary'' (TaskCompletedData.summary c) 16384,
      validate_string_list ''artifacts'' (TaskCompletedData.artifacts c) 256 4096,
      validate_optional_text ''actual_result'' (TaskCompletedData.actual_result c) 16384]"

text \<open>\<open>AgentEvent::validate\<close>\<close>

fun validate_event :: "AgentEvent \<Rightarrow> ValidationError check" where
  "validate_event (AgentRegistered v) = run_checks
     [validate_text ''display_name'' (AgentRegistration.display_name v) 256,
      validate_string_list ''capabilities'' (AgentRegistration.capabilities v) 128 256,
      validate_metadata (AgentRegistration.metadata v)]"
| "validate_event (Heartbeat v) = run_checks
     [validate_optional_text ''active_task_id'' (HeartbeatData.active_task_id v) 256,
      validate_optional_unit_interval ''load'' (HeartbeatData.load v)]"
| "validate_event (GoalDeclared v) = validate_goal v"
| "validate_event (TaskCreated v) = validate_task_spec v"
| "validate_event (TaskStarted v) = run_checks
     [validate_text ''task_id'' (TaskStartedData.task_id v) 256,
      guard_err (TaskStartedData.attempt v = 0) InvalidAttempt,
      validate_optional_text ''plan_summary'' (TaskStartedData.plan_summary v) 8192]"
| "validate_event (ProgressUpdated v) = validate_progress v"
| "validate_event (ReflectionRecorded v) = validate_reflection v"
| "validate_event (LessonLearned v) = validate_lesson v"
| "validate_event (ErrorObserved v) = validate_error v"
| "validate_event (TaskCompleted v) = validate_completed v"
| "validate_event (AgentStatusChanged v) =
     validate_optional_text ''reason'' (StatusChange.reason v) 4096"

text \<open>\<open>EventEnvelope::validate\<close>\<close>

definition validate_envelope :: "EventEnvelope \<Rightarrow> ValidationError check" where
  "validate_envelope e = run_checks
     [guard_err (EventEnvelope.protocol_version e \<noteq> PROTOCOL_VERSION)
        (UnsupportedProtocol (EventEnvelope.protocol_version e)),
      guard_err (uuid_is_nil (EventEnvelope.event_id e)) NilEventId,
      validate_text ''agent.agent_id'' (AgentRef.agent_id (EventEnvelope.agent e)) 256,
      validate_text ''agent.provider'' (AgentRef.provider (EventEnvelope.agent e)) 128,
      validate_text ''agent.model'' (AgentRef.model (EventEnvelope.agent e)) 256,
      validate_optional_text ''agent.instance_id'' (AgentRef.instance_id (EventEnvelope.agent e)) 256,
      validate_optional_text ''session_id'' (EventEnvelope.session_id e) 256,
      validate_optional_text ''correlation_id'' (EventEnvelope.correlation_id e) 256,
      validate_event (EventEnvelope.event e)]"

section \<open>Transport frames\<close>

record TransportFrame =
  token :: "string option"
  event :: EventEnvelope

datatype TransportPayload = Frame TransportFrame | Event EventEnvelope

fun into_parts :: "TransportPayload \<Rightarrow> string option \<times> EventEnvelope" where
  "into_parts (Frame f) = (TransportFrame.token f, TransportFrame.event f)"
| "into_parts (Event e) = (None, e)"

section \<open>What the validators accept\<close>

lemma validate_text_ok [checks]: "validate_text f v m = Inr u \<longleftrightarrow> str_trim v \<noteq> [] \<and> length v \<le> m"
  by (auto simp: validate_text_def ok_def)

lemma validate_optional_text_ok [checks]:
  "validate_optional_text f v m = Inr u \<longleftrightarrow> (\<forall>t. v = Some t \<longrightarrow> str_trim t \<noteq> [] \<and> length t \<le> m)"
  by (auto simp: validate_optional_text_def ok_def checks split: option.splits)

lemma validate_string_list_ok [checks]:
  "validate_string_list f vs n m = Inr u \<longleftrightarrow>
     length vs \<le> n \<and> (\<forall>v \<in> set vs. str_trim v \<noteq> [] \<and> length v \<le> m)"
  by (auto simp: validate_string_list_def checks)

lemma validate_unit_interval_ok [checks]: "validate_unit_interval f v = Inr u \<longleftrightarrow> f32_in_unit v"
  by (auto simp: validate_unit_interval_def ok_def f32_in_unit_finite)

lemma validate_optional_unit_interval_ok [checks]:
  "validate_optional_unit_interval f v = Inr u \<longleftrightarrow> (\<forall>x. v = Some x \<longrightarrow> f32_in_unit x)"
  by (auto simp: validate_optional_unit_interval_def ok_def checks split: option.splits)

lemma validate_metadata_ok [checks]:
  "validate_metadata vs = Inr u \<longleftrightarrow> length vs \<le> 128 \<and>
     (\<forall>(k, v) \<in> set vs. str_trim k \<noteq> [] \<and> length k \<le> 128 \<and> str_trim v \<noteq> [] \<and> length v \<le> 2048)"
  by (auto simp: validate_metadata_def run_checks_ok case_prod_unfold ball_UN validate_text_ok)

lemma validate_envelope_event: "validate_envelope e = Inr u \<Longrightarrow> validate_event (EventEnvelope.event e) = Inr ()"
  by (simp add: validate_envelope_def checks)

end
