(* ===== verification/Config.thy ===== *)
theory Config
  imports Prelude
begin

text \<open>
  The daemon's configuration and its start-up checks, \<open>src/config.rs\<close>. A \<open>usize\<close> is a natural
  number. The command-line parser (\<open>clap\<close>) is not part of the repository: a \<open>Config\<close> is the
  value it produces.
\<close>

section \<open>Configuration\<close>

definition MAX_HTTP_STREAM_PAYLOAD_BYTES :: nat where
  "MAX_HTTP_STREAM_PAYLOAD_BYTES = 16 * 1024 * 1024"

definition MAX_UDP_DATAGRAM_BYTES :: nat where
  "MAX_UDP_DATAGRAM_BYTES = 65507"

datatype IpAddr = V4 "8 word" "8 word" "8 word" "8 word" | V6 "128 word"

fun is_loopback :: "IpAddr \<Rightarrow> bool" where
  "is_loopback (V4 a b c d) = (a = 127)"
| "is_loopback (V6 w) = (w = 1)"

record SocketAddr =
  ip :: IpAddr
  port :: "16 word"

record Config =
  http_addr :: SocketAddr
  tcp_addr :: SocketAddr
  udp_addr :: SocketAddr
  auth_token :: "string option"
  allow_unauthenticated_remote :: bool
  protect_read_api :: bool
  cors_any :: bool
  max_payload_bytes :: nat
  max_udp_payload_bytes :: nat
  max_tcp_connections :: nat
  agent_capacity :: nat
  goal_capacity :: nat
  task_capacity :: nat
  lesson_capacity :: nat
  event_capacity :: nat
  idempotency_capacity :: nat
  update_channel_capacity :: nat
  log_filter :: string
  log_json :: bool

record CacheConfig =
  agents :: nat
  goals :: nat
  tasks :: nat
  lessons :: nat
  events :: nat
  idempotency :: nat

datatype ConfigError =
    ZeroCapacity string
  | InvalidPayloadLimit nat
  | InvalidUdpPayloadLimit nat
  | WeakAuthenticationToken
  | ReadProtectionRequiresAuthentication
  | RemoteBindingRequiresAuthentication
  | RemoteBindingRequiresReadProtection

definition has_non_loopback_listener :: "Config \<Rightarrow> bool" where
  "has_non_loopback_listener c =
     list_ex (\<lambda>a. \<not> is_loopback (SocketAddr.ip a)) [http_addr c, tcp_addr c, udp_addr c]"

definition config_validate :: "Config \<Rightarrow> ConfigError check" where
  "config_validate c = run_checks (
     map (\<lambda>(name, value). guard_err (value = 0) (ZeroCapacity name))
       [(''agent capacity'', agent_capacity c),
        (''goal capacity'', goal_capacity c),
        (''task capacity'', task_capacity c),
        (''lesson capacity'', lesson_capacity c),
        (''event capacity'', event_capacity c),
        (''idempotency capacity'', idempotency_capacity c),
        (''update channel capacity'', update_channel_capacity c),
        (''maximum TCP connections'', max_tcp_connections c)] @
     [guard_err (max_payload_bytes c = 0 \<or> max_payload_bytes c > MAX_HTTP_STREAM_PAYLOAD_BYTES)
        (InvalidPayloadLimit MAX_HTTP_STREAM_PAYLOAD_BYTES),
      guard_err (max_udp_payload_bytes c = 0 \<or> max_udp_payload_bytes c > MAX_UDP_DATAGRAM_BYTES)
        (InvalidUdpPayloadLimit MAX_UDP_DATAGRAM_BYTES),
      guard_err (case auth_token c of Some t \<Rightarrow> length t < 16 | None \<Rightarrow> False) WeakAuthenticationToken,
      guard_err (protect_read_api c \<and> auth_token c = None) ReadProtectionRequiresAuthentication,
      guard_err (has_non_loopback_listener c \<and> auth_token c = None \<and> \<not> allow_unauthenticated_remote c)
        RemoteBindingRequiresAuthentication,
      guard_err (has_non_loopback_listener c \<and> \<not> protect_read_api c \<and> \<not> allow_unauthenticated_remote c)
        RemoteBindingRequiresReadProtection])"

definition cache_config :: "Config \<Rightarrow> CacheConfig" where
  "cache_config c =
     \<lparr>CacheConfig.agents = agent_capacity c, goals = goal_capacity c, tasks = task_capacity c,
      lessons = lesson_capacity c, events = event_capacity c, idempotency = idempotency_capacity c\<rparr>"

definition local_test :: Config where
  "local_test = (let localhost = \<lparr>ip = V4 127 0 0 1, port = 0\<rparr> in
     \<lparr>http_addr = localhost, tcp_addr = localhost, udp_addr = localhost,
      auth_token = Some ''test-token-at-least-16-bytes'',
      allow_unauthenticated_remote = False, protect_read_api = True, cors_any = False,
      max_payload_bytes = 64 * 1024, max_udp_payload_bytes = 60 * 1024, max_tcp_connections = 16,
      agent_capacity = 32, goal_capacity = 64, task_capacity = 128, lesson_capacity = 128,
      event_capacity = 512, idempotency_capacity = 1024, update_channel_capacity = 64,
      log_filter = ''warn'', log_json = False\<rparr>)"

section \<open>Lemmas\<close>

lemma config_validate_iff:
  "config_validate c = Inr () \<longleftrightarrow>
     0 < agent_capacity c \<and> 0 < goal_capacity c \<and> 0 < task_capacity c \<and> 0 < lesson_capacity c \<and>
     0 < event_capacity c \<and> 0 < idempotency_capacity c \<and> 0 < update_channel_capacity c \<and>
     0 < max_tcp_connections c \<and>
     0 < max_payload_bytes c \<and> max_payload_bytes c \<le> MAX_HTTP_STREAM_PAYLOAD_BYTES \<and>
     0 < max_udp_payload_bytes c \<and> max_udp_payload_bytes c \<le> MAX_UDP_DATAGRAM_BYTES \<and>
     (\<forall>t. auth_token c = Some t \<longrightarrow> 16 \<le> length t) \<and>
     (protect_read_api c \<longrightarrow> auth_token c \<noteq> None) \<and>
     (has_non_loopback_listener c \<longrightarrow> allow_unauthenticated_remote c \<or>
        (auth_token c \<noteq> None \<and> protect_read_api c))"
  by (auto simp: config_validate_def run_checks_ok split: option.splits)

end
