(* ===== verification/Auth.thy ===== *)
theory Auth
  imports Config
begin

text \<open>
  Token authentication, \<open>src/auth.rs\<close>. Three things come from outside the repository and are
  arguments: \<open>ct_eq\<close>, the constant-time comparison of the crate \<open>subtle\<close>; and, of the crate
  \<open>http\<close>, the lookup of the \<open>Authorization\<close> header in a header map with the conversion of its
  value to a string. A header map appears as the result of that lookup: \<open>None\<close> without the header,
  \<open>Some None\<close> for a value that is not visible ASCII, \<open>Some (Some s)\<close> otherwise.
\<close>

section \<open>Policy\<close>

type_synonym auth_header = "string option option"

record AuthPolicy =
  token :: "string option"
  protect_reads :: bool

datatype AuthorizationError = AuthorizationError

definition auth_from_config :: "Config \<Rightarrow> AuthPolicy" where
  "auth_from_config c = \<lparr>AuthPolicy.token = auth_token c, protect_reads = protect_read_api c\<rparr>"

definition authorize ::
  "(string \<Rightarrow> string \<Rightarrow> bool) \<Rightarrow> AuthPolicy \<Rightarrow> string option \<Rightarrow> AuthorizationError check" where
  "authorize ct_eq p provided =
     (case AuthPolicy.token p of
        None \<Rightarrow> ok
      | Some expected \<Rightarrow>
        (case provided of
           None \<Rightarrow> Inl AuthorizationError
         | Some given \<Rightarrow>
             if length expected \<noteq> length given \<or> \<not> ct_eq expected given
             then Inl AuthorizationError else ok))"

definition authorize_ingest ::
  "(string \<Rightarrow> string \<Rightarrow> bool) \<Rightarrow> AuthPolicy \<Rightarrow> string option \<Rightarrow> AuthorizationError check" where
  "authorize_ingest ct_eq p provided = authorize ct_eq p provided"

definition authorize_read ::
  "(string \<Rightarrow> string \<Rightarrow> bool) \<Rightarrow> AuthPolicy \<Rightarrow> string option \<Rightarrow> AuthorizationError check" where
  "authorize_read ct_eq p provided = (if protect_reads p then authorize ct_eq p provided else ok)"

definition ingestion_is_protected :: "AuthPolicy \<Rightarrow> bool" where
  "ingestion_is_protected p = (AuthPolicy.token p \<noteq> None)"

definition reads_are_protected :: "AuthPolicy \<Rightarrow> bool" where
  "reads_are_protected p = protect_reads p"

section \<open>Header parsing\<close>

definition is_ascii_whitespace :: "char \<Rightarrow> bool" where
  "is_ascii_whitespace c = ((of_char c :: int) \<in> {9, 10, 12, 13, 32})"

definition bearer_token :: "auth_header \<Rightarrow> string option" where
  "bearer_token h =
     (case h of
        Some (Some value) \<Rightarrow>
          (case str_split_once (CHR '' '') value of
             Some (scheme, tok) \<Rightarrow>
               if str_lower scheme = ''bearer'' \<and> tok \<noteq> [] \<and> \<not> list_ex is_ascii_whitespace tok
               then Some tok else None
           | None \<Rightarrow> None)
      | _ \<Rightarrow> None)"

definition preferred_token :: "auth_header \<Rightarrow> string option \<Rightarrow> string option" where
  "preferred_token h query_token = (if h \<noteq> None then bearer_token h else query_token)"

section \<open>Lemmas\<close>

text \<open>What the code relies on of the constant-time comparison: on slices of one length it decides equality.\<close>

locale constant_time_eq =
  fixes ct_eq :: "string \<Rightarrow> string \<Rightarrow> bool"
  assumes ct_eq_iff: "length a = length b \<Longrightarrow> ct_eq a b \<longleftrightarrow> a = b"
begin

lemma authorize_iff:
  "authorize ct_eq p provided = Inr () \<longleftrightarrow>
     (\<forall>expected. AuthPolicy.token p = Some expected \<longrightarrow> provided = Some expected)"
  by (auto simp: authorize_def ok_def ct_eq_iff split: option.splits if_splits)

lemma authorize_ingest_iff:
  "authorize_ingest ct_eq p provided = Inr () \<longleftrightarrow>
     (ingestion_is_protected p \<longrightarrow> provided = AuthPolicy.token p)"
  by (auto simp: authorize_ingest_def authorize_iff ingestion_is_protected_def)

lemma authorize_read_iff:
  "authorize_read ct_eq p provided = Inr () \<longleftrightarrow>
     (reads_are_protected p \<and> ingestion_is_protected p \<longrightarrow> provided = AuthPolicy.token p)"
  by (auto simp: authorize_read_def authorize_iff ingestion_is_protected_def reads_are_protected_def ok_def)

lemma authorize_refused:
  "AuthPolicy.token p = Some secret \<Longrightarrow> given \<noteq> Some secret \<Longrightarrow> authorize ct_eq p given = Inl AuthorizationError"
  by (auto simp: authorize_def ct_eq_iff ok_def split: option.splits)

lemma authorize_ingest_refused:
  "AuthPolicy.token p = Some secret \<Longrightarrow> given \<noteq> Some secret \<Longrightarrow> authorize_ingest ct_eq p given = Inl AuthorizationError"
  by (simp add: authorize_ingest_def authorize_refused)

lemma authorize_read_refused:
  "reads_are_protected p \<Longrightarrow> AuthPolicy.token p = Some secret \<Longrightarrow> given \<noteq> Some secret \<Longrightarrow>
   authorize_read ct_eq p given = Inl AuthorizationError"
  by (simp add: authorize_read_def reads_are_protected_def authorize_refused)

end

interpretation byte_eq: constant_time_eq "\<lambda>a b. list_all2 (=) a b"
  by unfold_locales (simp add: list.rel_eq)

lemma str_split_once_append:
  "d \<notin> set a \<Longrightarrow> str_split_once d (a @ d # b) = Some (a, b)"
  by (induction a) (auto simp: str_split_once_def)

lemma str_split_once_Some:
  assumes "str_split_once d s = Some (a, b)"
  shows "s = a @ d # b \<and> d \<notin> set a"
proof -
  from assms have "d \<in> set s" and ab: "a = takeWhile (\<lambda>c. c \<noteq> d) s" "b = tl (dropWhile (\<lambda>c. c \<noteq> d) s)"
    by (auto simp: str_split_once_def split: if_splits)
  then obtain r where "dropWhile (\<lambda>c. c \<noteq> d) s = d # r"
    by (metis (mono_tags, lifting) dropWhile_eq_Nil_conv hd_dropWhile list.collapse)
  with ab have "s = a @ d # b"
    by (metis list.sel(3) takeWhile_dropWhile_id)
  moreover have "d \<notin> set a"
    using ab(1) set_takeWhileD by fastforce
  ultimately show ?thesis ..
qed

lemma bearer_token_Some:
  "bearer_token h = Some t \<longleftrightarrow>
     (\<exists>scheme. h = Some (Some (scheme @ CHR '' '' # t)) \<and> CHR '' '' \<notin> set scheme \<and>
        str_lower scheme = ''bearer'' \<and> t \<noteq> [] \<and> \<not> list_ex is_ascii_whitespace t)"
proof
  assume "bearer_token h = Some t"
  then show "\<exists>scheme. h = Some (Some (scheme @ CHR '' '' # t)) \<and> CHR '' '' \<notin> set scheme \<and>
        str_lower scheme = ''bearer'' \<and> t \<noteq> [] \<and> \<not> list_ex is_ascii_whitespace t"
    by (auto simp: bearer_token_def dest!: str_split_once_Some split: option.splits if_splits prod.splits)
next
  assume "\<exists>scheme. h = Some (Some (scheme @ CHR '' '' # t)) \<and> CHR '' '' \<notin> set scheme \<and>
        str_lower scheme = ''bearer'' \<and> t \<noteq> [] \<and> \<not> list_ex is_ascii_whitespace t"
  then show "bearer_token h = Some t"
    by (auto simp: bearer_token_def str_split_once_append)
qed

end
