(* ===== verification/Lru.thy ===== *)
theory Lru
  imports Prelude
begin

text \<open>
  The interface of the third-party crate \<open>lru\<close>. Its code is not part of the repository, so a
  cache is a value of an arbitrary type \<open>'c\<close> and the operations the store calls are a record of
  functions over it. What the crate documents of them is the locale \<open>lru_cache\<close>, stated through
  \<open>iter\<close>, which visits the entries in most-recently-used order:

  \<^item> \<open>new\<close> reserves the memory for the given capacity. If that is possible it gives an empty cache of this
    capacity, otherwise it panics, which is \<open>None\<close>;
  \<^item> \<open>peek\<close> returns the value of a key and leaves the order unchanged;
  \<^item> \<open>get\<close> and \<open>get_mut\<close> return the value of a key and move the key to the head. A mutable
    reference is the value it points to with the function that gives the cache after a value is
    written through it;
  \<^item> \<open>push\<close> puts an entry at the head. It returns the old entry if the key was present, the
    least recently used entry if the cache was full, and nothing otherwise.

  \<open>list_lru\<close> is a list-based instance of the interface: it shows that the contract can be met
  and lets concrete runs of the store be evaluated.
\<close>

section \<open>The operations\<close>

record ('c, 'k, 'v) lru_api =
  lru_new :: "nat \<Rightarrow> 'c option"
  lru_cap :: "'c \<Rightarrow> nat"
  lru_len :: "'c \<Rightarrow> nat"
  lru_iter :: "'c \<Rightarrow> ('k \<times> 'v) list"
  lru_peek :: "'c \<Rightarrow> 'k \<Rightarrow> 'v option"
  lru_get :: "'c \<Rightarrow> 'k \<Rightarrow> 'v option \<times> 'c"
  lru_get_mut :: "'c \<Rightarrow> 'k \<Rightarrow> ('v \<times> ('v \<Rightarrow> 'c)) option"
  lru_push :: "'c \<Rightarrow> 'k \<Rightarrow> 'v \<Rightarrow> ('k \<times> 'v) option \<times> 'c"

text \<open>Entries other than those of key \<open>k\<close>.\<close>

abbreviation without :: "'k \<Rightarrow> ('k \<times> 'v) list \<Rightarrow> ('k \<times> 'v) list" where
  "without k es \<equiv> filter (\<lambda>e. fst e \<noteq> k) es"

definition lru_wf :: "('c, 'k, 'v) lru_api \<Rightarrow> 'c \<Rightarrow> bool" where
  "lru_wf L c \<longleftrightarrow> distinct (map fst (lru_iter L c)) \<and>
     length (lru_iter L c) \<le> lru_cap L c \<and> 0 < lru_cap L c"

section \<open>A list-based instance\<close>

type_synonym ('k, 'v) list_cache = "nat \<times> ('k \<times> 'v) list"

definition list_lru :: "(('k, 'v) list_cache, 'k, 'v) lru_api" where
  "list_lru =
    \<lparr>lru_new = (\<lambda>n. Some (n, [])),
     lru_cap = fst,
     lru_len = (\<lambda>c. length (snd c)),
     lru_iter = snd,
     lru_peek = (\<lambda>c k. map_of (snd c) k),
     lru_get = (\<lambda>c k. case map_of (snd c) k of
         None \<Rightarrow> (None, c)
       | Some v \<Rightarrow> (Some v, (fst c, (k, v) # without k (snd c)))),
     lru_get_mut = (\<lambda>c k. case map_of (snd c) k of
         None \<Rightarrow> None
       | Some v \<Rightarrow> Some (v, \<lambda>v'. (fst c, (k, v') # without k (snd c)))),
     lru_push = (\<lambda>c k v. case map_of (snd c) k of
         Some old \<Rightarrow> (Some (k, old), (fst c, (k, v) # without k (snd c)))
       | None \<Rightarrow> if length (snd c) < fst c then (None, (fst c, (k, v) # snd c))
                else (Some (last (snd c)), (fst c, (k, v) # butlast (snd c))))\<rparr>"

section \<open>The contract\<close>

locale lru_cache =
  fixes L :: "('c, 'k, 'v) lru_api"
  assumes iter_new: "lru_new L n = Some c \<Longrightarrow> lru_iter L c = []"
    and cap_new: "lru_new L n = Some c \<Longrightarrow> lru_cap L c = n"
    and len_iter: "lru_len L c = length (lru_iter L c)"
    and peek_iter: "lru_wf L c \<Longrightarrow> lru_peek L c k = map_of (lru_iter L c) k"
    and get_result: "lru_wf L c \<Longrightarrow> fst (lru_get L c k) = map_of (lru_iter L c) k"
    and get_moves: "lru_wf L c \<Longrightarrow> map_of (lru_iter L c) k = Some v \<Longrightarrow>
          lru_iter L (snd (lru_get L c k)) = (k, v) # without k (lru_iter L c)"
    and get_absent: "lru_wf L c \<Longrightarrow> map_of (lru_iter L c) k = None \<Longrightarrow>
          lru_iter L (snd (lru_get L c k)) = lru_iter L c"
    and cap_get: "lru_wf L c \<Longrightarrow> lru_cap L (snd (lru_get L c k)) = lru_cap L c"
    and get_mut_None: "lru_wf L c \<Longrightarrow> map_of (lru_iter L c) k = None \<Longrightarrow> lru_get_mut L c k = None"
    and get_mut_Some: "lru_wf L c \<Longrightarrow> map_of (lru_iter L c) k = Some v \<Longrightarrow>
          \<exists>w. lru_get_mut L c k = Some (v, w) \<and>
            (\<forall>v'. lru_iter L (w v') = (k, v') # without k (lru_iter L c) \<and> lru_cap L (w v') = lru_cap L c)"
    and push_present: "lru_wf L c \<Longrightarrow> map_of (lru_iter L c) k = Some old \<Longrightarrow>
          fst (lru_push L c k v) = Some (k, old) \<and>
          lru_iter L (snd (lru_push L c k v)) = (k, v) # without k (lru_iter L c)"
    and push_room: "lru_wf L c \<Longrightarrow> map_of (lru_iter L c) k = None \<Longrightarrow>
          length (lru_iter L c) < lru_cap L c \<Longrightarrow>
          fst (lru_push L c k v) = None \<and> lru_iter L (snd (lru_push L c k v)) = (k, v) # lru_iter L c"
    and push_full: "lru_wf L c \<Longrightarrow> map_of (lru_iter L c) k = None \<Longrightarrow>
          length (lru_iter L c) = lru_cap L c \<Longrightarrow>
          fst (lru_push L c k v) = Some (last (lru_iter L c)) \<and>
          lru_iter L (snd (lru_push L c k v)) = (k, v) # butlast (lru_iter L c)"
    and cap_push: "lru_wf L c \<Longrightarrow> lru_cap L (snd (lru_push L c k v)) = lru_cap L c"
begin

lemma wf_new: "0 < n \<Longrightarrow> lru_new L n = Some c \<Longrightarrow> lru_wf L c"
  by (simp add: lru_wf_def iter_new cap_new)

lemma length_without_less: "(k, v) \<in> set es \<Longrightarrow> length (without k es) < length es"
  by (rule length_filter_less) auto

lemma wf_front:
  assumes "lru_wf L c" and "map_of (lru_iter L c) k = Some v"
    and "lru_iter L c' = (k, v') # without k (lru_iter L c)" and "lru_cap L c' = lru_cap L c"
  shows "lru_wf L c'"
proof -
  have "(k, v) \<in> set (lru_iter L c)"
    using assms(2) by (rule map_of_SomeD)
  then have "length (without k (lru_iter L c)) < length (lru_iter L c)"
    by (rule length_without_less)
  moreover have "distinct (map fst (without k (lru_iter L c)))"
    using assms(1) by (simp add: lru_wf_def distinct_map_filter)
  ultimately show ?thesis
    using assms by (auto simp: lru_wf_def)
qed

lemma wf_get:
  assumes wf: "lru_wf L c"
  shows "lru_wf L (snd (lru_get L c k))"
proof (cases "map_of (lru_iter L c) k")
  case None
  with wf show ?thesis by (simp add: lru_wf_def get_absent [OF wf None] cap_get [OF wf])
next
  case (Some v)
  show ?thesis by (rule wf_front [OF wf Some get_moves [OF wf Some] cap_get [OF wf]])
qed

lemma wf_push:
  assumes wf: "lru_wf L c"
  shows "lru_wf L (snd (lru_push L c k v))"
proof (cases "map_of (lru_iter L c) k")
  case (Some old)
  with wf show ?thesis
    by (intro wf_front [OF wf Some]) (auto simp: push_present cap_push)
next
  case None
  then have absent: "k \<notin> fst ` set (lru_iter L c)"
    by (simp add: map_of_eq_None_iff)
  show ?thesis
  proof (cases "length (lru_iter L c) < lru_cap L c")
    case True
    with wf None absent show ?thesis
      by (auto simp: lru_wf_def push_room [OF wf None True] cap_push [OF wf])
  next
    case False
    with wf have full: "length (lru_iter L c) = lru_cap L c"
      by (simp add: lru_wf_def)
    have "k \<notin> fst ` set (butlast (lru_iter L c))"
      using absent in_set_butlastD by fastforce
    moreover have "distinct (map fst (butlast (lru_iter L c)))"
      using wf by (simp add: lru_wf_def map_butlast distinct_butlast)
    ultimately show ?thesis
      using wf full by (auto simp: lru_wf_def push_full [OF wf None full] cap_push [OF wf])
  qed
qed

lemma get_mutE:
  assumes "lru_wf L c" and "map_of (lru_iter L c) k = Some v"
  obtains w where "lru_get_mut L c k = Some (v, w)"
    and "\<And>v'. lru_iter L (w v') = (k, v') # without k (lru_iter L c)"
    and "\<And>v'. lru_cap L (w v') = lru_cap L c" and "\<And>v'. lru_wf L (w v')"
  using get_mut_Some [OF assms] wf_front [OF assms] by metis

lemma push_front: "lru_wf L c \<Longrightarrow> \<exists>rest. lru_iter L (snd (lru_push L c k v)) = (k, v) # rest"
  by (cases "map_of (lru_iter L c) k"; cases "length (lru_iter L c) < lru_cap L c")
    (auto simp: push_present push_room push_full lru_wf_def)

lemma push_found: "lru_wf L c \<Longrightarrow> map_of (lru_iter L (snd (lru_push L c k v))) k = Some v"
  by (cases "map_of (lru_iter L c) k"; cases "length (lru_iter L c) < lru_cap L c")
    (auto simp: push_present push_room push_full lru_wf_def)

end

lemma list_lru_contract: "lru_cache list_lru"
  by (rule lru_cache.intro) (auto simp: list_lru_def lru_wf_def split: option.splits)

interpretation list_lru: lru_cache list_lru
  by (rule list_lru_contract)

end
