(* ===== verification/Store.thy ===== *)
theory Store
  imports Model Lru Config
begin

text \<open>
  The bounded in-memory projection, \<open>src/store.rs\<close>: the six caches, the event reducer
  \<open>apply_event\<close> with one definition per event kind, and the operations of \<open>Store\<close>.

  The caches come from the crate \<open>lru\<close>; a record \<open>caches\<close> of the six interfaces is the first
  argument of every operation that touches them. Its last field says for which capacities the broadcast channel of
  \<open>tokio\<close> can be made. The read-write lock makes each operation of
  \<open>Store\<close> one atomic step, so an operation is a function from the state to its result and the
  new state. A clock reading is an argument. The broadcast channel of \<open>tokio\<close> appears as the
  update that \<open>ingest\<close> sends, if it sends one.
\<close>

section \<open>State\<close>

definition SNAPSHOT_EVENT_LIMIT :: nat where
  "SNAPSHOT_EVENT_LIMIT = 250"

record ScopedId =
  agent_id :: string
  entity_id :: string

definition scoped_id :: "string \<Rightarrow> string \<Rightarrow> ScopedId" where
  "scoped_id a e = \<lparr>ScopedId.agent_id = a, entity_id = e\<rparr>"

datatype TaskStatus = Pending | Running | Blocked | Succeeded | Failed | Canceled | Partial

record AgentState =
  agent :: AgentRef
  display_name :: string
  capabilities :: "string list"
  metadata :: "(string, string) BTreeMap"
  status :: AgentStatus
  session_id :: "string option"
  current_goal_id :: "string option"
  active_task_id :: "string option"
  registered_at :: DateTime
  last_seen_at :: DateTime
  completed_tasks :: u64
  failed_tasks :: u64
  latest_reflection :: "Reflection option"
  latest_error :: "ErrorObservation option"

record GoalState =
  goal :: Goal
  agent_id :: string
  declared_at :: DateTime

record TaskState =
  task :: TaskSpec
  agent_id :: string
  status :: TaskStatus
  progress :: f32
  attempt :: u32
  plan_summary :: "string option"
  progress_summary :: "string option"
  blocker :: "string option"
  next_action :: "string option"
  latest_reflection :: "Reflection option"
  outcome :: "TaskOutcome option"
  completion_summary :: "string option"
  artifacts :: "string list"
  inferred_from_out_of_order_event :: bool
  definition_updated_at :: DateTime
  created_at :: DateTime
  started_at :: "DateTime option"
  completed_at :: "DateTime option"
  updated_at :: DateTime

record LessonState =
  lesson :: Lesson
  agent_id :: string
  learned_at :: DateTime
  observations :: u64

record EventRecord =
  event :: EventEnvelope
  transport :: Transport
  received_at :: DateTime

record StoreUpdate =
  revision :: u64
  event_id :: Uuid
  kind :: string
  agent_id :: string
  task_id :: "string option"
  transport :: Transport
  received_at :: DateTime

record IngestAck =
  accepted :: bool
  duplicate :: bool
  event_id :: Uuid
  revision :: u64
  transport :: Transport
  received_at :: DateTime

record CacheStats =
  len :: nat
  capacity :: nat
  evictions :: u64
  pressure :: f64

record CacheSnapshot =
  agents :: CacheStats
  goals :: CacheStats
  tasks :: CacheStats
  lessons :: CacheStats
  events :: CacheStats
  idempotency :: CacheStats

record Counters =
  accepted :: u64
  duplicate :: u64
  rejected :: u64
  accepted_by_transport :: "(string, u64) BTreeMap"
  rejected_by_transport :: "(string, u64) BTreeMap"

record EvictionCounters =
  agents :: u64
  goals :: u64
  tasks :: u64
  lessons :: u64
  events :: u64
  idempotency :: u64

record Snapshot =
  generated_at :: DateTime
  started_at :: DateTime
  revision :: u64
  agents :: "AgentState list"
  goals :: "GoalState list"
  tasks :: "TaskState list"
  lessons :: "LessonState list"
  recent_events :: "EventRecord list"
  caches :: CacheSnapshot
  counters :: Counters

record ProjectionCounts =
  agents :: nat
  goals :: nat
  tasks :: nat
  lessons :: nat

record MetricsSnapshot =
  revision :: u64
  caches :: CacheSnapshot
  counters :: Counters
  projection :: ProjectionCounts

datatype CompletionBucket = Completed | Failed

datatype StoreError = Validation ValidationError

text \<open>The caches of \<open>StoreInner\<close> have the types \<open>'a\<close> to \<open>'i\<close>; the interfaces are given by \<open>caches\<close>.\<close>

record ('a, 'g, 't, 'l, 'e, 'i) StoreInner =
  agents :: 'a
  goals :: 'g
  tasks :: 't
  lessons :: 'l
  events :: 'e
  seen_event_ids :: 'i
  evictions :: EvictionCounters
  counters :: Counters
  revision :: u64
  started_at :: DateTime

record ('a, 'g, 't, 'l, 'e, 'i) caches =
  agents_lru :: "('a, string, AgentState) lru_api"
  goals_lru :: "('g, ScopedId, GoalState) lru_api"
  tasks_lru :: "('t, ScopedId, TaskState) lru_api"
  lessons_lru :: "('l, ScopedId, LessonState) lru_api"
  events_lru :: "('e, Uuid, EventRecord) lru_api"
  seen_lru :: "('i, Uuid, u64) lru_api"
  channel_fits :: "nat \<Rightarrow> bool"

type_synonym ('a, 'g, 't, 'l, 'e, 'i) reducer =
  "('a, 'g, 't, 'l, 'e, 'i) caches \<Rightarrow> EventEnvelope \<Rightarrow>
   ('a, 'g, 't, 'l, 'e, 'i) StoreInner \<Rightarrow> ('a, 'g, 't, 'l, 'e, 'i) StoreInner"

section \<open>Construction\<close>

definition eviction_counters_default :: EvictionCounters where
  "eviction_counters_default =
     \<lparr>EvictionCounters.agents = 0, goals = 0, tasks = 0, lessons = 0, events = 0, idempotency = 0\<rparr>"

definition counters_default :: Counters where
  "counters_default =
     \<lparr>Counters.accepted = 0, duplicate = 0, rejected = 0, accepted_by_transport = [],
      rejected_by_transport = []\<rparr>"

text \<open>\<open>new_cache\<close> panics on a capacity of zero and where \<open>LruCache::new\<close> does; a panic is \<open>None\<close>.\<close>

definition new_cache :: "('c, 'k, 'v) lru_api \<Rightarrow> nat \<Rightarrow> 'c option" where
  "new_cache L n = (if n = 0 then None else lru_new L n)"

text \<open>\<open>Store::new\<close>\<close>

definition store_new ::
  "('a, 'g, 't, 'l, 'e, 'i) caches \<Rightarrow> CacheConfig \<Rightarrow> DateTime \<Rightarrow> ('a, 'g, 't, 'l, 'e, 'i) StoreInner option" where
  "store_new E cache now =
     (case (new_cache (agents_lru E) (CacheConfig.agents cache),
            new_cache (goals_lru E) (CacheConfig.goals cache),
            new_cache (tasks_lru E) (CacheConfig.tasks cache),
            new_cache (lessons_lru E) (CacheConfig.lessons cache),
            new_cache (events_lru E) (CacheConfig.events cache),
            new_cache (seen_lru E) (CacheConfig.idempotency cache)) of
        (Some a, Some g, Some t, Some l, Some e, Some i) \<Rightarrow>
          Some \<lparr>StoreInner.agents = a, goals = g, tasks = t, lessons = l, events = e,
                seen_event_ids = i, evictions = eviction_counters_default,
                counters = counters_default, revision = 0, started_at = now\<rparr>
      | _ \<Rightarrow> None)"

section \<open>Cache helpers\<close>

definition push_with_eviction ::
  "('c, 'k, 'v) lru_api \<Rightarrow> 'c \<Rightarrow> 'k \<Rightarrow> 'v \<Rightarrow> 'v option \<times> 'c" where
  "push_with_eviction L c k v =
     (let existed = (lru_peek L c k \<noteq> None);
          (displaced, c') = lru_push L c k v
      in (if existed then None else map_option snd displaced, c'))"

text \<open>\<open>if let Some(agent) = inner.agents.get_mut(id) { ... }\<close> with the body \<open>f\<close>.\<close>

definition modify_agent ::
  "('a, 'g, 't, 'l, 'e, 'i) caches \<Rightarrow> string \<Rightarrow> (AgentState \<Rightarrow> AgentState) \<Rightarrow>
   ('a, 'g, 't, 'l, 'e, 'i) StoreInner \<Rightarrow> ('a, 'g, 't, 'l, 'e, 'i) StoreInner" where
  "modify_agent E a f s =
     (case lru_get_mut (agents_lru E) (StoreInner.agents s) a of
        None \<Rightarrow> s
      | Some (st, w) \<Rightarrow> s\<lparr>StoreInner.agents := w (f st)\<rparr>)"

text \<open>
  \<open>if let Some(task) = inner.tasks.get_mut(&task_key) && envelope.occurred_at >= task.updated_at\<close>
  with the body \<open>f\<close>: the result is the outcome the task had before, or \<open>None\<close> if the body
  did not run. The lookup moves the task to the head of the cache in either case.
\<close>

definition modify_task ::
  "('a, 'g, 't, 'l, 'e, 'i) caches \<Rightarrow> ScopedId \<Rightarrow> DateTime \<Rightarrow> (TaskState \<Rightarrow> TaskState) \<Rightarrow>
   ('a, 'g, 't, 'l, 'e, 'i) StoreInner \<Rightarrow>
   TaskOutcome option option \<times> ('a, 'g, 't, 'l, 'e, 'i) StoreInner" where
  "modify_task E k occurred f s =
     (case lru_get_mut (tasks_lru E) (StoreInner.tasks s) k of
        None \<Rightarrow> (None, s)
      | Some (t, w) \<Rightarrow>
          if TaskState.updated_at t \<le> occurred
          then (Some (TaskState.outcome t), s\<lparr>StoreInner.tasks := w (f t)\<rparr>)
          else (None, s\<lparr>StoreInner.tasks := w t\<rparr>))"

section \<open>Completion counters\<close>

fun completion_bucket :: "TaskOutcome \<Rightarrow> CompletionBucket" where
  "completion_bucket TaskOutcome.Succeeded = CompletionBucket.Completed"
| "completion_bucket TaskOutcome.Partial = CompletionBucket.Completed"
| "completion_bucket TaskOutcome.Failed = CompletionBucket.Failed"
| "completion_bucket TaskOutcome.Canceled = CompletionBucket.Failed"

definition remove_completion_counter :: "TaskOutcome option \<Rightarrow> AgentState \<Rightarrow> AgentState" where
  "remove_completion_counter previous a =
     (case map_option completion_bucket previous of
        Some CompletionBucket.Completed \<Rightarrow> a\<lparr>completed_tasks := sat_sub (completed_tasks a) 1\<rparr>
      | Some CompletionBucket.Failed \<Rightarrow> a\<lparr>failed_tasks := sat_sub (failed_tasks a) 1\<rparr>
      | None \<Rightarrow> a)"

definition reconcile_completion_counters ::
  "TaskOutcome option \<Rightarrow> TaskOutcome \<Rightarrow> AgentState \<Rightarrow> AgentState" where
  "reconcile_completion_counters previous current a =
     (let previous_bucket = map_option completion_bucket previous;
          current_bucket = completion_bucket current;
          a1 = (if previous_bucket \<noteq> Some current_bucket then
                  (let a0 = remove_completion_counter previous a in
                   case current_bucket of
                     CompletionBucket.Completed \<Rightarrow> a0\<lparr>completed_tasks := sat_add (completed_tasks a0) 1\<rparr>
                   | CompletionBucket.Failed \<Rightarrow> a0\<lparr>failed_tasks := sat_add (failed_tasks a0) 1\<rparr>)
                else a)
      in a1\<lparr>AgentState.status :=
           (case current_bucket of
              CompletionBucket.Completed \<Rightarrow> AgentStatus.Completed
            | CompletionBucket.Failed \<Rightarrow> AgentStatus.Failed)\<rparr>)"

definition count_step :: "TaskState \<Rightarrow> u64 \<times> u64 \<Rightarrow> u64 \<times> u64" where
  "count_step t acc =
     (case map_option completion_bucket (TaskState.outcome t) of
        Some CompletionBucket.Completed \<Rightarrow> (sat_add (fst acc) 1, snd acc)
      | Some CompletionBucket.Failed \<Rightarrow> (fst acc, sat_add (snd acc) 1)
      | None \<Rightarrow> acc)"

definition task_counts ::
  "('a, 'g, 't, 'l, 'e, 'i) caches \<Rightarrow> ('a, 'g, 't, 'l, 'e, 'i) StoreInner \<Rightarrow> string \<Rightarrow> u64 \<times> u64" where
  "task_counts E s a =
     fold count_step
       (filter (\<lambda>t. TaskState.agent_id t = a) (map snd (lru_iter (tasks_lru E) (StoreInner.tasks s))))
       (0, 0)"

section \<open>Insertion of agents and tasks\<close>

definition bump :: "bool \<Rightarrow> u64 \<Rightarrow> u64" where
  "bump b n = (if b then sat_add n 1 else n)"

definition ensure_agent :: "('a, 'g, 't, 'l, 'e, 'i) reducer" where
  "ensure_agent E envelope s =
     (let key = AgentRef.agent_id (EventEnvelope.agent envelope) in
      if lru_peek (agents_lru E) (StoreInner.agents s) key \<noteq> None then s
      else
        (let (completed, failed) = task_counts E s key;
             state = \<lparr>AgentState.agent = EventEnvelope.agent envelope,
                      display_name = AgentRef.agent_id (EventEnvelope.agent envelope),
                      capabilities = [], metadata = [], status = AgentStatus.Idle,
                      session_id = EventEnvelope.session_id envelope,
                      current_goal_id = None, active_task_id = None,
                      registered_at = EventEnvelope.occurred_at envelope,
                      last_seen_at = EventEnvelope.occurred_at envelope,
                      completed_tasks = completed, failed_tasks = failed,
                      latest_reflection = None, latest_error = None\<rparr>;
             (displaced, c) = push_with_eviction (agents_lru E) (StoreInner.agents s) key state
         in s\<lparr>StoreInner.agents := c,
              StoreInner.evictions := (StoreInner.evictions s)
                \<lparr>EvictionCounters.agents := bump (displaced \<noteq> None) (EvictionCounters.agents (StoreInner.evictions s))\<rparr>\<rparr>))"

definition task_from_spec :: "TaskSpec \<Rightarrow> string \<Rightarrow> DateTime \<Rightarrow> bool \<Rightarrow> TaskState" where
  "task_from_spec spec a occurred inferred =
     \<lparr>TaskState.task = spec, agent_id = a, status = TaskStatus.Pending, progress = f32_zero,
      attempt = 0, plan_summary = None, progress_summary = None, blocker = None,
      next_action = None, latest_reflection = None, outcome = None, completion_summary = None,
      artifacts = [], inferred_from_out_of_order_event = inferred,
      definition_updated_at = occurred, created_at = occurred, started_at = None,
      completed_at = None, updated_at = occurred\<rparr>"

definition insert_task ::
  "('a, 'g, 't, 'l, 'e, 'i) caches \<Rightarrow> ScopedId \<Rightarrow> TaskState \<Rightarrow>
   ('a, 'g, 't, 'l, 'e, 'i) StoreInner \<Rightarrow> ('a, 'g, 't, 'l, 'e, 'i) StoreInner" where
  "insert_task E key state s =
     (case push_with_eviction (tasks_lru E) (StoreInner.tasks s) key state of
        (None, c) \<Rightarrow> s\<lparr>StoreInner.tasks := c\<rparr>
      | (Some evicted, c) \<Rightarrow>
          modify_agent E (TaskState.agent_id evicted) (remove_completion_counter (TaskState.outcome evicted))
            (s\<lparr>StoreInner.tasks := c,
               StoreInner.evictions := (StoreInner.evictions s)
                 \<lparr>EvictionCounters.tasks := sat_add (EvictionCounters.tasks (StoreInner.evictions s)) 1\<rparr>\<rparr>))"

definition inferred_spec :: "string \<Rightarrow> TaskSpec" where
  "inferred_spec tid =
     \<lparr>TaskSpec.task_id = tid, title = ''Task '' @ tid, goal_id = None, depends_on = [],
      tags = [''inferred''], expected_outcome = None\<rparr>"

definition ensure_task ::
  "('a, 'g, 't, 'l, 'e, 'i) caches \<Rightarrow> string \<Rightarrow> string \<Rightarrow> DateTime \<Rightarrow>
   ('a, 'g, 't, 'l, 'e, 'i) StoreInner \<Rightarrow> ('a, 'g, 't, 'l, 'e, 'i) StoreInner" where
  "ensure_task E tid a occurred s =
     (if lru_peek (tasks_lru E) (StoreInner.tasks s) (scoped_id a tid) \<noteq> None then s
      else insert_task E (scoped_id a tid) (task_from_spec (inferred_spec tid) a occurred True) s)"

section \<open>The event reducer\<close>

text \<open>Every event first refreshes its agent.\<close>

definition touch_agent :: "EventEnvelope \<Rightarrow> AgentState \<Rightarrow> AgentState" where
  "touch_agent envelope a =
     (let a1 = a\<lparr>AgentState.agent := EventEnvelope.agent envelope,
                 last_seen_at := max (last_seen_at a) (EventEnvelope.occurred_at envelope)\<rparr>
      in if EventEnvelope.session_id envelope \<noteq> None
         then a1\<lparr>AgentState.session_id := EventEnvelope.session_id envelope\<rparr> else a1)"

abbreviation envelope_agent :: "EventEnvelope \<Rightarrow> string" where
  "envelope_agent e \<equiv> AgentRef.agent_id (EventEnvelope.agent e)"

definition apply_registered ::
  "('a, 'g, 't, 'l, 'e, 'i) caches \<Rightarrow> EventEnvelope \<Rightarrow> AgentRegistration \<Rightarrow>
   ('a, 'g, 't, 'l, 'e, 'i) StoreInner \<Rightarrow> ('a, 'g, 't, 'l, 'e, 'i) StoreInner" where
  "apply_registered E envelope registration s =
     modify_agent E (envelope_agent envelope) (\<lambda>a.
       a\<lparr>AgentState.display_name := AgentRegistration.display_name registration,
         AgentState.capabilities := AgentRegistration.capabilities registration,
         AgentState.metadata := AgentRegistration.metadata registration,
         AgentState.status := (if AgentState.status a = AgentStatus.Idle
           then AgentRegistration.status registration else AgentState.status a),
         registered_at := min (registered_at a) (EventEnvelope.occurred_at envelope)\<rparr>) s"

definition apply_heartbeat ::
  "('a, 'g, 't, 'l, 'e, 'i) caches \<Rightarrow> EventEnvelope \<Rightarrow> HeartbeatData \<Rightarrow>
   ('a, 'g, 't, 'l, 'e, 'i) StoreInner \<Rightarrow> ('a, 'g, 't, 'l, 'e, 'i) StoreInner" where
  "apply_heartbeat E envelope heartbeat s =
     modify_agent E (envelope_agent envelope) (\<lambda>a.
       a\<lparr>AgentState.status := (case HeartbeatData.status heartbeat of
            Some st \<Rightarrow> st | None \<Rightarrow> AgentState.status a),
         AgentState.active_task_id := (if HeartbeatData.active_task_id heartbeat \<noteq> None
            then HeartbeatData.active_task_id heartbeat else AgentState.active_task_id a)\<rparr>) s"

definition apply_goal ::
  "('a, 'g, 't, 'l, 'e, 'i) caches \<Rightarrow> EventEnvelope \<Rightarrow> Goal \<Rightarrow>
   ('a, 'g, 't, 'l, 'e, 'i) StoreInner \<Rightarrow> ('a, 'g, 't, 'l, 'e, 'i) StoreInner" where
  "apply_goal E envelope g s =
     (let goal_key = scoped_id (envelope_agent envelope) (Goal.goal_id g);
          goal_state = \<lparr>GoalState.goal = g, agent_id = envelope_agent envelope,
                        declared_at = EventEnvelope.occurred_at envelope\<rparr>;
          (displaced, c) = push_with_eviction (goals_lru E) (StoreInner.goals s) goal_key goal_state
      in modify_agent E (envelope_agent envelope) (\<lambda>a.
           a\<lparr>current_goal_id := Some (Goal.goal_id g),
             AgentState.status := (if AgentState.status a \<in> {AgentStatus.Idle, AgentStatus.Planning}
               then AgentStatus.Planning else AgentState.status a)\<rparr>)
         (s\<lparr>StoreInner.goals := c,
            StoreInner.evictions := (StoreInner.evictions s)
              \<lparr>EvictionCounters.goals := bump (displaced \<noteq> None) (EvictionCounters.goals (StoreInner.evictions s))\<rparr>\<rparr>))"

definition redefine_task :: "EventEnvelope \<Rightarrow> TaskSpec \<Rightarrow> TaskState \<Rightarrow> TaskState" where
  "redefine_task envelope spec t =
     (if inferred_from_out_of_order_event t \<or> definition_updated_at t \<le> EventEnvelope.occurred_at envelope
      then t\<lparr>TaskState.task := spec,
             TaskState.agent_id := envelope_agent envelope,
             inferred_from_out_of_order_event := False,
             definition_updated_at := EventEnvelope.occurred_at envelope,
             created_at := min (created_at t) (EventEnvelope.occurred_at envelope),
             updated_at := max (updated_at t) (EventEnvelope.occurred_at envelope)\<rparr>
      else t)"

definition apply_task_created ::
  "('a, 'g, 't, 'l, 'e, 'i) caches \<Rightarrow> EventEnvelope \<Rightarrow> TaskSpec \<Rightarrow>
   ('a, 'g, 't, 'l, 'e, 'i) StoreInner \<Rightarrow> ('a, 'g, 't, 'l, 'e, 'i) StoreInner" where
  "apply_task_created E envelope spec s =
     (let task_key = scoped_id (envelope_agent envelope) (TaskSpec.task_id spec) in
      case lru_get_mut (tasks_lru E) (StoreInner.tasks s) task_key of
        Some (existing, w) \<Rightarrow> s\<lparr>StoreInner.tasks := w (redefine_task envelope spec existing)\<rparr>
      | None \<Rightarrow> insert_task E task_key
          (task_from_spec spec (envelope_agent envelope) (EventEnvelope.occurred_at envelope) False) s)"

definition start_task :: "EventEnvelope \<Rightarrow> TaskStartedData \<Rightarrow> TaskState \<Rightarrow> TaskState" where
  "start_task envelope started t =
     t\<lparr>TaskState.outcome := None,
       TaskState.status := TaskStatus.Running,
       TaskState.attempt := TaskStartedData.attempt started,
       TaskState.plan_summary := TaskStartedData.plan_summary started,
       TaskState.blocker := None,
       completion_summary := None,
       TaskState.artifacts := [],
       completed_at := None,
       TaskState.started_at := Some (EventEnvelope.occurred_at envelope),
       updated_at := EventEnvelope.occurred_at envelope\<rparr>"

definition apply_task_started ::
  "('a, 'g, 't, 'l, 'e, 'i) caches \<Rightarrow> EventEnvelope \<Rightarrow> TaskStartedData \<Rightarrow>
   ('a, 'g, 't, 'l, 'e, 'i) StoreInner \<Rightarrow> ('a, 'g, 't, 'l, 'e, 'i) StoreInner" where
  "apply_task_started E envelope started s =
     (let a = envelope_agent envelope; tid = TaskStartedData.task_id started;
          s1 = ensure_task E tid a (EventEnvelope.occurred_at envelope) s
      in case modify_task E (scoped_id a tid) (EventEnvelope.occurred_at envelope)
               (start_task envelope started) s1 of
           (None, s2) \<Rightarrow> s2
         | (Some previous, s2) \<Rightarrow> modify_agent E a (\<lambda>st.
             (remove_completion_counter previous st)
               \<lparr>AgentState.status := AgentStatus.Running, AgentState.active_task_id := Some tid\<rparr>) s2)"

definition progress_task :: "EventEnvelope \<Rightarrow> ProgressUpdate \<Rightarrow> TaskState \<Rightarrow> TaskState" where
  "progress_task envelope p t =
     t\<lparr>TaskState.outcome := None,
       TaskState.progress := ProgressUpdate.progress p,
       progress_summary := Some (ProgressUpdate.summary p),
       TaskState.blocker := ProgressUpdate.blocker p,
       TaskState.next_action := ProgressUpdate.next_action p,
       TaskState.status := (if ProgressUpdate.blocker p \<noteq> None then TaskStatus.Blocked else TaskStatus.Running),
       completion_summary := None,
       TaskState.artifacts := [],
       completed_at := None,
       updated_at := EventEnvelope.occurred_at envelope\<rparr>"

definition apply_progress ::
  "('a, 'g, 't, 'l, 'e, 'i) caches \<Rightarrow> EventEnvelope \<Rightarrow> ProgressUpdate \<Rightarrow>
   ('a, 'g, 't, 'l, 'e, 'i) StoreInner \<Rightarrow> ('a, 'g, 't, 'l, 'e, 'i) StoreInner" where
  "apply_progress E envelope p s =
     (let a = envelope_agent envelope; tid = ProgressUpdate.task_id p;
          s1 = ensure_task E tid a (EventEnvelope.occurred_at envelope) s
      in case modify_task E (scoped_id a tid) (EventEnvelope.occurred_at envelope)
               (progress_task envelope p) s1 of
           (None, s2) \<Rightarrow> s2
         | (Some previous, s2) \<Rightarrow> modify_agent E a (\<lambda>st.
             (remove_completion_counter previous st)
               \<lparr>AgentState.status := (if ProgressUpdate.blocker p \<noteq> None
                   then AgentStatus.Blocked else AgentStatus.Running),
                AgentState.active_task_id := Some tid\<rparr>) s2)"

definition reflect_task :: "EventEnvelope \<Rightarrow> Reflection \<Rightarrow> TaskState \<Rightarrow> TaskState" where
  "reflect_task envelope r t =
     t\<lparr>TaskState.latest_reflection := Some r,
       TaskState.next_action := Reflection.next_action r,
       updated_at := EventEnvelope.occurred_at envelope\<rparr>"

definition apply_reflection ::
  "('a, 'g, 't, 'l, 'e, 'i) caches \<Rightarrow> EventEnvelope \<Rightarrow> Reflection \<Rightarrow>
   ('a, 'g, 't, 'l, 'e, 'i) StoreInner \<Rightarrow> ('a, 'g, 't, 'l, 'e, 'i) StoreInner" where
  "apply_reflection E envelope r s =
     (let a = envelope_agent envelope;
          s1 = (case Reflection.task_id r of
                  None \<Rightarrow> s
                | Some tid \<Rightarrow>
                    snd (modify_task E (scoped_id a tid) (EventEnvelope.occurred_at envelope)
                      (reflect_task envelope r) (ensure_task E tid a (EventEnvelope.occurred_at envelope) s)))
      in modify_agent E a (\<lambda>st. st\<lparr>AgentState.latest_reflection := Some r\<rparr>) s1)"

definition apply_lesson ::
  "('a, 'g, 't, 'l, 'e, 'i) caches \<Rightarrow> EventEnvelope \<Rightarrow> Lesson \<Rightarrow>
   ('a, 'g, 't, 'l, 'e, 'i) StoreInner \<Rightarrow> ('a, 'g, 't, 'l, 'e, 'i) StoreInner" where
  "apply_lesson E envelope l s =
     (let lesson_key = scoped_id (envelope_agent envelope) (Lesson.lesson_id l);
          seen = (case lru_peek (lessons_lru E) (StoreInner.lessons s) lesson_key of
                    None \<Rightarrow> 1 | Some st \<Rightarrow> sat_add (observations st) 1);
          lesson_state = \<lparr>LessonState.lesson = l, agent_id = envelope_agent envelope,
                          learned_at = EventEnvelope.occurred_at envelope, observations = seen\<rparr>;
          (displaced, c) = push_with_eviction (lessons_lru E) (StoreInner.lessons s) lesson_key lesson_state
      in s\<lparr>StoreInner.lessons := c,
           StoreInner.evictions := (StoreInner.evictions s)
             \<lparr>EvictionCounters.lessons := bump (displaced \<noteq> None) (EvictionCounters.lessons (StoreInner.evictions s))\<rparr>\<rparr>)"

definition block_task :: "EventEnvelope \<Rightarrow> ErrorObservation \<Rightarrow> TaskState \<Rightarrow> TaskState" where
  "block_task envelope err t =
     t\<lparr>TaskState.blocker := Some (ErrorObservation.message err),
       TaskState.next_action := ErrorObservation.proposed_recovery err,
       TaskState.status := TaskStatus.Blocked,
       updated_at := EventEnvelope.occurred_at envelope\<rparr>"

definition apply_error ::
  "('a, 'g, 't, 'l, 'e, 'i) caches \<Rightarrow> EventEnvelope \<Rightarrow> ErrorObservation \<Rightarrow>
   ('a, 'g, 't, 'l, 'e, 'i) StoreInner \<Rightarrow> ('a, 'g, 't, 'l, 'e, 'i) StoreInner" where
  "apply_error E envelope err s =
     (let a = envelope_agent envelope;
          s1 = (case ErrorObservation.task_id err of
                  None \<Rightarrow> s
                | Some tid \<Rightarrow>
                    snd (modify_task E (scoped_id a tid) (EventEnvelope.occurred_at envelope)
                      (block_task envelope err) (ensure_task E tid a (EventEnvelope.occurred_at envelope) s)))
      in modify_agent E a (\<lambda>st. st\<lparr>latest_error := Some err, AgentState.status := AgentStatus.Blocked\<rparr>) s1)"

fun outcome_status :: "TaskOutcome \<Rightarrow> TaskStatus" where
  "outcome_status TaskOutcome.Succeeded = TaskStatus.Succeeded"
| "outcome_status TaskOutcome.Failed = TaskStatus.Failed"
| "outcome_status TaskOutcome.Canceled = TaskStatus.Canceled"
| "outcome_status TaskOutcome.Partial = TaskStatus.Partial"

definition complete_task :: "EventEnvelope \<Rightarrow> TaskCompletedData \<Rightarrow> TaskState \<Rightarrow> TaskState" where
  "complete_task envelope c t =
     t\<lparr>TaskState.status := outcome_status (TaskCompletedData.outcome c),
       TaskState.progress := (if TaskCompletedData.outcome c = TaskOutcome.Succeeded
         then f32_one else TaskState.progress t),
       TaskState.outcome := Some (TaskCompletedData.outcome c),
       completion_summary := Some (TaskCompletedData.summary c),
       TaskState.artifacts := TaskCompletedData.artifacts c,
       TaskState.blocker := None,
       completed_at := Some (EventEnvelope.occurred_at envelope),
       updated_at := EventEnvelope.occurred_at envelope\<rparr>"

definition apply_completed ::
  "('a, 'g, 't, 'l, 'e, 'i) caches \<Rightarrow> EventEnvelope \<Rightarrow> TaskCompletedData \<Rightarrow>
   ('a, 'g, 't, 'l, 'e, 'i) StoreInner \<Rightarrow> ('a, 'g, 't, 'l, 'e, 'i) StoreInner" where
  "apply_completed E envelope c s =
     (let a = envelope_agent envelope; tid = TaskCompletedData.task_id c;
          s1 = ensure_task E tid a (EventEnvelope.occurred_at envelope) s
      in case modify_task E (scoped_id a tid) (EventEnvelope.occurred_at envelope)
               (complete_task envelope c) s1 of
           (None, s2) \<Rightarrow> s2
         | (Some previous, s2) \<Rightarrow> modify_agent E a (\<lambda>st.
             reconcile_completion_counters previous (TaskCompletedData.outcome c)
               (st\<lparr>AgentState.active_task_id := None\<rparr>)) s2)"

definition apply_status ::
  "('a, 'g, 't, 'l, 'e, 'i) caches \<Rightarrow> EventEnvelope \<Rightarrow> StatusChange \<Rightarrow>
   ('a, 'g, 't, 'l, 'e, 'i) StoreInner \<Rightarrow> ('a, 'g, 't, 'l, 'e, 'i) StoreInner" where
  "apply_status E envelope change s =
     modify_agent E (envelope_agent envelope) (\<lambda>a. a\<lparr>AgentState.status := StatusChange.status change\<rparr>) s"

definition apply_event :: "('a, 'g, 't, 'l, 'e, 'i) reducer" where
  "apply_event E envelope s =
     (let s1 = modify_agent E (envelope_agent envelope) (touch_agent envelope) (ensure_agent E envelope s)
      in case EventEnvelope.event envelope of
           AgentRegistered v \<Rightarrow> apply_registered E envelope v s1
         | Heartbeat v \<Rightarrow> apply_heartbeat E envelope v s1
         | GoalDeclared v \<Rightarrow> apply_goal E envelope v s1
         | TaskCreated v \<Rightarrow> apply_task_created E envelope v s1
         | TaskStarted v \<Rightarrow> apply_task_started E envelope v s1
         | ProgressUpdated v \<Rightarrow> apply_progress E envelope v s1
         | ReflectionRecorded v \<Rightarrow> apply_reflection E envelope v s1
         | LessonLearned v \<Rightarrow> apply_lesson E envelope v s1
         | ErrorObserved v \<Rightarrow> apply_error E envelope v s1
         | TaskCompleted v \<Rightarrow> apply_completed E envelope v s1
         | AgentStatusChanged v \<Rightarrow> apply_status E envelope v s1)"

section \<open>Operations of the store\<close>

text \<open>The increments of the per-transport counters are plain additions, which wrap in a release build.\<close>

definition record_rejection ::
  "Transport \<Rightarrow> ('a, 'g, 't, 'l, 'e, 'i) StoreInner \<Rightarrow> ('a, 'g, 't, 'l, 'e, 'i) StoreInner" where
  "record_rejection via s =
     s\<lparr>StoreInner.counters := (StoreInner.counters s)
         \<lparr>rejected := sat_add (rejected (StoreInner.counters s)) 1,
          rejected_by_transport := bt_update (transport_as_str via) 0 (\<lambda>n. n + 1)
            (rejected_by_transport (StoreInner.counters s))\<rparr>\<rparr>"

definition ingest_duplicate ::
  "EventEnvelope \<Rightarrow> Transport \<Rightarrow> DateTime \<Rightarrow> ('a, 'g, 't, 'l, 'e, 'i) StoreInner \<Rightarrow>
   IngestAck \<times> ('a, 'g, 't, 'l, 'e, 'i) StoreInner" where
  "ingest_duplicate ev via now s =
     (\<lparr>IngestAck.accepted = True, duplicate = True, event_id = EventEnvelope.event_id ev,
       revision = StoreInner.revision s, transport = via, received_at = now\<rparr>,
      s\<lparr>StoreInner.counters := (StoreInner.counters s)
          \<lparr>Counters.duplicate := sat_add (Counters.duplicate (StoreInner.counters s)) 1\<rparr>\<rparr>)"

definition ingest_new ::
  "('a, 'g, 't, 'l, 'e, 'i) caches \<Rightarrow> EventEnvelope \<Rightarrow> Transport \<Rightarrow> DateTime \<Rightarrow>
   ('a, 'g, 't, 'l, 'e, 'i) StoreInner \<Rightarrow>
   IngestAck \<times> StoreUpdate \<times> ('a, 'g, 't, 'l, 'e, 'i) StoreInner" where
  "ingest_new E ev via now s =
     (let s1 = apply_event E ev s;
          rev = sat_add (StoreInner.revision s1) 1;
          s2 = s1\<lparr>StoreInner.revision := rev,
                  StoreInner.counters := (StoreInner.counters s1)
                    \<lparr>Counters.accepted := sat_add (Counters.accepted (StoreInner.counters s1)) 1,
                     accepted_by_transport := bt_update (transport_as_str via) 0 (\<lambda>n. n + 1)
                       (accepted_by_transport (StoreInner.counters s1))\<rparr>\<rparr>;
          (d1, seen) = push_with_eviction (seen_lru E) (seen_event_ids s2) (EventEnvelope.event_id ev) rev;
          s3 = s2\<lparr>seen_event_ids := seen,
                  StoreInner.evictions := (StoreInner.evictions s2)
                    \<lparr>EvictionCounters.idempotency :=
                       bump (d1 \<noteq> None) (EvictionCounters.idempotency (StoreInner.evictions s2))\<rparr>\<rparr>;
          update = \<lparr>StoreUpdate.revision = rev, event_id = EventEnvelope.event_id ev,
                    kind = event_kind (EventEnvelope.event ev), agent_id = envelope_agent ev,
                    task_id = event_task_id (EventEnvelope.event ev), transport = via, received_at = now\<rparr>;
          entry = \<lparr>EventRecord.event = ev, transport = via, received_at = now\<rparr>;
          (d2, evs) = push_with_eviction (events_lru E) (StoreInner.events s3) (EventEnvelope.event_id ev) entry;
          s4 = s3\<lparr>StoreInner.events := evs,
                  StoreInner.evictions := (StoreInner.evictions s3)
                    \<lparr>EvictionCounters.events :=
                       bump (d2 \<noteq> None) (EvictionCounters.events (StoreInner.evictions s3))\<rparr>\<rparr>
      in (\<lparr>IngestAck.accepted = True, duplicate = False, event_id = EventEnvelope.event_id ev,
           revision = rev, transport = via, received_at = now\<rparr>, update, s4))"

text \<open>
  \<open>Store::ingest\<close>: the acknowledgement or the error, the update sent to subscribers, and the
  new state. Looking an identifier up in the idempotency cache refreshes it.
\<close>

definition ingest ::
  "('a, 'g, 't, 'l, 'e, 'i) caches \<Rightarrow> EventEnvelope \<Rightarrow> Transport \<Rightarrow> DateTime \<Rightarrow>
   ('a, 'g, 't, 'l, 'e, 'i) StoreInner \<Rightarrow>
   (StoreError + IngestAck) \<times> StoreUpdate option \<times> ('a, 'g, 't, 'l, 'e, 'i) StoreInner" where
  "ingest E ev via now s =
     (case validate_envelope ev of
        Inl err \<Rightarrow> (Inl (Validation err), None, record_rejection via s)
      | Inr _ \<Rightarrow>
        (let (known, seen) = lru_get (seen_lru E) (seen_event_ids s) (EventEnvelope.event_id ev);
             s0 = s\<lparr>seen_event_ids := seen\<rparr>
         in if known \<noteq> None
            then (let (ack, s1) = ingest_duplicate ev via now s0 in (Inr ack, None, s1))
            else (let (ack, update, s1) = ingest_new E ev via now s0 in (Inr ack, Some update, s1))))"

definition cache_stats :: "('c, 'k, 'v) lru_api \<Rightarrow> 'c \<Rightarrow> u64 \<Rightarrow> CacheStats" where
  "cache_stats L c ev =
     \<lparr>CacheStats.len = lru_len L c, capacity = lru_cap L c, evictions = ev,
      pressure = f64_div (f64_of_nat (lru_len L c)) (f64_of_nat (lru_cap L c))\<rparr>"

definition cache_snapshot ::
  "('a, 'g, 't, 'l, 'e, 'i) caches \<Rightarrow> ('a, 'g, 't, 'l, 'e, 'i) StoreInner \<Rightarrow> CacheSnapshot" where
  "cache_snapshot E s =
     \<lparr>CacheSnapshot.agents =
        cache_stats (agents_lru E) (StoreInner.agents s) (EvictionCounters.agents (StoreInner.evictions s)),
      goals = cache_stats (goals_lru E) (StoreInner.goals s) (EvictionCounters.goals (StoreInner.evictions s)),
      tasks = cache_stats (tasks_lru E) (StoreInner.tasks s) (EvictionCounters.tasks (StoreInner.evictions s)),
      lessons = cache_stats (lessons_lru E) (StoreInner.lessons s) (EvictionCounters.lessons (StoreInner.evictions s)),
      events = cache_stats (events_lru E) (StoreInner.events s) (EvictionCounters.events (StoreInner.evictions s)),
      idempotency = cache_stats (seen_lru E) (seen_event_ids s)
        (EvictionCounters.idempotency (StoreInner.evictions s))\<rparr>"

definition snapshot ::
  "('a, 'g, 't, 'l, 'e, 'i) caches \<Rightarrow> DateTime \<Rightarrow> ('a, 'g, 't, 'l, 'e, 'i) StoreInner \<Rightarrow> Snapshot" where
  "snapshot E now s =
     \<lparr>Snapshot.generated_at = now, started_at = StoreInner.started_at s, revision = StoreInner.revision s,
      agents = map snd (lru_iter (agents_lru E) (StoreInner.agents s)),
      goals = map snd (lru_iter (goals_lru E) (StoreInner.goals s)),
      tasks = map snd (lru_iter (tasks_lru E) (StoreInner.tasks s)),
      lessons = map snd (lru_iter (lessons_lru E) (StoreInner.lessons s)),
      recent_events = map snd (take SNAPSHOT_EVENT_LIMIT (lru_iter (events_lru E) (StoreInner.events s))),
      caches = cache_snapshot E s, counters = StoreInner.counters s\<rparr>"

definition store_revision :: "('a, 'g, 't, 'l, 'e, 'i) StoreInner \<Rightarrow> u64" where
  "store_revision s = StoreInner.revision s"

definition metrics_snapshot ::
  "('a, 'g, 't, 'l, 'e, 'i) caches \<Rightarrow> ('a, 'g, 't, 'l, 'e, 'i) StoreInner \<Rightarrow> MetricsSnapshot" where
  "metrics_snapshot E s =
     \<lparr>MetricsSnapshot.revision = StoreInner.revision s, caches = cache_snapshot E s,
      counters = StoreInner.counters s,
      projection = \<lparr>ProjectionCounts.agents = lru_len (agents_lru E) (StoreInner.agents s),
        goals = lru_len (goals_lru E) (StoreInner.goals s),
        tasks = lru_len (tasks_lru E) (StoreInner.tasks s),
        lessons = lru_len (lessons_lru E) (StoreInner.lessons s)\<rparr>\<rparr>"

section \<open>A concrete instance of the caches\<close>

type_synonym list_caches_t =
  "((string, AgentState) list_cache, (ScopedId, GoalState) list_cache, (ScopedId, TaskState) list_cache,
    (ScopedId, LessonState) list_cache, (Uuid, EventRecord) list_cache, (Uuid, u64) list_cache) caches"

definition list_caches :: list_caches_t where
  "list_caches =
     \<lparr>agents_lru = list_lru, goals_lru = list_lru, tasks_lru = list_lru, lessons_lru = list_lru,
      events_lru = list_lru, seen_lru = list_lru, channel_fits = (\<lambda>n. 0 < n \<and> n \<le> (2 ^ 64 - 1) div 2)\<rparr>"

end
