(* ===== verification/StoreInv.thy ===== *)
theory StoreInv
  imports Store
begin

text \<open>
  The invariant of the store and its preservation. The locale \<open>store_caches\<close> is the contract
  between the store and its six caches, one instance of \<open>lru_cache\<close> each; the lemmas about the
  reducer are proved once inside it.

  The invariant \<open>store_inv\<close> says of a state: every cache is within its capacity and has distinct
  keys; every cached value belongs to its key; and for every retained agent the two completion
  counters are exactly the numbers of retained tasks of that agent in the two completion buckets.
\<close>

section \<open>Observations and the invariant\<close>

definition agent_of :: "('a, 'g, 't, 'l, 'e, 'i) caches \<Rightarrow> ('a, 'g, 't, 'l, 'e, 'i) StoreInner \<Rightarrow> string \<Rightarrow> AgentState option" where
  "agent_of E s a = map_of (lru_iter (agents_lru E) (StoreInner.agents s)) a"

definition task_of :: "('a, 'g, 't, 'l, 'e, 'i) caches \<Rightarrow> ('a, 'g, 't, 'l, 'e, 'i) StoreInner \<Rightarrow> string \<Rightarrow> string \<Rightarrow> TaskState option" where
  "task_of E s a tid = map_of (lru_iter (tasks_lru E) (StoreInner.tasks s)) (scoped_id a tid)"

definition retained_tasks :: "('a, 'g, 't, 'l, 'e, 'i) caches \<Rightarrow> ('a, 'g, 't, 'l, 'e, 'i) StoreInner \<Rightarrow> TaskState list" where
  "retained_tasks E s = map snd (lru_iter (tasks_lru E) (StoreInner.tasks s))"

definition in_bucket :: "CompletionBucket \<Rightarrow> TaskState \<Rightarrow> bool" where
  "in_bucket b t = (map_option completion_bucket (TaskState.outcome t) = Some b)"

definition bucket_count :: "string \<Rightarrow> CompletionBucket \<Rightarrow> TaskState list \<Rightarrow> nat" where
  "bucket_count a b ts = length (filter (\<lambda>t. TaskState.agent_id t = a \<and> in_bucket b t) ts)"

definition caches_wf :: "('a, 'g, 't, 'l, 'e, 'i) caches \<Rightarrow> ('a, 'g, 't, 'l, 'e, 'i) StoreInner \<Rightarrow> bool" where
  "caches_wf E s \<longleftrightarrow>
     lru_wf (agents_lru E) (StoreInner.agents s) \<and> lru_wf (goals_lru E) (StoreInner.goals s) \<and>
     lru_wf (tasks_lru E) (StoreInner.tasks s) \<and> lru_wf (lessons_lru E) (StoreInner.lessons s) \<and>
     lru_wf (events_lru E) (StoreInner.events s) \<and> lru_wf (seen_lru E) (seen_event_ids s)"

definition task_keyed :: "ScopedId \<times> TaskState \<Rightarrow> bool" where
  "task_keyed e \<longleftrightarrow> fst e = scoped_id (TaskState.agent_id (snd e)) (TaskSpec.task_id (TaskState.task (snd e)))"

text \<open>What the reducer guarantees of the fields of a task among themselves.\<close>

definition outcome_consistent :: "TaskState \<Rightarrow> bool" where
  "outcome_consistent t \<longleftrightarrow>
     (case TaskState.outcome t of
        None \<Rightarrow> TaskState.status t \<in> {TaskStatus.Pending, TaskStatus.Running, TaskStatus.Blocked} \<and>
          completed_at t = None \<and> completion_summary t = None \<and> TaskState.artifacts t = []
      | Some r \<Rightarrow> TaskState.status t \<in> {outcome_status r, TaskStatus.Blocked} \<and>
          completed_at t \<noteq> None \<and> completion_summary t \<noteq> None \<and>
          (r = TaskOutcome.Succeeded \<longrightarrow> TaskState.progress t = f32_one))"

definition times_consistent :: "TaskState \<Rightarrow> bool" where
  "times_consistent t \<longleftrightarrow>
     created_at t \<le> updated_at t \<and> definition_updated_at t \<le> updated_at t \<and>
     (case TaskState.started_at t of None \<Rightarrow> True | Some x \<Rightarrow> x \<le> updated_at t) \<and>
     (case completed_at t of None \<Rightarrow> True | Some x \<Rightarrow> x \<le> updated_at t)"

definition measures_consistent :: "TaskState \<Rightarrow> bool" where
  "measures_consistent t \<longleftrightarrow> f32_in_unit (TaskState.progress t) \<and>
     (case TaskState.latest_reflection t of None \<Rightarrow> True | Some r \<Rightarrow> f32_in_unit (Reflection.confidence r)) \<and>
     (TaskState.status t = TaskStatus.Pending \<longrightarrow> TaskState.attempt t = 0 \<and> TaskState.started_at t = None)"

definition task_consistent :: "TaskState \<Rightarrow> bool" where
  "task_consistent t \<longleftrightarrow> outcome_consistent t \<and> times_consistent t \<and> measures_consistent t"

definition task_ok :: "ScopedId \<times> TaskState \<Rightarrow> bool" where
  "task_ok e \<longleftrightarrow> task_keyed e \<and> task_consistent (snd e)"

lemmas task_consistent_defs =
  task_consistent_def outcome_consistent_def times_consistent_def measures_consistent_def

definition agent_keyed :: "string \<times> AgentState \<Rightarrow> bool" where
  "agent_keyed e \<longleftrightarrow> fst e = AgentRef.agent_id (AgentState.agent (snd e))"

definition goal_keyed :: "ScopedId \<times> GoalState \<Rightarrow> bool" where
  "goal_keyed e \<longleftrightarrow> fst e = scoped_id (GoalState.agent_id (snd e)) (Goal.goal_id (GoalState.goal (snd e)))"

definition lesson_keyed :: "ScopedId \<times> LessonState \<Rightarrow> bool" where
  "lesson_keyed e \<longleftrightarrow> fst e = scoped_id (LessonState.agent_id (snd e)) (Lesson.lesson_id (LessonState.lesson (snd e)))"

definition event_keyed :: "Uuid \<times> EventRecord \<Rightarrow> bool" where
  "event_keyed e \<longleftrightarrow> fst e = EventEnvelope.event_id (EventRecord.event (snd e))"

definition counters_exact :: "('a, 'g, 't, 'l, 'e, 'i) caches \<Rightarrow> ('a, 'g, 't, 'l, 'e, 'i) StoreInner \<Rightarrow> bool" where
  "counters_exact E s \<longleftrightarrow> (\<forall>a st. agent_of E s a = Some st \<longrightarrow>
     unat (completed_tasks st) = bucket_count a CompletionBucket.Completed (retained_tasks E s) \<and>
     unat (failed_tasks st) = bucket_count a CompletionBucket.Failed (retained_tasks E s))"

definition tasks_inv :: "('a, 'g, 't, 'l, 'e, 'i) caches \<Rightarrow> ('a, 'g, 't, 'l, 'e, 'i) StoreInner \<Rightarrow> bool" where
  "tasks_inv E s \<longleftrightarrow> caches_wf E s \<and> lru_cap (tasks_lru E) (StoreInner.tasks s) < 2 ^ 64 \<and>
     list_all task_ok (lru_iter (tasks_lru E) (StoreInner.tasks s)) \<and> counters_exact E s"

definition store_inv :: "('a, 'g, 't, 'l, 'e, 'i) caches \<Rightarrow> ('a, 'g, 't, 'l, 'e, 'i) StoreInner \<Rightarrow> bool" where
  "store_inv E s \<longleftrightarrow> tasks_inv E s \<and>
     list_all agent_keyed (lru_iter (agents_lru E) (StoreInner.agents s)) \<and>
     list_all goal_keyed (lru_iter (goals_lru E) (StoreInner.goals s)) \<and>
     list_all lesson_keyed (lru_iter (lessons_lru E) (StoreInner.lessons s)) \<and>
     list_all event_keyed (lru_iter (events_lru E) (StoreInner.events s))"

section \<open>Counting\<close>

lemma bucket_count_Nil [simp]: "bucket_count a b [] = 0"
  by (simp add: bucket_count_def)

lemma bucket_count_Cons [simp]:
  "bucket_count a b (t # ts) = (if TaskState.agent_id t = a \<and> in_bucket b t then Suc else id) (bucket_count a b ts)"
  by (simp add: bucket_count_def)

lemma bucket_count_append [simp]: "bucket_count a b (xs @ ys) = bucket_count a b xs + bucket_count a b ys"
  by (simp add: bucket_count_def)

lemma bucket_count_le: "bucket_count a b ts \<le> length ts"
  by (simp add: bucket_count_def)

lemma bucket_count_replace:
  assumes "distinct (map fst xs)" and "map_of xs k = Some t"
  shows "bucket_count a b (map snd xs) =
    bucket_count a b (map snd (without k xs)) + (if TaskState.agent_id t = a \<and> in_bucket b t then 1 else 0)"
  unfolding bucket_count_def
  by (rule count_remove_key) (use assms in \<open>auto dest: map_of_SomeD\<close>)

lemma fold_count_step:
  assumes "unat (fst acc) + length ts < 2 ^ 64" and "unat (snd acc) + length ts < 2 ^ 64"
  shows "unat (fst (fold count_step ts acc)) = unat (fst acc) + length (filter (in_bucket CompletionBucket.Completed) ts) \<and>
    unat (snd (fold count_step ts acc)) = unat (snd acc) + length (filter (in_bucket CompletionBucket.Failed) ts)"
  using assms
proof (induction ts arbitrary: acc)
  case Nil
  then show ?case by simp
next
  case (Cons t ts)
  have one: "unat (fst (count_step t acc)) = unat (fst acc) + (if in_bucket CompletionBucket.Completed t then 1 else 0)"
    "unat (snd (count_step t acc)) = unat (snd acc) + (if in_bucket CompletionBucket.Failed t then 1 else 0)"
    using Cons.prems by (auto simp: count_step_def in_bucket_def unat_sat_add
        split: option.splits CompletionBucket.splits)
  with Cons.prems Cons.IH [of "count_step t acc"] show ?case
    by auto
qed

lemma task_counts_exact:
  assumes "length (retained_tasks E s) < 2 ^ 64"
  shows "unat (fst (task_counts E s a)) = bucket_count a CompletionBucket.Completed (retained_tasks E s)"
    and "unat (snd (task_counts E s a)) = bucket_count a CompletionBucket.Failed (retained_tasks E s)"
proof -
  let ?ts = "filter (\<lambda>t. TaskState.agent_id t = a) (retained_tasks E s)"
  have "length ?ts < 2 ^ 64"
    using assms length_filter_le le_less_trans by blast
  with fold_count_step [of "(0, 0)" ?ts]
  show "unat (fst (task_counts E s a)) = bucket_count a CompletionBucket.Completed (retained_tasks E s)"
    and "unat (snd (task_counts E s a)) = bucket_count a CompletionBucket.Failed (retained_tasks E s)"
    by (simp_all add: task_counts_def retained_tasks_def bucket_count_def conj_commute)
qed

section \<open>Counter arithmetic\<close>

text \<open>Removing a task from its bucket decreases exactly the counter of that bucket.\<close>

lemma unat_remove_completion_counter:
  "unat (completed_tasks (remove_completion_counter p a)) =
     unat (completed_tasks a) - (if map_option completion_bucket p = Some CompletionBucket.Completed then 1 else 0)"
  "unat (failed_tasks (remove_completion_counter p a)) =
     unat (failed_tasks a) - (if map_option completion_bucket p = Some CompletionBucket.Failed then 1 else 0)"
  by (auto simp: remove_completion_counter_def unat_sat_sub split: option.splits CompletionBucket.splits)

lemma unat_remove_task:
  "unat (completed_tasks (remove_completion_counter (TaskState.outcome v) a)) =
     unat (completed_tasks a) - (if in_bucket CompletionBucket.Completed v then 1 else 0)"
  "unat (failed_tasks (remove_completion_counter (TaskState.outcome v) a)) =
     unat (failed_tasks a) - (if in_bucket CompletionBucket.Failed v then 1 else 0)"
  unfolding in_bucket_def by (rule unat_remove_completion_counter)+

lemma agent_remove_completion_counter [simp]:
  "AgentState.agent (remove_completion_counter p a) = AgentState.agent a"
  by (auto simp: remove_completion_counter_def split: option.splits CompletionBucket.splits)

lemma agent_reconcile [simp]:
  "AgentState.agent (reconcile_completion_counters p c a) = AgentState.agent a"
  by (auto simp: reconcile_completion_counters_def Let_def split: CompletionBucket.splits)

lemma unat_reconcile:
  assumes "map_option completion_bucket p \<noteq> Some CompletionBucket.Completed \<Longrightarrow> unat (completed_tasks a) < 2 ^ 64 - 1"
    and "map_option completion_bucket p \<noteq> Some CompletionBucket.Failed \<Longrightarrow> unat (failed_tasks a) < 2 ^ 64 - 1"
    and "map_option completion_bucket p = Some CompletionBucket.Completed \<Longrightarrow> 0 < unat (completed_tasks a)"
    and "map_option completion_bucket p = Some CompletionBucket.Failed \<Longrightarrow> 0 < unat (failed_tasks a)"
  shows "unat (completed_tasks (reconcile_completion_counters p c a)) =
     unat (completed_tasks a) - (if map_option completion_bucket p = Some CompletionBucket.Completed then 1 else 0)
       + (if completion_bucket c = CompletionBucket.Completed then 1 else 0)"
    and "unat (failed_tasks (reconcile_completion_counters p c a)) =
     unat (failed_tasks a) - (if map_option completion_bucket p = Some CompletionBucket.Failed then 1 else 0)
       + (if completion_bucket c = CompletionBucket.Failed then 1 else 0)"
  using assms
  by (auto simp: reconcile_completion_counters_def Let_def unat_sat_add unat_remove_completion_counter
      split: CompletionBucket.splits)

section \<open>The contract of the caches, and the operations under it\<close>

locale store_caches =
  A: lru_cache "agents_lru E" + G: lru_cache "goals_lru E" + T: lru_cache "tasks_lru E" +
  L: lru_cache "lessons_lru E" + V: lru_cache "events_lru E" + I: lru_cache "seen_lru E"
  for E :: "('a, 'g, 't, 'l, 'e, 'i) caches"
begin

subsection \<open>Modifying an agent\<close>

lemma modify_agent_absent:
  "caches_wf E s \<Longrightarrow> agent_of E s a = None \<Longrightarrow> modify_agent E a f s = s"
  by (simp add: modify_agent_def agent_of_def caches_wf_def A.get_mut_None)

lemma modify_agent_present:
  assumes "caches_wf E s" and "agent_of E s a = Some st"
  shows "\<exists>c. modify_agent E a f s = s\<lparr>StoreInner.agents := c\<rparr> \<and> lru_wf (agents_lru E) c \<and>
    lru_iter (agents_lru E) c = (a, f st) # without a (lru_iter (agents_lru E) (StoreInner.agents s)) \<and>
    lru_cap (agents_lru E) c = lru_cap (agents_lru E) (StoreInner.agents s)"
proof -
  have wf: "lru_wf (agents_lru E) (StoreInner.agents s)"
    using assms(1) by (simp add: caches_wf_def)
  obtain w where "lru_get_mut (agents_lru E) (StoreInner.agents s) a = Some (st, w)"
    and "lru_iter (agents_lru E) (w (f st)) = (a, f st) # without a (lru_iter (agents_lru E) (StoreInner.agents s))"
    and "lru_cap (agents_lru E) (w (f st)) = lru_cap (agents_lru E) (StoreInner.agents s)"
    and "lru_wf (agents_lru E) (w (f st))"
    by (rule A.get_mutE [OF wf assms(2) [unfolded agent_of_def]]) blast
  then show ?thesis by (auto simp: modify_agent_def)
qed

lemma agent_of_modify:
  assumes "caches_wf E s"
  shows "agent_of E (modify_agent E a f s) b = (if b = a then map_option f (agent_of E s a) else agent_of E s b)"
proof (cases "agent_of E s a")
  case None
  with assms show ?thesis by (simp add: modify_agent_absent)
next
  case (Some st)
  have "map_of (without a xs) b = (if b = a then None else map_of xs b)" for xs :: "(string \<times> AgentState) list"
    by (induction xs) auto
  with modify_agent_present [OF assms Some, of f] Some show ?thesis
    by (auto simp: agent_of_def)
qed

lemma modify_agent_frame:
  "StoreInner.tasks (modify_agent E a f s) = StoreInner.tasks s"
  "StoreInner.goals (modify_agent E a f s) = StoreInner.goals s"
  "StoreInner.lessons (modify_agent E a f s) = StoreInner.lessons s"
  "StoreInner.events (modify_agent E a f s) = StoreInner.events s"
  "seen_event_ids (modify_agent E a f s) = seen_event_ids s"
  "StoreInner.counters (modify_agent E a f s) = StoreInner.counters s"
  "StoreInner.revision (modify_agent E a f s) = StoreInner.revision s"
  "StoreInner.started_at (modify_agent E a f s) = StoreInner.started_at s"
  "StoreInner.evictions (modify_agent E a f s) = StoreInner.evictions s"
  by (auto simp: modify_agent_def split: option.splits)

lemma caches_wf_modify_agent:
  assumes "caches_wf E s" shows "caches_wf E (modify_agent E a f s)"
proof (cases "agent_of E s a")
  case None
  with assms show ?thesis by (simp add: modify_agent_absent)
next
  case (Some st)
  with modify_agent_present [OF assms Some, of f] assms show ?thesis
    by (auto simp: caches_wf_def)
qed

lemma agents_cap_modify:
  "caches_wf E s \<Longrightarrow> lru_cap (agents_lru E) (StoreInner.agents (modify_agent E a f s)) = lru_cap (agents_lru E) (StoreInner.agents s)"
  by (cases "agent_of E s a") (auto simp: modify_agent_absent dest!: modify_agent_present [of s a _ f])

lemma agents_keyed_modify:
  assumes "caches_wf E s" and "list_all agent_keyed (lru_iter (agents_lru E) (StoreInner.agents s))"
    and "\<And>st. agent_of E s a = Some st \<Longrightarrow> AgentRef.agent_id (AgentState.agent st) = a \<Longrightarrow>
      AgentRef.agent_id (AgentState.agent (f st)) = a"
  shows "list_all agent_keyed (lru_iter (agents_lru E) (StoreInner.agents (modify_agent E a f s)))"
proof (cases "agent_of E s a")
  case None
  with assms show ?thesis by (simp add: modify_agent_absent)
next
  case (Some st)
  then have "(a, st) \<in> set (lru_iter (agents_lru E) (StoreInner.agents s))"
    by (simp add: agent_of_def map_of_SomeD)
  with assms(2) have "AgentRef.agent_id (AgentState.agent st) = a"
    by (auto simp: list_all_iff agent_keyed_def)
  with assms(2,3) Some have "agent_keyed (a, f st)" by (simp add: agent_keyed_def)
  with modify_agent_present [OF assms(1) Some, of f] assms(2) show ?thesis
    by (auto simp: list_all_iff)
qed

lemma retained_modify_agent: "retained_tasks E (modify_agent E a f s) = retained_tasks E s"
  by (simp add: retained_tasks_def modify_agent_frame)

lemma task_of_modify_agent: "task_of E (modify_agent E a f s) = task_of E s"
  by (simp add: task_of_def fun_eq_iff modify_agent_frame)

text \<open>An update of an agent that leaves its counters alone keeps them exact.\<close>

lemma tasks_inv_modify_agent:
  assumes "tasks_inv E s" and "\<And>st. completed_tasks (f st) = completed_tasks st"
    and "\<And>st. failed_tasks (f st) = failed_tasks st"
  shows "tasks_inv E (modify_agent E a f s)"
  using assms
  by (auto simp: tasks_inv_def counters_exact_def caches_wf_modify_agent agent_of_modify retained_modify_agent
      modify_agent_frame split: if_splits)

subsection \<open>Inserting a task\<close>

lemma push_with_eviction_new:
  assumes "lru_cache M" and wf: "lru_wf M c" and new: "map_of (lru_iter M c) k = None"
  shows "(\<exists>c'. push_with_eviction M c k v = (None, c') \<and> lru_iter M c' = (k, v) # lru_iter M c) \<or>
    (\<exists>c' es k' v'. push_with_eviction M c k v = (Some v', c') \<and> lru_iter M c = es @ [(k', v')] \<and>
       lru_iter M c' = (k, v) # es)"
proof -
  have peek: "lru_peek M c k = None"
    using lru_cache.peek_iter [OF assms(1) wf] new by simp
  show ?thesis
  proof (cases "length (lru_iter M c) < lru_cap M c")
    case True
    from lru_cache.push_room [OF assms(1) wf new True, of v] peek show ?thesis
      by (auto simp: push_with_eviction_def split: prod.splits)
  next
    case False
    with wf have full: "length (lru_iter M c) = lru_cap M c" and "lru_iter M c \<noteq> []"
      by (auto simp: lru_wf_def)
    then obtain es k' v' where es: "lru_iter M c = es @ [(k', v')]"
      by (metis rev_exhaust surj_pair)
    from lru_cache.push_full [OF assms(1) wf new full, of v] peek es show ?thesis
      by (auto simp: push_with_eviction_def split: prod.splits)
  qed
qed

lemma push_with_eviction_snd: "snd (push_with_eviction M c k v) = snd (lru_push M c k v)"
  by (simp add: push_with_eviction_def split: prod.splits)

lemma caches_wf_tasks: "caches_wf E s \<Longrightarrow> lru_wf (tasks_lru E) c \<Longrightarrow> caches_wf E (s\<lparr>StoreInner.tasks := c\<rparr>)"
  by (simp add: caches_wf_def)

lemma caches_wf_insert_task:
  assumes "caches_wf E s" shows "caches_wf E (insert_task E k t s)"
proof -
  obtain d c where p: "push_with_eviction (tasks_lru E) (StoreInner.tasks s) k t = (d, c)"
    by fastforce
  have "lru_wf (tasks_lru E) c"
    using assms T.wf_push push_with_eviction_snd [of "tasks_lru E" "StoreInner.tasks s" k t] p
    by (simp add: caches_wf_def)
  with assms have "caches_wf E (s\<lparr>StoreInner.tasks := c, StoreInner.evictions := x\<rparr>)" for x
    by (simp add: caches_wf_def)
  moreover from \<open>lru_wf (tasks_lru E) c\<close> assms have "caches_wf E (s\<lparr>StoreInner.tasks := c\<rparr>)"
    by (simp add: caches_wf_def)
  ultimately show ?thesis
    by (simp add: insert_task_def p caches_wf_modify_agent split: option.splits)
qed

lemma tasks_cap_insert:
  "caches_wf E s \<Longrightarrow> lru_cap (tasks_lru E) (StoreInner.tasks (insert_task E k t s)) = lru_cap (tasks_lru E) (StoreInner.tasks s)"
  using T.cap_push [of "StoreInner.tasks s" k t] push_with_eviction_snd [of "tasks_lru E" "StoreInner.tasks s" k t]
  by (auto simp: insert_task_def caches_wf_def modify_agent_frame split: option.splits prod.splits)

text \<open>Evicting a task takes it out of its agent's counters, so they stay exact.\<close>

lemma tasks_inv_insert:
  assumes inv: "tasks_inv E s" and new: "task_of E s a tid = None"
    and t: "task_ok (scoped_id a tid, t)" "TaskState.outcome t = None"
  shows "tasks_inv E (insert_task E (scoped_id a tid) t s)"
proof -
  let ?k = "scoped_id a tid" and ?M = "tasks_lru E"
  have wf: "caches_wf E s" and wft: "lru_wf ?M (StoreInner.tasks s)"
    and keyed: "list_all task_ok (lru_iter ?M (StoreInner.tasks s))" and exact: "counters_exact E s"
    using inv by (auto simp: tasks_inv_def caches_wf_def)
  have out: "\<not> in_bucket b t" for b using t(2) by (simp add: in_bucket_def)
  from push_with_eviction_new [OF T.lru_cache_axioms wft new [unfolded task_of_def], of t]
  consider (room) c where "push_with_eviction ?M (StoreInner.tasks s) ?k t = (None, c)"
      "lru_iter ?M c = (?k, t) # lru_iter ?M (StoreInner.tasks s)"
    | (full) c es k' v where "push_with_eviction ?M (StoreInner.tasks s) ?k t = (Some v, c)"
      "lru_iter ?M (StoreInner.tasks s) = es @ [(k', v)]" "lru_iter ?M c = (?k, t) # es"
    by blast
  then have "list_all task_ok (lru_iter ?M (StoreInner.tasks (insert_task E ?k t s))) \<and>
      counters_exact E (insert_task E ?k t s)"
  proof cases
    case room
    with keyed t(1) exact out show ?thesis
      by (simp add: insert_task_def counters_exact_def agent_of_def retained_tasks_def)
  next
    case full
    let ?s = "s\<lparr>StoreInner.tasks := c, StoreInner.evictions := (StoreInner.evictions s)
       \<lparr>EvictionCounters.tasks := sat_add (EvictionCounters.tasks (StoreInner.evictions s)) 1\<rparr>\<rparr>"
    have s: "insert_task E ?k t s =
        modify_agent E (TaskState.agent_id v) (remove_completion_counter (TaskState.outcome v)) ?s"
      by (simp add: insert_task_def full)
    have "caches_wf E ?s"
    proof -
      have "lru_wf ?M c"
        using T.wf_push [OF wft, of ?k t] full(1) push_with_eviction_snd [of ?M "StoreInner.tasks s" ?k t] by simp
      with wf show ?thesis by (simp add: caches_wf_def)
    qed
    moreover have "agent_of E ?s = agent_of E s"
      by (simp add: agent_of_def fun_eq_iff)
    moreover have "retained_tasks E ?s = t # map snd es" and "retained_tasks E s = map snd es @ [v]"
      by (simp_all add: retained_tasks_def full)
    moreover have "unat (completed_tasks st) = bucket_count x CompletionBucket.Completed (map snd es) +
        (if TaskState.agent_id v = x \<and> in_bucket CompletionBucket.Completed v then 1 else 0)"
      "unat (failed_tasks st) = bucket_count x CompletionBucket.Failed (map snd es) +
        (if TaskState.agent_id v = x \<and> in_bucket CompletionBucket.Failed v then 1 else 0)"
      if "agent_of E s x = Some st" for x st
      using exact that \<open>retained_tasks E s = map snd es @ [v]\<close> by (simp_all add: counters_exact_def)
    ultimately have "counters_exact E (insert_task E ?k t s)"
      using out unfolding s counters_exact_def
      by (auto simp: agent_of_modify retained_modify_agent unat_remove_task split: if_splits)
    with keyed t(1) show ?thesis
      by (simp add: s modify_agent_frame full)
  qed
  with inv wf show ?thesis
    by (simp add: tasks_inv_def caches_wf_insert_task tasks_cap_insert)
qed

lemma task_of_insert_self:
  assumes "caches_wf E s"
  shows "task_of E (insert_task E (scoped_id a tid) t s) a tid = Some t"
proof -
  have "map_of (lru_iter (tasks_lru E) (snd (push_with_eviction (tasks_lru E) (StoreInner.tasks s) (scoped_id a tid) t)))
      (scoped_id a tid) = Some t"
    using assms by (simp add: push_with_eviction_snd T.push_found caches_wf_def)
  then show ?thesis
    by (auto simp: insert_task_def task_of_def modify_agent_frame split: option.splits prod.splits)
qed

lemma insert_task_frame:
  "StoreInner.goals (insert_task E k t s) = StoreInner.goals s"
  "StoreInner.lessons (insert_task E k t s) = StoreInner.lessons s"
  "StoreInner.events (insert_task E k t s) = StoreInner.events s"
  "seen_event_ids (insert_task E k t s) = seen_event_ids s"
  "StoreInner.counters (insert_task E k t s) = StoreInner.counters s"
  "StoreInner.revision (insert_task E k t s) = StoreInner.revision s"
  "StoreInner.started_at (insert_task E k t s) = StoreInner.started_at s"
  by (auto simp: insert_task_def modify_agent_frame split: option.splits prod.splits)

end

section \<open>The concrete caches meet the contract\<close>

interpretation list_store: store_caches list_caches
  by (rule store_caches.intro) (simp_all add: list_caches_def list_lru_contract)

end
