(* ===== verification/StoreSteps.thy ===== *)
theory StoreSteps
  imports StoreInv
begin

text \<open>
  Preservation of the store invariant by the event reducer: first the building blocks
  \<open>ensure_agent\<close>, \<open>ensure_task\<close>, \<open>modify_task\<close>, then one lemma per event kind and
  \<open>apply_event\<close> as a whole. Everything is proved from the contract of the caches.
\<close>

section \<open>Task bodies keep a task consistent\<close>

lemma scoped_id_inject [simp]: "scoped_id a e = scoped_id a' e' \<longleftrightarrow> a = a' \<and> e = e'"
  by (simp add: scoped_id_def)

lemma task_ok_from_spec:
  "TaskSpec.task_id spec = tid \<Longrightarrow> task_ok (scoped_id a tid, task_from_spec spec a occurred inferred)"
  by (simp add: task_ok_def task_keyed_def task_consistent_defs task_from_spec_def f32_in_unit_units)

lemma outcome_from_spec [simp]: "TaskState.outcome (task_from_spec spec a occurred inferred) = None"
  by (simp add: task_from_spec_def)

lemma tasks_inv_wf: "tasks_inv E s \<Longrightarrow> caches_wf E s"
  by (simp add: tasks_inv_def)

lemma task_ok_redefine:
  "task_ok (scoped_id (envelope_agent e) (TaskSpec.task_id spec), t) \<Longrightarrow>
   task_ok (scoped_id (envelope_agent e) (TaskSpec.task_id spec), redefine_task e spec t)"
  by (auto simp: task_ok_def task_keyed_def task_consistent_defs redefine_task_def
      split: option.splits intro: min.coboundedI1 max.coboundedI1 le_max_iff_disj [THEN iffD2])

lemma task_ok_start:
  "task_ok (k, t) \<Longrightarrow> updated_at t \<le> EventEnvelope.occurred_at e \<Longrightarrow> task_ok (k, start_task e d t)"
  by (auto simp: task_ok_def task_keyed_def task_consistent_defs start_task_def split: option.splits)

lemma task_ok_progress:
  "task_ok (k, t) \<Longrightarrow> updated_at t \<le> EventEnvelope.occurred_at e \<Longrightarrow> f32_in_unit (ProgressUpdate.progress p) \<Longrightarrow>
   task_ok (k, progress_task e p t)"
  by (auto simp: task_ok_def task_keyed_def task_consistent_defs progress_task_def split: option.splits)

lemma task_ok_reflect:
  "task_ok (k, t) \<Longrightarrow> updated_at t \<le> EventEnvelope.occurred_at e \<Longrightarrow> f32_in_unit (Reflection.confidence r) \<Longrightarrow>
   task_ok (k, reflect_task e r t)"
  by (auto simp: task_ok_def task_keyed_def task_consistent_defs reflect_task_def split: option.splits)

lemma task_ok_block:
  "task_ok (k, t) \<Longrightarrow> updated_at t \<le> EventEnvelope.occurred_at e \<Longrightarrow> task_ok (k, block_task e x t)"
  by (auto simp: task_ok_def task_keyed_def task_consistent_defs block_task_def split: option.splits)

lemma outcome_status_not_pending [simp]: "outcome_status r \<noteq> TaskStatus.Pending"
  by (cases r) simp_all

lemma f32_in_unit_one [simp]: "f32_in_unit f32_one"
  by (simp add: f32_in_unit_units)

lemma task_ok_complete:
  "task_ok (k, t) \<Longrightarrow> updated_at t \<le> EventEnvelope.occurred_at e \<Longrightarrow> task_ok (k, complete_task e c t)"
  by (auto simp: task_ok_def task_keyed_def task_consistent_defs complete_task_def split: option.splits)

lemma task_ok_agent: "task_ok (scoped_id a tid, t) \<Longrightarrow> TaskState.agent_id t = a"
  by (simp add: task_ok_def task_keyed_def)

section \<open>Building blocks\<close>

context store_caches
begin

subsection \<open>Looking up and modifying a task\<close>

lemma peek_task: "caches_wf E s \<Longrightarrow> lru_peek (tasks_lru E) (StoreInner.tasks s) (scoped_id a tid) = task_of E s a tid"
  by (simp add: task_of_def caches_wf_def T.peek_iter)

lemma peek_agent: "caches_wf E s \<Longrightarrow> lru_peek (agents_lru E) (StoreInner.agents s) a = agent_of E s a"
  by (simp add: agent_of_def caches_wf_def A.peek_iter)

lemma task_of_ok: "tasks_inv E s \<Longrightarrow> task_of E s a tid = Some t \<Longrightarrow> task_ok (scoped_id a tid, t)"
  by (auto simp: tasks_inv_def task_of_def list_all_iff dest: map_of_SomeD)

lemma modify_task_absent:
  "caches_wf E s \<Longrightarrow> task_of E s a tid = None \<Longrightarrow> modify_task E (scoped_id a tid) occ f s = (None, s)"
  by (simp add: modify_task_def task_of_def caches_wf_def T.get_mut_None)

lemma get_mut_task:
  assumes "caches_wf E s" and "task_of E s a tid = Some t"
  obtains w where "lru_get_mut (tasks_lru E) (StoreInner.tasks s) (scoped_id a tid) = Some (t, w)"
    and "\<And>t'. lru_iter (tasks_lru E) (w t') =
      (scoped_id a tid, t') # without (scoped_id a tid) (lru_iter (tasks_lru E) (StoreInner.tasks s))"
    and "\<And>t'. lru_cap (tasks_lru E) (w t') = lru_cap (tasks_lru E) (StoreInner.tasks s)"
    and "\<And>t'. lru_wf (tasks_lru E) (w t')"
  using T.get_mutE [of "StoreInner.tasks s" "scoped_id a tid" t] assms
  by (metis caches_wf_def task_of_def)

text \<open>Replacing the value of a task moves exactly that task between the buckets.\<close>

definition written :: "('a, 'g, 't, 'l, 'e, 'i) StoreInner \<Rightarrow> string \<Rightarrow> string \<Rightarrow> TaskState \<Rightarrow> 't \<Rightarrow> bool" where
  "written s a tid t' c \<longleftrightarrow>
     lru_iter (tasks_lru E) c =
       (scoped_id a tid, t') # without (scoped_id a tid) (lru_iter (tasks_lru E) (StoreInner.tasks s)) \<and>
     lru_cap (tasks_lru E) c = lru_cap (tasks_lru E) (StoreInner.tasks s) \<and> lru_wf (tasks_lru E) c"

lemma modify_task_present:
  assumes "caches_wf E s" and "task_of E s a tid = Some t"
  shows "\<exists>c. modify_task E (scoped_id a tid) occ f s =
      (if updated_at t \<le> occ then Some (TaskState.outcome t) else None, s\<lparr>StoreInner.tasks := c\<rparr>) \<and>
    written s a tid (if updated_at t \<le> occ then f t else t) c"
  by (rule get_mut_task [OF assms]) (auto simp: modify_task_def written_def)

lemma task_of_written:
  "written s a tid t' c \<Longrightarrow>
   task_of E (s\<lparr>StoreInner.tasks := c\<rparr>) b k = (if b = a \<and> k = tid then Some t' else task_of E s b k)"
proof -
  have "map_of (without i xs) j = (if j = i then None else map_of xs j)" for i j and xs :: "(ScopedId \<times> TaskState) list"
    by (induction xs) auto
  then show "written s a tid t' c \<Longrightarrow> ?thesis"
    by (simp add: written_def task_of_def)
qed

lemma counters_at:
  assumes inv: "tasks_inv E s" and t: "task_of E s a tid = Some t" and st: "agent_of E s a = Some st"
  defines "n \<equiv> \<lambda>b. bucket_count a b (map snd (without (scoped_id a tid) (lru_iter (tasks_lru E) (StoreInner.tasks s))))"
  shows "unat (completed_tasks st) = n CompletionBucket.Completed + (if in_bucket CompletionBucket.Completed t then 1 else 0)"
    and "unat (failed_tasks st) = n CompletionBucket.Failed + (if in_bucket CompletionBucket.Failed t then 1 else 0)"
    and "n b < 2 ^ 64 - 1"
proof -
  let ?xs = "lru_iter (tasks_lru E) (StoreInner.tasks s)"
  have wf: "lru_wf (tasks_lru E) (StoreInner.tasks s)" and m: "map_of ?xs (scoped_id a tid) = Some t"
    using inv t by (simp_all add: tasks_inv_def caches_wf_def task_of_def)
  have agent: "TaskState.agent_id t = a"
    using task_of_ok [OF inv t] by (rule task_ok_agent)
  have split: "bucket_count a b (map snd ?xs) = n b + (if in_bucket b t then 1 else 0)" for b
    using bucket_count_replace [of ?xs "scoped_id a tid" t a b] wf m agent by (simp add: lru_wf_def n_def)
  then show "unat (completed_tasks st) = n CompletionBucket.Completed + (if in_bucket CompletionBucket.Completed t then 1 else 0)"
    and "unat (failed_tasks st) = n CompletionBucket.Failed + (if in_bucket CompletionBucket.Failed t then 1 else 0)"
    using inv st by (simp_all add: tasks_inv_def counters_exact_def retained_tasks_def)
  have "n b \<le> length (without (scoped_id a tid) ?xs)"
    unfolding n_def using bucket_count_le [of a b "map snd (without (scoped_id a tid) ?xs)"] by simp
  also have "\<dots> < length ?xs"
    using m by (intro T.length_without_less) (rule map_of_SomeD)
  finally show "n b < 2 ^ 64 - 1"
    using wf inv by (simp add: lru_wf_def tasks_inv_def)
qed

lemma retained_written:
  assumes "written s a tid t' c"
  shows "retained_tasks E (s\<lparr>StoreInner.tasks := c\<rparr>) =
    t' # map snd (without (scoped_id a tid) (lru_iter (tasks_lru E) (StoreInner.tasks s)))"
  using assms by (simp add: written_def retained_tasks_def)

lemma bucket_other_agent:
  assumes inv: "tasks_inv E s" and t: "task_of E s a tid = Some t" and "x \<noteq> a"
  shows "bucket_count x b (map snd (without (scoped_id a tid) (lru_iter (tasks_lru E) (StoreInner.tasks s)))) =
    bucket_count x b (retained_tasks E s)"
  using bucket_count_replace [of "lru_iter (tasks_lru E) (StoreInner.tasks s)" "scoped_id a tid" t x b]
    task_ok_agent [OF task_of_ok [OF inv t]] inv t \<open>x \<noteq> a\<close>
  by (simp add: tasks_inv_def caches_wf_def lru_wf_def task_of_def retained_tasks_def)

text \<open>
  A write of a task followed by an update of its agent that moves the counters by the same
  amount preserves the invariant.
\<close>

lemma tasks_inv_written:
  assumes inv: "tasks_inv E s" and t: "task_of E s a tid = Some t" and w: "written s a tid t' c"
    and ok: "task_ok (scoped_id a tid, t')"
    and agents: "\<And>x. x \<noteq> a \<Longrightarrow> agent_of E s' x = agent_of E s x"
    and s': "StoreInner.tasks s' = c" "caches_wf E s'"
    and shift: "\<And>st'. agent_of E s' a = Some st' \<Longrightarrow> \<exists>st. agent_of E s a = Some st \<and>
      unat (completed_tasks st') + (if in_bucket CompletionBucket.Completed t then 1 else 0) =
        unat (completed_tasks st) + (if in_bucket CompletionBucket.Completed t' then 1 else 0) \<and>
      unat (failed_tasks st') + (if in_bucket CompletionBucket.Failed t then 1 else 0) =
        unat (failed_tasks st) + (if in_bucket CompletionBucket.Failed t' then 1 else 0)"
  shows "tasks_inv E s'"
proof -
  let ?rest = "map snd (without (scoped_id a tid) (lru_iter (tasks_lru E) (StoreInner.tasks s)))"
  have retained: "retained_tasks E s' = t' # ?rest"
    using w s'(1) by (simp add: written_def retained_tasks_def)
  have agent': "TaskState.agent_id t' = a"
    using ok by (rule task_ok_agent)
  have "unat (completed_tasks st') = bucket_count x CompletionBucket.Completed (retained_tasks E s') \<and>
      unat (failed_tasks st') = bucket_count x CompletionBucket.Failed (retained_tasks E s')"
    if st': "agent_of E s' x = Some st'" for x st'
  proof (cases "x = a")
    case True
    with shift st' counters_at(1,2) [OF inv t] show ?thesis
      unfolding retained by (fastforce simp: agent')
  next
    case False
    with agents st' have "agent_of E s x = Some st'" by simp
    with False inv show ?thesis
      unfolding retained by (simp add: agent' tasks_inv_def counters_exact_def bucket_other_agent [OF inv t])
  qed
  moreover have "list_all task_ok (lru_iter (tasks_lru E) (StoreInner.tasks s'))"
    using w ok inv s'(1) by (auto simp: written_def tasks_inv_def list_all_iff)
  ultimately show ?thesis
    using inv w s' by (auto simp: tasks_inv_def counters_exact_def written_def)
qed

subsection \<open>Ensuring that the agent and the task exist\<close>

lemma ensure_task_existing: "caches_wf E s \<Longrightarrow> task_of E s a tid = Some t \<Longrightarrow> ensure_task E tid a occ s = s"
  by (simp add: ensure_task_def peek_task)

lemma ensure_task_missing:
  "caches_wf E s \<Longrightarrow> task_of E s a tid = None \<Longrightarrow>
   ensure_task E tid a occ s = insert_task E (scoped_id a tid) (task_from_spec (inferred_spec tid) a occ True) s"
  by (simp add: ensure_task_def peek_task)

lemma task_of_ensure:
  "caches_wf E s \<Longrightarrow> task_of E (ensure_task E tid a occ s) a tid =
   Some (case task_of E s a tid of None \<Rightarrow> task_from_spec (inferred_spec tid) a occ True | Some t \<Rightarrow> t)"
  by (cases "task_of E s a tid") (simp_all add: ensure_task_existing ensure_task_missing task_of_insert_self)

lemma tasks_inv_ensure_task:
  assumes "tasks_inv E s" shows "tasks_inv E (ensure_task E tid a occ s)"
proof (cases "task_of E s a tid")
  case None
  have "task_ok (scoped_id a tid, task_from_spec (inferred_spec tid) a occ True)"
    by (rule task_ok_from_spec) (simp add: inferred_spec_def)
  with None assms show ?thesis
    by (simp add: ensure_task_missing tasks_inv_wf tasks_inv_insert)
next
  case (Some t)
  with assms show ?thesis by (simp add: ensure_task_existing tasks_inv_def)
qed

lemma ensure_task_frame:
  "StoreInner.goals (ensure_task E tid a occ s) = StoreInner.goals s"
  "StoreInner.lessons (ensure_task E tid a occ s) = StoreInner.lessons s"
  "StoreInner.events (ensure_task E tid a occ s) = StoreInner.events s"
  "seen_event_ids (ensure_task E tid a occ s) = seen_event_ids s"
  "StoreInner.counters (ensure_task E tid a occ s) = StoreInner.counters s"
  "StoreInner.revision (ensure_task E tid a occ s) = StoreInner.revision s"
  "StoreInner.started_at (ensure_task E tid a occ s) = StoreInner.started_at s"
  by (simp_all add: ensure_task_def insert_task_frame)

lemma agents_keyed_insert_task:
  assumes wf: "caches_wf E s" and "list_all agent_keyed (lru_iter (agents_lru E) (StoreInner.agents s))"
  shows "list_all agent_keyed (lru_iter (agents_lru E) (StoreInner.agents (insert_task E k t s)))"
proof (cases "push_with_eviction (tasks_lru E) (StoreInner.tasks s) k t")
  case (Pair d c)
  have "lru_wf (tasks_lru E) c"
    using wf T.wf_push push_with_eviction_snd [of "tasks_lru E" "StoreInner.tasks s" k t] Pair
    by (simp add: caches_wf_def)
  with wf have "caches_wf E (s\<lparr>StoreInner.tasks := c, StoreInner.evictions := x\<rparr>)" for x
    by (simp add: caches_wf_def)
  with assms Pair show ?thesis
    by (auto simp: insert_task_def split: option.splits intro!: agents_keyed_modify)
qed

lemma agents_keyed_ensure_task:
  "caches_wf E s \<Longrightarrow> list_all agent_keyed (lru_iter (agents_lru E) (StoreInner.agents s)) \<Longrightarrow>
   list_all agent_keyed (lru_iter (agents_lru E) (StoreInner.agents (ensure_task E tid a occ s)))"
  by (simp add: ensure_task_def agents_keyed_insert_task)

lemma push_keeps:
  assumes "lru_cache M" and "lru_wf M c" and "list_all P (lru_iter M c)" and "P (k, v)"
  shows "list_all P (lru_iter M (snd (push_with_eviction M c k v)))"
proof (cases "map_of (lru_iter M c) k")
  case None
  from push_with_eviction_new [OF assms(1,2) None, of v] assms(3,4) show ?thesis by auto
next
  case (Some old)
  from lru_cache.push_present [OF assms(1,2) Some] assms(3,4) show ?thesis
    by (auto simp: push_with_eviction_snd list_all_iff)
qed

text \<open>
  A new agent starts from the counts of its retained tasks, and evicting another agent loses
  only that agent's counters.
\<close>

lemma ensure_agent_existing:
  "caches_wf E s \<Longrightarrow> agent_of E s (envelope_agent e) = Some st \<Longrightarrow> ensure_agent E e s = s"
  by (simp add: ensure_agent_def peek_agent)

lemma ensure_agent_frame:
  "StoreInner.tasks (ensure_agent E e s) = StoreInner.tasks s"
  "StoreInner.goals (ensure_agent E e s) = StoreInner.goals s"
  "StoreInner.lessons (ensure_agent E e s) = StoreInner.lessons s"
  "StoreInner.events (ensure_agent E e s) = StoreInner.events s"
  "seen_event_ids (ensure_agent E e s) = seen_event_ids s"
  "StoreInner.counters (ensure_agent E e s) = StoreInner.counters s"
  "StoreInner.revision (ensure_agent E e s) = StoreInner.revision s"
  "StoreInner.started_at (ensure_agent E e s) = StoreInner.started_at s"
  by (simp_all add: ensure_agent_def Let_def split: prod.splits)

definition fresh_agent :: "EventEnvelope \<Rightarrow> ('a, 'g, 't, 'l, 'e, 'i) StoreInner \<Rightarrow> AgentState" where
  "fresh_agent e s =
     \<lparr>AgentState.agent = EventEnvelope.agent e, display_name = envelope_agent e,
      capabilities = [], metadata = [], status = AgentStatus.Idle,
      session_id = EventEnvelope.session_id e, current_goal_id = None, active_task_id = None,
      registered_at = EventEnvelope.occurred_at e, last_seen_at = EventEnvelope.occurred_at e,
      completed_tasks = fst (task_counts E s (envelope_agent e)),
      failed_tasks = snd (task_counts E s (envelope_agent e)),
      latest_reflection = None, latest_error = None\<rparr>"

lemma ensure_agent_agents:
  assumes wf: "caches_wf E s" and none: "agent_of E s (envelope_agent e) = None"
  shows "StoreInner.agents (ensure_agent E e s) =
    snd (push_with_eviction (agents_lru E) (StoreInner.agents s) (envelope_agent e) (fresh_agent e s))"
  using assms by (simp add: ensure_agent_def peek_agent fresh_agent_def Let_def split: prod.splits)

lemma agent_of_ensure:
  assumes wf: "caches_wf E s"
  shows "agent_of E (ensure_agent E e s) (envelope_agent e) =
    Some (case agent_of E s (envelope_agent e) of None \<Rightarrow> fresh_agent e s | Some st \<Rightarrow> st)"
proof (cases "agent_of E s (envelope_agent e)")
  case None
  with wf show ?thesis
    by (simp add: agent_of_def [of E "ensure_agent E e s"] ensure_agent_agents push_with_eviction_snd A.push_found caches_wf_def)
next
  case (Some st)
  with wf show ?thesis by (simp add: ensure_agent_existing)
qed

lemma agent_of_ensure_other:
  assumes wf: "caches_wf E s" and "agent_of E (ensure_agent E e s) x = Some st" and "x \<noteq> envelope_agent e"
  shows "agent_of E s x = Some st"
proof (cases "agent_of E s (envelope_agent e)")
  case None
  have "lru_wf (agents_lru E) (StoreInner.agents s)" using wf by (simp add: caches_wf_def)
  from push_with_eviction_new [OF A.lru_cache_axioms this None [unfolded agent_of_def], of "fresh_agent e s"]
    assms(2,3) None wf show ?thesis
    by (auto simp: agent_of_def [of E "ensure_agent E e s"] ensure_agent_agents)
      (auto simp: agent_of_def map_add_def split: option.splits)
next
  case (Some st')
  with assms show ?thesis by (simp add: ensure_agent_existing)
qed

lemma caches_wf_ensure_agent: "caches_wf E s \<Longrightarrow> caches_wf E (ensure_agent E e s)"
proof (cases "agent_of E s (envelope_agent e)")
  case None
  then show "caches_wf E s \<Longrightarrow> ?thesis"
    by (simp add: caches_wf_def ensure_agent_frame)
      (simp add: ensure_agent_agents caches_wf_def push_with_eviction_snd A.wf_push)
qed (simp add: ensure_agent_existing)

lemma tasks_inv_ensure_agent:
  assumes inv: "tasks_inv E s" shows "tasks_inv E (ensure_agent E e s)"
proof -
  have wf: "caches_wf E s" and len: "length (retained_tasks E s) < 2 ^ 64"
    using inv by (auto simp: tasks_inv_def caches_wf_def lru_wf_def retained_tasks_def)
  have retained: "retained_tasks E (ensure_agent E e s) = retained_tasks E s"
    by (simp add: retained_tasks_def ensure_agent_frame)
  have "unat (completed_tasks st) = bucket_count x CompletionBucket.Completed (retained_tasks E s) \<and>
      unat (failed_tasks st) = bucket_count x CompletionBucket.Failed (retained_tasks E s)"
    if st: "agent_of E (ensure_agent E e s) x = Some st" for x st
  proof (cases "agent_of E s x")
    case (Some st')
    have "agent_of E s x = Some st"
      using Some st agent_of_ensure [OF wf, of e] agent_of_ensure_other [OF wf st]
      by (cases "x = envelope_agent e") auto
    with inv show ?thesis by (simp add: tasks_inv_def counters_exact_def)
  next
    case None
    with agent_of_ensure_other [OF wf st] have x: "x = envelope_agent e" by auto
    with None st agent_of_ensure [OF wf, of e] have "st = fresh_agent e s" by simp
    then show ?thesis
      by (simp add: x fresh_agent_def task_counts_exact [OF len])
  qed
  with inv show ?thesis
    by (simp add: tasks_inv_def counters_exact_def retained caches_wf_ensure_agent ensure_agent_frame)
qed

lemma agents_keyed_ensure_agent:
  assumes "caches_wf E s" and "list_all agent_keyed (lru_iter (agents_lru E) (StoreInner.agents s))"
  shows "list_all agent_keyed (lru_iter (agents_lru E) (StoreInner.agents (ensure_agent E e s)))"
proof (cases "agent_of E s (envelope_agent e)")
  case None
  then show ?thesis
    unfolding ensure_agent_agents [OF assms(1) None]
    by (intro push_keeps [OF A.lru_cache_axioms])
      (use assms in \<open>auto simp: caches_wf_def agent_keyed_def fresh_agent_def\<close>)
next
  case (Some st)
  with assms show ?thesis by (simp add: ensure_agent_existing)
qed

subsection \<open>Steps that preserve the whole invariant\<close>

lemma inv_modify_agent:
  assumes "store_inv E s" and "\<And>st. completed_tasks (f st) = completed_tasks st"
    and "\<And>st. failed_tasks (f st) = failed_tasks st"
    and "\<And>st. AgentRef.agent_id (AgentState.agent st) = a \<Longrightarrow> AgentRef.agent_id (AgentState.agent (f st)) = a"
  shows "store_inv E (modify_agent E a f s)"
  using assms
  by (simp add: store_inv_def modify_agent_frame tasks_inv_modify_agent agents_keyed_modify tasks_inv_wf)

lemma inv_ensure_task: "store_inv E s \<Longrightarrow> store_inv E (ensure_task E tid a occ s)"
  by (simp add: store_inv_def ensure_task_frame tasks_inv_ensure_task agents_keyed_ensure_task tasks_inv_wf)

lemma inv_ensure_agent: "store_inv E s \<Longrightarrow> store_inv E (ensure_agent E e s)"
  by (simp add: store_inv_def ensure_agent_frame tasks_inv_ensure_agent agents_keyed_ensure_agent tasks_inv_wf)

lemma inv_insert_task:
  "store_inv E s \<Longrightarrow> task_of E s a tid = None \<Longrightarrow> task_ok (scoped_id a tid, t) \<Longrightarrow> TaskState.outcome t = None \<Longrightarrow>
   store_inv E (insert_task E (scoped_id a tid) t s)"
  by (simp add: store_inv_def insert_task_frame tasks_inv_insert agents_keyed_insert_task tasks_inv_wf)

lemma caches_wf_written: "caches_wf E s \<Longrightarrow> written s a tid t' c \<Longrightarrow> caches_wf E (s\<lparr>StoreInner.tasks := c\<rparr>)"
  by (simp add: written_def caches_wf_tasks)

lemma agent_of_tasks [simp]: "agent_of E (s\<lparr>StoreInner.tasks := c\<rparr>) = agent_of E s"
  by (simp add: agent_of_def fun_eq_iff)

lemma inv_written_same_bucket:
  assumes inv: "store_inv E s" and t: "task_of E s a tid = Some t" and w: "written s a tid t' c"
    and ok: "task_ok (scoped_id a tid, t')" and same: "TaskState.outcome t' = TaskState.outcome t"
  shows "store_inv E (s\<lparr>StoreInner.tasks := c\<rparr>)"
proof -
  have "tasks_inv E s" using inv by (simp add: store_inv_def)
  then have "tasks_inv E (s\<lparr>StoreInner.tasks := c\<rparr>)"
    by (rule tasks_inv_written [OF _ t w ok])
      (use same w \<open>tasks_inv E s\<close> in \<open>simp_all add: in_bucket_def caches_wf_written tasks_inv_wf\<close>)
  with inv show ?thesis by (simp add: store_inv_def)
qed

lemma inv_modify_task:
  assumes inv: "store_inv E s"
    and ok: "\<And>t. task_ok (scoped_id a tid, t) \<Longrightarrow> updated_at t \<le> occ \<Longrightarrow> task_ok (scoped_id a tid, f t)"
    and same: "\<And>t. TaskState.outcome (f t) = TaskState.outcome t"
  shows "store_inv E (snd (modify_task E (scoped_id a tid) occ f s))"
proof (cases "task_of E s a tid")
  case None
  with inv show ?thesis by (simp add: modify_task_absent store_inv_def tasks_inv_wf)
next
  case (Some t)
  have tinv: "tasks_inv E s" using inv by (simp add: store_inv_def)
  from modify_task_present [OF tasks_inv_wf [OF tinv] Some, of occ f] obtain c where
    c: "snd (modify_task E (scoped_id a tid) occ f s) = s\<lparr>StoreInner.tasks := c\<rparr>"
    "written s a tid (if updated_at t \<le> occ then f t else t) c" by auto
  show ?thesis
    unfolding c(1)
    by (rule inv_written_same_bucket [OF inv Some c(2)]) (use task_of_ok [OF tinv Some] ok same in auto)
qed

text \<open>
  The shape shared by the started, progress and completed events. The premise about the
  agent update \<open>g\<close> says that it moves the counters from the old bucket to the new one.
\<close>

definition counters_move :: "TaskState \<Rightarrow> TaskState \<Rightarrow> AgentState \<Rightarrow> AgentState \<Rightarrow> bool" where
  "counters_move t t' st st' \<longleftrightarrow>
     unat (completed_tasks st') + (if in_bucket CompletionBucket.Completed t then 1 else 0) =
       unat (completed_tasks st) + (if in_bucket CompletionBucket.Completed t' then 1 else 0) \<and>
     unat (failed_tasks st') + (if in_bucket CompletionBucket.Failed t then 1 else 0) =
       unat (failed_tasks st) + (if in_bucket CompletionBucket.Failed t' then 1 else 0)"

definition counters_fit :: "TaskState \<Rightarrow> AgentState \<Rightarrow> bool" where
  "counters_fit t st \<longleftrightarrow>
     (if in_bucket CompletionBucket.Completed t then 0 < unat (completed_tasks st)
      else unat (completed_tasks st) < 2 ^ 64 - 1) \<and>
     (if in_bucket CompletionBucket.Failed t then 0 < unat (failed_tasks st)
      else unat (failed_tasks st) < 2 ^ 64 - 1)"

lemma counters_fit_inv:
  "tasks_inv E s \<Longrightarrow> task_of E s a tid = Some t \<Longrightarrow> agent_of E s a = Some st \<Longrightarrow> counters_fit t st"
  using counters_at [of s a tid t st] by (auto simp: counters_fit_def)

lemma inv_task_event:
  assumes inv: "store_inv E s"
    and ok: "\<And>t. task_ok (scoped_id a tid, t) \<Longrightarrow> updated_at t \<le> occ \<Longrightarrow> task_ok (scoped_id a tid, f t)"
    and move: "\<And>t st. counters_fit t st \<Longrightarrow> counters_move t (f t) st (g (TaskState.outcome t) st)"
    and keyed: "\<And>p st. AgentState.agent (g p st) = AgentState.agent st"
  shows "store_inv E (case modify_task E (scoped_id a tid) occ f s of
           (None, s2) \<Rightarrow> s2 | (Some p, s2) \<Rightarrow> modify_agent E a (g p) s2)"
proof (cases "task_of E s a tid")
  case None
  with inv show ?thesis by (simp add: modify_task_absent store_inv_def tasks_inv_wf)
next
  case (Some t)
  have tinv: "tasks_inv E s" and wf: "caches_wf E s"
    using inv by (simp_all add: store_inv_def tasks_inv_wf)
  note tok = task_of_ok [OF tinv Some]
  from modify_task_present [OF wf Some, of occ f] obtain c where
    c: "modify_task E (scoped_id a tid) occ f s =
      (if updated_at t \<le> occ then Some (TaskState.outcome t) else None, s\<lparr>StoreInner.tasks := c\<rparr>)"
    and w: "written s a tid (if updated_at t \<le> occ then f t else t) c" by auto
  show ?thesis
  proof (cases "updated_at t \<le> occ")
    case False
    with c w show ?thesis
      using inv_written_same_bucket [OF inv Some _ tok] by simp
  next
    case True
    let ?s = "s\<lparr>StoreInner.tasks := c\<rparr>" and ?g = "g (TaskState.outcome t)"
    have wf': "caches_wf E ?s" using wf w by (rule caches_wf_written)
    have "tasks_inv E (modify_agent E a ?g ?s)"
    proof (rule tasks_inv_written [OF tinv Some w])
      show "task_ok (scoped_id a tid, if updated_at t \<le> occ then f t else t)"
        using True ok [OF tok] by simp
      show "agent_of E (modify_agent E a ?g ?s) x = agent_of E s x" if "x \<noteq> a" for x
        using that wf' by (simp add: agent_of_modify)
    qed (use wf' True move [OF counters_fit_inv [OF tinv Some]] in
        \<open>auto simp: modify_agent_frame caches_wf_modify_agent agent_of_modify counters_move_def\<close>)
    moreover have "list_all agent_keyed (lru_iter (agents_lru E) (StoreInner.agents (modify_agent E a ?g ?s)))"
      using wf' inv by (intro agents_keyed_modify) (simp_all add: store_inv_def keyed)
    ultimately show ?thesis
      using inv c True by (simp add: store_inv_def modify_agent_frame)
  qed
qed

lemma move_remove:
  assumes "counters_fit t st" and "TaskState.outcome t' = None"
    and "completed_tasks st' = completed_tasks (remove_completion_counter (TaskState.outcome t) st)"
    and "failed_tasks st' = failed_tasks (remove_completion_counter (TaskState.outcome t) st)"
  shows "counters_move t t' st st'"
  using assms by (auto simp: counters_move_def counters_fit_def unat_remove_task in_bucket_def [of _ t'] split: if_splits)

lemma move_reconcile:
  assumes "counters_fit t st" and "TaskState.outcome t' = Some r"
    and "completed_tasks st0 = completed_tasks st" "failed_tasks st0 = failed_tasks st"
  shows "counters_move t t' st (reconcile_completion_counters (TaskState.outcome t) r st0)"
proof -
  have "in_bucket b t' \<longleftrightarrow> completion_bucket r = b" for b
    using assms(2) by (simp add: in_bucket_def)
  with assms(1,3,4) unat_reconcile [of "TaskState.outcome t" st0 r, folded in_bucket_def] show ?thesis
    by (auto simp: counters_move_def counters_fit_def split: if_splits)
qed

subsection \<open>One lemma per event kind\<close>

lemma inv_touch: "store_inv E s \<Longrightarrow> store_inv E (modify_agent E (envelope_agent e) (touch_agent e) s)"
  by (rule inv_modify_agent) (simp_all add: touch_agent_def Let_def)

lemma inv_registered: "store_inv E s \<Longrightarrow> store_inv E (apply_registered E e v s)"
  unfolding apply_registered_def by (rule inv_modify_agent) simp_all

lemma inv_heartbeat: "store_inv E s \<Longrightarrow> store_inv E (apply_heartbeat E e v s)"
  unfolding apply_heartbeat_def by (rule inv_modify_agent) simp_all

lemma inv_status: "store_inv E s \<Longrightarrow> store_inv E (apply_status E e v s)"
  unfolding apply_status_def by (rule inv_modify_agent) simp_all

text \<open>The goals, the lessons and the eviction counters take no part in the invariant of the tasks.\<close>

lemma inv_goals:
  assumes inv: "store_inv E s" and v: "goal_keyed (k, v)"
  shows "store_inv E (s\<lparr>StoreInner.goals := snd (push_with_eviction (goals_lru E) (StoreInner.goals s) k v),
    StoreInner.evictions := x\<rparr>)"
proof -
  have "lru_wf (goals_lru E) (StoreInner.goals s)" "list_all goal_keyed (lru_iter (goals_lru E) (StoreInner.goals s))"
    using inv by (simp_all add: store_inv_def tasks_inv_def caches_wf_def)
  with v push_keeps [OF G.lru_cache_axioms] inv show ?thesis
    by (simp add: store_inv_def tasks_inv_def caches_wf_def counters_exact_def agent_of_def retained_tasks_def
        push_with_eviction_snd G.wf_push)
qed

lemma inv_lessons:
  assumes inv: "store_inv E s" and v: "lesson_keyed (k, v)"
  shows "store_inv E (s\<lparr>StoreInner.lessons := snd (push_with_eviction (lessons_lru E) (StoreInner.lessons s) k v),
    StoreInner.evictions := x\<rparr>)"
proof -
  have "lru_wf (lessons_lru E) (StoreInner.lessons s)" "list_all lesson_keyed (lru_iter (lessons_lru E) (StoreInner.lessons s))"
    using inv by (simp_all add: store_inv_def tasks_inv_def caches_wf_def)
  with v push_keeps [OF L.lru_cache_axioms] inv show ?thesis
    by (simp add: store_inv_def tasks_inv_def caches_wf_def counters_exact_def agent_of_def retained_tasks_def
        push_with_eviction_snd L.wf_push)
qed

lemma inv_goal: "store_inv E s \<Longrightarrow> store_inv E (apply_goal E e v s)"
  unfolding apply_goal_def Let_def prod.case_eq_if
  by (intro inv_modify_agent inv_goals) (simp_all add: goal_keyed_def)

lemma inv_lesson: "store_inv E s \<Longrightarrow> store_inv E (apply_lesson E e v s)"
  unfolding apply_lesson_def Let_def prod.case_eq_if
  by (intro inv_lessons) (simp_all add: lesson_keyed_def)

lemma outcome_kept [simp]:
  "TaskState.outcome (redefine_task e spec t) = TaskState.outcome t"
  "TaskState.outcome (reflect_task e r t) = TaskState.outcome t"
  "TaskState.outcome (block_task e x t) = TaskState.outcome t"
  by (simp_all add: redefine_task_def reflect_task_def block_task_def)

lemma inv_task_created:
  assumes inv: "store_inv E s" shows "store_inv E (apply_task_created E e spec s)"
proof (cases "task_of E s (envelope_agent e) (TaskSpec.task_id spec)")
  case None
  with inv have "lru_get_mut (tasks_lru E) (StoreInner.tasks s) (scoped_id (envelope_agent e) (TaskSpec.task_id spec)) = None"
    by (simp add: store_inv_def tasks_inv_def caches_wf_def task_of_def T.get_mut_None)
  with None inv show ?thesis
    by (simp add: apply_task_created_def inv_insert_task task_ok_from_spec)
next
  case (Some t)
  have tinv: "tasks_inv E s" using inv by (simp add: store_inv_def)
  show ?thesis
  proof (rule get_mut_task [OF tasks_inv_wf [OF tinv] Some])
    fix w
    assume w: "lru_get_mut (tasks_lru E) (StoreInner.tasks s) (scoped_id (envelope_agent e) (TaskSpec.task_id spec)) = Some (t, w)"
      and "\<And>t'. lru_iter (tasks_lru E) (w t') = (scoped_id (envelope_agent e) (TaskSpec.task_id spec), t') #
        without (scoped_id (envelope_agent e) (TaskSpec.task_id spec)) (lru_iter (tasks_lru E) (StoreInner.tasks s))"
      and "\<And>t'. lru_cap (tasks_lru E) (w t') = lru_cap (tasks_lru E) (StoreInner.tasks s)"
      and "\<And>t'. lru_wf (tasks_lru E) (w t')"
    then have "written s (envelope_agent e) (TaskSpec.task_id spec) (redefine_task e spec t) (w (redefine_task e spec t))"
      by (simp add: written_def)
    from inv_written_same_bucket [OF inv Some this task_ok_redefine [OF task_of_ok [OF tinv Some]]] w
    show ?thesis by (simp add: apply_task_created_def)
  qed
qed

lemma inv_task_started: "store_inv E s \<Longrightarrow> store_inv E (apply_task_started E e v s)"
  unfolding apply_task_started_def Let_def
  by (rule inv_task_event [OF inv_ensure_task])
    (simp_all add: task_ok_start, rule move_remove, simp_all add: start_task_def)

lemma inv_progress:
  "store_inv E s \<Longrightarrow> f32_in_unit (ProgressUpdate.progress v) \<Longrightarrow> store_inv E (apply_progress E e v s)"
  unfolding apply_progress_def Let_def
  by (rule inv_task_event [OF inv_ensure_task])
    (auto simp: task_ok_progress intro!: move_remove, simp_all add: progress_task_def)

lemma inv_completed: "store_inv E s \<Longrightarrow> store_inv E (apply_completed E e v s)"
  unfolding apply_completed_def Let_def
  by (rule inv_task_event [OF inv_ensure_task])
    (simp_all add: task_ok_complete, rule move_reconcile, simp_all add: complete_task_def)

lemma inv_reflection:
  "store_inv E s \<Longrightarrow> f32_in_unit (Reflection.confidence v) \<Longrightarrow> store_inv E (apply_reflection E e v s)"
  unfolding apply_reflection_def Let_def
  by (rule inv_modify_agent)
    (auto split: option.split intro!: inv_modify_task inv_ensure_task task_ok_reflect)

lemma inv_error: "store_inv E s \<Longrightarrow> store_inv E (apply_error E e v s)"
  unfolding apply_error_def Let_def
  by (rule inv_modify_agent)
    (auto split: option.split intro!: inv_modify_task inv_ensure_task task_ok_block)

subsection \<open>The reducer and the operations of the store\<close>

lemma inv_apply_event:
  assumes "store_inv E s" and "validate_envelope e = Inr ()"
  shows "store_inv E (apply_event E e s)"
proof -
  have "store_inv E (modify_agent E (envelope_agent e) (touch_agent e) (ensure_agent E e s))"
    using assms(1) by (intro inv_touch inv_ensure_agent)
  with validate_envelope_event [OF assms(2)] show ?thesis
    by (cases "EventEnvelope.event e")
      (simp_all add: apply_event_def inv_registered inv_heartbeat inv_goal inv_lesson inv_status inv_task_created
        inv_task_started inv_progress inv_completed inv_reflection inv_error validate_progress_def
        validate_reflection_def checks)
qed

end

end
