(* ===== verification/StoreRuns.thy ===== *)
theory StoreRuns
  imports StoreSteps
begin

text \<open>
  The runs of the store: the states reachable from \<open>Store::new\<close> by \<open>ingest\<close> and
  \<open>record_rejection\<close> as an inductive predicate, what an event leaves unchanged (the frame of the
  reducer, the isolation of the agents, the monotonicity of time stamps), and the invariant of
  every reachable state.
\<close>

section \<open>Reachable states\<close>

inductive reachable ::
  "('a, 'g, 't, 'l, 'e, 'i) caches \<Rightarrow> CacheConfig \<Rightarrow> ('a, 'g, 't, 'l, 'e, 'i) StoreInner \<Rightarrow> bool"
  for E cache where
  start: "store_new E cache now = Some s \<Longrightarrow> reachable E cache s"
| ingest: "reachable E cache s \<Longrightarrow> reachable E cache (snd (snd (ingest E ev via now s)))"
| reject: "reachable E cache s \<Longrightarrow> reachable E cache (record_rejection via s)"

definition caps :: "('a, 'g, 't, 'l, 'e, 'i) caches \<Rightarrow> ('a, 'g, 't, 'l, 'e, 'i) StoreInner \<Rightarrow> nat list" where
  "caps E s = [lru_cap (agents_lru E) (StoreInner.agents s), lru_cap (goals_lru E) (StoreInner.goals s),
     lru_cap (tasks_lru E) (StoreInner.tasks s), lru_cap (lessons_lru E) (StoreInner.lessons s),
     lru_cap (events_lru E) (StoreInner.events s), lru_cap (seen_lru E) (seen_event_ids s)]"

section \<open>The frame of the reducer\<close>

text \<open>The part of the state that \<open>ingest\<close> changes itself, outside the reducer.\<close>

definition log_part :: "('a, 'g, 't, 'l, 'e, 'i) StoreInner \<Rightarrow> 'e \<times> 'i \<times> Counters \<times> u64 \<times> DateTime" where
  "log_part s = (StoreInner.events s, seen_event_ids s, StoreInner.counters s, StoreInner.revision s, StoreInner.started_at s)"

lemma log_part_update [simp]:
  "log_part (s\<lparr>StoreInner.agents := x1\<rparr>) = log_part s"
  "log_part (s\<lparr>StoreInner.goals := x2\<rparr>) = log_part s"
  "log_part (s\<lparr>StoreInner.tasks := x3\<rparr>) = log_part s"
  "log_part (s\<lparr>StoreInner.lessons := x4\<rparr>) = log_part s"
  "log_part (s\<lparr>StoreInner.evictions := x5\<rparr>) = log_part s"
  by (simp_all add: log_part_def)

context store_caches
begin

lemma log_part_modify_agent [simp]: "log_part (modify_agent E a f s) = log_part s"
  by (simp add: log_part_def modify_agent_frame)

lemma log_part_modify_task [simp]: "log_part (snd (modify_task E k occ f s)) = log_part s"
  by (auto simp: modify_task_def split: option.splits)

lemma log_part_task_event [simp]:
  "log_part (case modify_task E k occ f s of (None, s2) \<Rightarrow> s2 | (Some p, s2) \<Rightarrow> modify_agent E a (g p) s2) = log_part s"
  using log_part_modify_task [of k occ f s]
  by (auto simp del: log_part_modify_task split: prod.splits option.splits)

lemma log_part_ensure [simp]:
  "log_part (ensure_task E tid a occ s) = log_part s" "log_part (ensure_agent E e s) = log_part s"
  by (simp_all add: log_part_def ensure_task_frame ensure_agent_frame)

lemma log_part_insert_task [simp]: "log_part (insert_task E k t s) = log_part s"
  by (simp add: log_part_def insert_task_frame)

lemma log_part_goal_lesson [simp]:
  "log_part (apply_goal E e g s) = log_part s" "log_part (apply_lesson E e l s) = log_part s"
  by (simp_all add: apply_goal_def apply_lesson_def Let_def prod.case_eq_if)

lemma log_part_apply_event: "log_part (apply_event E e s) = log_part s"
  by (cases "EventEnvelope.event e")
    (simp_all add: apply_event_def apply_registered_def apply_heartbeat_def apply_task_created_def
      apply_task_started_def apply_progress_def apply_reflection_def apply_error_def
      apply_completed_def apply_status_def Let_def
      split: option.split)

section \<open>Capacities\<close>

lemma caps_modify_agent: "caches_wf E s \<Longrightarrow> caps E (modify_agent E a f s) = caps E s"
  by (simp add: caps_def modify_agent_frame agents_cap_modify)

lemma cap_push_with_eviction:
  "lru_cache M \<Longrightarrow> lru_wf M c \<Longrightarrow> lru_cap M (snd (push_with_eviction M c k v)) = lru_cap M c"
  by (simp add: push_with_eviction_snd lru_cache.cap_push)

lemma caps_insert_task: "caches_wf E s \<Longrightarrow> caps E (insert_task E k t s) = caps E s"
proof -
  assume wf: "caches_wf E s"
  obtain d c where p: "push_with_eviction (tasks_lru E) (StoreInner.tasks s) k t = (d, c)" by fastforce
  have "lru_wf (tasks_lru E) c"
    using wf T.wf_push push_with_eviction_snd [of "tasks_lru E" "StoreInner.tasks s" k t] p by (simp add: caches_wf_def)
  with wf have wf': "caches_wf E (s\<lparr>StoreInner.tasks := c, StoreInner.evictions := x\<rparr>)" for x
    by (simp add: caches_wf_def)
  with p have "lru_cap (agents_lru E) (StoreInner.agents (insert_task E k t s)) = lru_cap (agents_lru E) (StoreInner.agents s)"
    by (auto simp: insert_task_def agents_cap_modify split: option.splits)
  then show ?thesis
    using wf by (simp add: caps_def insert_task_frame tasks_cap_insert)
qed

lemma caps_ensure_task: "caches_wf E s \<Longrightarrow> caps E (ensure_task E tid a occ s) = caps E s"
  by (simp add: ensure_task_def caps_insert_task)

lemma caps_ensure_agent: "caches_wf E s \<Longrightarrow> caps E (ensure_agent E e s) = caps E s"
proof (cases "agent_of E s (envelope_agent e)")
  case None
  then show "caches_wf E s \<Longrightarrow> ?thesis"
    by (simp add: caps_def ensure_agent_frame ensure_agent_agents cap_push_with_eviction [OF A.lru_cache_axioms] caches_wf_def)
qed (simp add: ensure_agent_existing)

lemma caps_written: "written s a tid t c \<Longrightarrow> caps E (s\<lparr>StoreInner.tasks := c\<rparr>) = caps E s"
  by (simp add: written_def caps_def)

lemma modify_task_step:
  assumes "caches_wf E s"
  shows "caps E (snd (modify_task E (scoped_id a tid) occ f s)) = caps E s \<and>
    caches_wf E (snd (modify_task E (scoped_id a tid) occ f s))"
proof (cases "task_of E s a tid")
  case None
  with assms show ?thesis by (simp add: modify_task_absent)
next
  case (Some t)
  from modify_task_present [OF assms Some, of occ f] assms caps_written caches_wf_written show ?thesis by fastforce
qed

lemma caps_task_event:
  assumes "caches_wf E s"
  shows "caps E (case modify_task E (scoped_id a tid) occ f s of (None, s2) \<Rightarrow> s2
     | (Some p, s2) \<Rightarrow> modify_agent E a (g p) s2) = caps E s"
  using modify_task_step [OF assms, of a tid occ f] by (auto simp: caps_modify_agent split: prod.splits option.splits)

lemma caches_wf_ensure_task: "caches_wf E s \<Longrightarrow> caches_wf E (ensure_task E tid a occ s)"
  by (simp add: ensure_task_def caches_wf_insert_task)

lemma caps_task_created: "caches_wf E s \<Longrightarrow> caps E (apply_task_created E e spec s) = caps E s"
proof (cases "task_of E s (envelope_agent e) (TaskSpec.task_id spec)")
  case None
  then show "caches_wf E s \<Longrightarrow> ?thesis"
    by (simp add: apply_task_created_def task_of_def caches_wf_def T.get_mut_None)
      (simp add: caps_insert_task caches_wf_def)
next
  case (Some t)
  then show "caches_wf E s \<Longrightarrow> ?thesis"
    by (rule get_mut_task [rotated]) (auto simp: apply_task_created_def caps_def)
qed

lemma caps_goal: "caches_wf E s \<Longrightarrow> caps E (apply_goal E e g s) = caps E s"
  unfolding apply_goal_def Let_def prod.case_eq_if
  by (subst caps_modify_agent) (simp_all add: caches_wf_def caps_def push_with_eviction_snd G.wf_push G.cap_push)

lemma caps_lesson: "caches_wf E s \<Longrightarrow> caps E (apply_lesson E e l s) = caps E s"
  by (simp add: apply_lesson_def Let_def prod.case_eq_if caches_wf_def caps_def push_with_eviction_snd L.cap_push)

lemma caps_apply_event:
  assumes "caches_wf E s" shows "caps E (apply_event E e s) = caps E s"
proof -
  let ?s = "modify_agent E (envelope_agent e) (touch_agent e) (ensure_agent E e s)"
  have wf: "caches_wf E ?s" and caps: "caps E ?s = caps E s"
    using assms by (simp_all add: caches_wf_ensure_agent caches_wf_modify_agent caps_modify_agent caps_ensure_agent)
  show ?thesis
    using wf caps
    by (cases "EventEnvelope.event e")
      (simp_all add: apply_event_def apply_registered_def apply_heartbeat_def caps_goal caps_task_created
        apply_task_started_def apply_progress_def apply_reflection_def caps_lesson apply_error_def
        apply_completed_def apply_status_def Let_def caps_modify_agent caps_task_event
        caps_ensure_task caches_wf_ensure_task modify_task_step split: option.split)
qed

section \<open>What an event does to the tasks\<close>

text \<open>The specification of the reducer on one task: the body each event kind runs on it.\<close>

end

fun task_change :: "EventEnvelope \<Rightarrow> AgentEvent \<Rightarrow> TaskState \<Rightarrow> TaskState" where
  "task_change e (TaskStarted v) t = start_task e v t"
| "task_change e (ProgressUpdated v) t = progress_task e v t"
| "task_change e (ReflectionRecorded v) t = reflect_task e v t"
| "task_change e (ErrorObserved v) t = block_task e v t"
| "task_change e (TaskCompleted v) t = complete_task e v t"
| "task_change e _ t = t"

text \<open>
  A definition replaces the specification of a task, or creates it; any other event creates an
  inferred task if there is none, and applies to a task that is not newer than the event.
\<close>

definition task_step :: "EventEnvelope \<Rightarrow> string \<Rightarrow> TaskState option \<Rightarrow> TaskState" where
  "task_step e tid old =
     (case EventEnvelope.event e of
        TaskCreated spec \<Rightarrow>
          (case old of None \<Rightarrow> task_from_spec spec (envelope_agent e) (EventEnvelope.occurred_at e) False
           | Some t \<Rightarrow> redefine_task e spec t)
      | ev \<Rightarrow>
          (let t = (case old of None \<Rightarrow> task_from_spec (inferred_spec tid) (envelope_agent e) (EventEnvelope.occurred_at e) True
                    | Some t \<Rightarrow> t)
           in if updated_at t \<le> EventEnvelope.occurred_at e then task_change e ev t else t))"

text \<open>The task an event may write: a lesson names a source task but leaves it alone.\<close>

definition written_task :: "AgentEvent \<Rightarrow> string option" where
  "written_task ev = (case ev of LessonLearned _ \<Rightarrow> None | _ \<Rightarrow> event_task_id ev)"

definition others_kept ::
  "('a, 'g, 't, 'l, 'e, 'i) caches \<Rightarrow> (string \<times> string) option \<Rightarrow>
   ('a, 'g, 't, 'l, 'e, 'i) StoreInner \<Rightarrow> ('a, 'g, 't, 'l, 'e, 'i) StoreInner \<Rightarrow> bool" where
  "others_kept E own s s' \<longleftrightarrow>
     (\<forall>b k. own \<noteq> Some (b, k) \<longrightarrow> task_of E s' b k = task_of E s b k \<or> task_of E s' b k = None)"

lemma others_kept_refl [simp]: "StoreInner.tasks s' = StoreInner.tasks s \<Longrightarrow> others_kept E own s s'"
  by (simp add: others_kept_def task_of_def)

lemma others_kept_trans: "others_kept E own s s1 \<Longrightarrow> others_kept E own s1 s2 \<Longrightarrow> others_kept E own s s2"
  unfolding others_kept_def by metis

lemma others_kept_tasks:
  "StoreInner.tasks s1 = StoreInner.tasks s \<Longrightarrow> StoreInner.tasks s2 = StoreInner.tasks s' \<Longrightarrow>
   others_kept E own s1 s2 = others_kept E own s s'"
  by (simp add: others_kept_def task_of_def)

context store_caches
begin

lemma others_kept_insert:
  assumes wf: "caches_wf E s" and new: "task_of E s a tid = None"
  shows "others_kept E (Some (a, tid)) s (insert_task E (scoped_id a tid) t s)"
proof -
  have "lru_wf (tasks_lru E) (StoreInner.tasks s)" using wf by (simp add: caches_wf_def)
  from push_with_eviction_new [OF T.lru_cache_axioms this new [unfolded task_of_def], of t]
  have "map_of (lru_iter (tasks_lru E) (StoreInner.tasks (insert_task E (scoped_id a tid) t s))) (scoped_id b k) \<in>
      {map_of (lru_iter (tasks_lru E) (StoreInner.tasks s)) (scoped_id b k), None}" if "(a, tid) \<noteq> (b, k)" for b k
    using that
    by (auto simp: insert_task_def modify_agent_frame map_add_def split: option.splits)
  then show ?thesis by (auto simp: others_kept_def task_of_def)
qed

lemma others_kept_ensure:
  "caches_wf E s \<Longrightarrow> others_kept E (Some (a, tid)) s (ensure_task E tid a occ s)"
  by (cases "task_of E s a tid") (simp_all add: ensure_task_existing ensure_task_missing others_kept_insert)

lemma modify_task_effect:
  assumes wf: "caches_wf E s" and t: "task_of E s a tid = Some t"
  shows "task_of E (snd (modify_task E (scoped_id a tid) occ f s)) b k =
    (if b = a \<and> k = tid then Some (if updated_at t \<le> occ then f t else t) else task_of E s b k)"
  using modify_task_present [OF assms, of occ f] by (auto simp: task_of_written)

lemma task_of_modify_agent_case:
  "task_of E (case modify_task E k occ f s of (None, s2) \<Rightarrow> s2 | (Some p, s2) \<Rightarrow> modify_agent E a (g p) s2) =
   task_of E (snd (modify_task E k occ f s))"
  by (auto simp: task_of_modify_agent split: prod.splits option.splits)

lemma ensure_modify_effect:
  fixes tid a :: string and occ :: DateTime
  assumes wf: "caches_wf E s"
  defines "s1 \<equiv> ensure_task E tid a occ s"
  defines "t \<equiv> (case task_of E s a tid of None \<Rightarrow> task_from_spec (inferred_spec tid) a occ True | Some t \<Rightarrow> t)"
  shows "task_of E (snd (modify_task E (scoped_id a tid) occ f s1)) a tid =
      Some (if updated_at t \<le> occ then f t else t)"
    and "others_kept E (Some (a, tid)) s (snd (modify_task E (scoped_id a tid) occ f s1))"
proof -
  have t: "task_of E s1 a tid = Some t"
    unfolding s1_def t_def by (rule task_of_ensure [OF wf])
  note effect = modify_task_effect [OF caches_wf_ensure_task [OF wf, of tid a occ, folded s1_def] t, of occ f]
  show "task_of E (snd (modify_task E (scoped_id a tid) occ f s1)) a tid = Some (if updated_at t \<le> occ then f t else t)"
    by (simp add: effect)
  have "others_kept E (Some (a, tid)) s1 (snd (modify_task E (scoped_id a tid) occ f s1))"
    by (auto simp: others_kept_def effect)
  with others_kept_ensure [OF wf] show "others_kept E (Some (a, tid)) s (snd (modify_task E (scoped_id a tid) occ f s1))"
    unfolding s1_def by (rule others_kept_trans)
qed

lemma task_created_effect:
  fixes e :: EventEnvelope and spec :: TaskSpec
  assumes wf: "caches_wf E s"
  defines "a \<equiv> envelope_agent e" and "tid \<equiv> TaskSpec.task_id spec"
  shows "task_of E (apply_task_created E e spec s) a tid =
      Some (case task_of E s a tid of None \<Rightarrow> task_from_spec spec a (EventEnvelope.occurred_at e) False
            | Some t \<Rightarrow> redefine_task e spec t) \<and>
    others_kept E (Some (a, tid)) s (apply_task_created E e spec s)"
proof (cases "task_of E s a tid")
  case None
  with wf have "lru_get_mut (tasks_lru E) (StoreInner.tasks s) (scoped_id a tid) = None"
    by (simp add: caches_wf_def task_of_def T.get_mut_None)
  with None wf show ?thesis
    by (simp add: apply_task_created_def a_def tid_def task_of_insert_self others_kept_insert)
next
  case (Some t)
  show ?thesis
  proof (rule get_mut_task [OF wf Some])
    fix w
    assume w: "lru_get_mut (tasks_lru E) (StoreInner.tasks s) (scoped_id a tid) = Some (t, w)"
      and "\<And>t'. lru_iter (tasks_lru E) (w t') = (scoped_id a tid, t') # without (scoped_id a tid) (lru_iter (tasks_lru E) (StoreInner.tasks s))"
      and "\<And>t'. lru_cap (tasks_lru E) (w t') = lru_cap (tasks_lru E) (StoreInner.tasks s)"
      and "\<And>t'. lru_wf (tasks_lru E) (w t')"
    then have "written s a tid t' (w t')" for t' by (simp add: written_def)
    from task_of_written [OF this] w Some show ?thesis
      by (auto simp: apply_task_created_def a_def tid_def others_kept_def)
  qed
qed

lemma tasks_other_events [simp]:
  "StoreInner.tasks (apply_registered E e v1 s) = StoreInner.tasks s"
  "StoreInner.tasks (apply_heartbeat E e v2 s) = StoreInner.tasks s"
  "StoreInner.tasks (apply_goal E e v3 s) = StoreInner.tasks s"
  "StoreInner.tasks (apply_lesson E e v4 s) = StoreInner.tasks s"
  "StoreInner.tasks (apply_status E e v5 s) = StoreInner.tasks s"
  by (simp_all add: apply_registered_def apply_heartbeat_def apply_goal_def apply_lesson_def apply_status_def
      modify_agent_frame Let_def prod.case_eq_if)

lemma others_kept_modify_agent: "others_kept E own s (modify_agent E a f s') = others_kept E own s s'"
  by (rule others_kept_tasks) (simp_all add: modify_agent_frame)

lemma others_kept_case:
  "others_kept E own s (case modify_task E k occ f s1 of (None, s2) \<Rightarrow> s2 | (Some p, s2) \<Rightarrow> modify_agent E a (g p) s2) =
   others_kept E own s (snd (modify_task E k occ f s1))"
  by (simp add: others_kept_def task_of_modify_agent_case)

text \<open>The reducer implements the specification on the task of the event and keeps every other task, or evicts it.\<close>

lemma apply_event_tasks:
  fixes e :: EventEnvelope
  assumes wf: "caches_wf E s"
  defines "a \<equiv> envelope_agent e"
  shows "others_kept E (map_option (Pair a) (written_task (EventEnvelope.event e))) s (apply_event E e s) \<and>
    (\<forall>tid. written_task (EventEnvelope.event e) = Some tid \<longrightarrow>
       task_of E (apply_event E e s) a tid = Some (task_step e tid (task_of E s a tid)))"
proof -
  define s1 where "s1 = modify_agent E a (touch_agent e) (ensure_agent E e s)"
  have wf1: "caches_wf E s1"
    using wf by (simp add: s1_def caches_wf_ensure_agent caches_wf_modify_agent)
  have t1: "StoreInner.tasks s1 = StoreInner.tasks s"
    by (simp add: s1_def modify_agent_frame ensure_agent_frame)
  then have of1: "task_of E s1 = task_of E s" and kept1: "others_kept E own s x = others_kept E own s1 x" for own x
    by (simp_all add: task_of_def fun_eq_iff others_kept_def)
  note effects = ensure_modify_effect [OF wf1] task_created_effect [OF wf1, of e, folded a_def]
  show ?thesis
    unfolding kept1
    by (cases "EventEnvelope.event e")
      (auto simp: apply_event_def a_def [symmetric] s1_def [symmetric] Let_def written_task_def task_step_def of1 [symmetric]
        apply_task_started_def apply_progress_def apply_reflection_def apply_error_def apply_completed_def
        task_of_modify_agent task_of_modify_agent_case others_kept_case others_kept_modify_agent
        effects split: option.split)
qed

end

section \<open>What an event does to the agents\<close>

text \<open>Equality of agents up to the completion counters.\<close>

definition agent_same :: "AgentState \<Rightarrow> AgentState \<Rightarrow> bool" where
  "agent_same st st' \<longleftrightarrow>
     st\<lparr>completed_tasks := 0, failed_tasks := 0\<rparr> = st'\<lparr>completed_tasks := 0, failed_tasks := 0\<rparr>"

definition agents_kept ::
  "('a, 'g, 't, 'l, 'e, 'i) caches \<Rightarrow> string \<Rightarrow>
   ('a, 'g, 't, 'l, 'e, 'i) StoreInner \<Rightarrow> ('a, 'g, 't, 'l, 'e, 'i) StoreInner \<Rightarrow> bool" where
  "agents_kept E a s s' \<longleftrightarrow>
     (\<forall>b st'. b \<noteq> a \<longrightarrow> agent_of E s' b = Some st' \<longrightarrow> (\<exists>st. agent_of E s b = Some st \<and> agent_same st st'))"

definition identified ::
  "('a, 'g, 't, 'l, 'e, 'i) caches \<Rightarrow> AgentRef \<Rightarrow> DateTime \<Rightarrow> ('a, 'g, 't, 'l, 'e, 'i) StoreInner \<Rightarrow> bool" where
  "identified E r seen s \<longleftrightarrow>
     (\<exists>st. agent_of E s (AgentRef.agent_id r) = Some st \<and> AgentState.agent st = r \<and> last_seen_at st = seen)"

lemma agent_same_refl [simp]: "agent_same st st"
  by (simp add: agent_same_def)

lemma agent_same_remove [simp]: "agent_same st (remove_completion_counter p st)"
  by (auto simp: agent_same_def remove_completion_counter_def split: option.splits CompletionBucket.splits)

lemma last_seen_remove [simp]: "last_seen_at (remove_completion_counter p st) = last_seen_at st"
  by (auto simp: remove_completion_counter_def split: option.splits CompletionBucket.splits)

lemma last_seen_reconcile [simp]: "last_seen_at (reconcile_completion_counters p r st) = last_seen_at st"
  by (auto simp: reconcile_completion_counters_def Let_def split: CompletionBucket.splits)

lemma agent_same_trans: "agent_same x y \<Longrightarrow> agent_same y z \<Longrightarrow> agent_same x z"
  by (simp add: agent_same_def)

lemma agents_kept_trans: "agents_kept E a s s1 \<Longrightarrow> agents_kept E a s1 s2 \<Longrightarrow> agents_kept E a s s2"
  unfolding agents_kept_def
proof (intro allI impI)
  fix b st'
  assume k1: "\<forall>b st'. b \<noteq> a \<longrightarrow> agent_of E s1 b = Some st' \<longrightarrow> (\<exists>st. agent_of E s b = Some st \<and> agent_same st st')"
    and k2: "\<forall>b st'. b \<noteq> a \<longrightarrow> agent_of E s2 b = Some st' \<longrightarrow> (\<exists>st. agent_of E s1 b = Some st \<and> agent_same st st')"
    and b: "b \<noteq> a" and "agent_of E s2 b = Some st'"
  then obtain st1 where "agent_of E s1 b = Some st1" "agent_same st1 st'" by blast
  moreover with k1 b obtain st where "agent_of E s b = Some st" "agent_same st st1" by blast
  ultimately show "\<exists>st. agent_of E s b = Some st \<and> agent_same st st'" by (blast dest: agent_same_trans)
qed

lemma agents_kept_eq: "StoreInner.agents s' = StoreInner.agents s \<Longrightarrow> agents_kept E a s s'"
  by (simp add: agents_kept_def agent_of_def)

text \<open>A step that keeps the other agents and the identity of its own.\<close>

definition agent_step ::
  "('a, 'g, 't, 'l, 'e, 'i) caches \<Rightarrow> AgentRef \<Rightarrow> DateTime \<Rightarrow>
   ('a, 'g, 't, 'l, 'e, 'i) StoreInner \<Rightarrow> ('a, 'g, 't, 'l, 'e, 'i) StoreInner \<Rightarrow> bool" where
  "agent_step E r seen s s' \<longleftrightarrow>
     agents_kept E (AgentRef.agent_id r) s s' \<and> (identified E r seen s \<longrightarrow> identified E r seen s') \<and> caches_wf E s'"

lemma agent_step_trans: "agent_step E r seen s s1 \<Longrightarrow> agent_step E r seen s1 s2 \<Longrightarrow> agent_step E r seen s s2"
  unfolding agent_step_def using agents_kept_trans by blast

context store_caches
begin

lemma agent_step_eq: "StoreInner.agents s' = StoreInner.agents s \<Longrightarrow> caches_wf E s' \<Longrightarrow> agent_step E r seen s s'"
  by (simp add: agent_step_def agents_kept_eq identified_def agent_of_def)

lemma agent_step_modify:
  assumes "caches_wf E s" and "\<And>st. AgentState.agent (f st) = AgentState.agent st" and "\<And>st. last_seen_at (f st) = last_seen_at st"
    and "a = AgentRef.agent_id r \<or> (\<forall>st. agent_same st (f st))"
  shows "agent_step E r seen s (modify_agent E a f s)"
  using assms by (auto simp: agent_step_def agents_kept_def identified_def agent_of_modify caches_wf_modify_agent split: if_splits)

lemma agent_step_then_modify:
  assumes "agent_step E r seen s s1" and "\<And>st. AgentState.agent (f st) = AgentState.agent st"
    and "\<And>st. last_seen_at (f st) = last_seen_at st"
  shows "agent_step E r seen s (modify_agent E (AgentRef.agent_id r) f s1)"
  by (rule agent_step_trans [OF assms(1) agent_step_modify]) (use assms in \<open>simp_all add: agent_step_def\<close>)

lemma agent_step_insert:
  assumes wf: "caches_wf E s" shows "agent_step E r seen s (insert_task E k t s)"
proof (cases "push_with_eviction (tasks_lru E) (StoreInner.tasks s) k t")
  case (Pair d c)
  have "lru_wf (tasks_lru E) c"
    using wf T.wf_push push_with_eviction_snd [of "tasks_lru E" "StoreInner.tasks s" k t] Pair by (simp add: caches_wf_def)
  with wf have wf': "caches_wf E (s\<lparr>StoreInner.tasks := c, StoreInner.evictions := x\<rparr>)" "caches_wf E (s\<lparr>StoreInner.tasks := c\<rparr>)" for x
    by (simp_all add: caches_wf_def)
  show ?thesis
  proof (cases d)
    case None
    with Pair wf' show ?thesis by (simp add: insert_task_def agent_step_eq)
  next
    case (Some v)
    let ?s = "s\<lparr>StoreInner.tasks := c, StoreInner.evictions := (StoreInner.evictions s)
       \<lparr>EvictionCounters.tasks := sat_add (EvictionCounters.tasks (StoreInner.evictions s)) 1\<rparr>\<rparr>"
    have "agent_step E r seen s ?s" using wf' by (intro agent_step_eq) simp_all
    moreover have "agent_step E r seen ?s (modify_agent E (TaskState.agent_id v) (remove_completion_counter (TaskState.outcome v)) ?s)"
      using wf' by (intro agent_step_modify) simp_all
    ultimately show ?thesis
      using Pair Some by (auto simp: insert_task_def intro: agent_step_trans)
  qed
qed

lemma agent_step_ensure: "caches_wf E s \<Longrightarrow> agent_step E r seen s (ensure_task E tid a occ s)"
  by (simp add: ensure_task_def agent_step_insert agent_step_eq)

lemma modify_task_agents: "StoreInner.agents (snd (modify_task E k occ f s)) = StoreInner.agents s"
  by (auto simp: modify_task_def split: option.splits)

lemma agent_step_task:
  assumes "caches_wf E s"
  shows "agent_step E r seen s (snd (modify_task E (scoped_id a tid) occ f (ensure_task E tid a occ s)))"
  by (rule agent_step_trans [OF agent_step_ensure [OF assms] agent_step_eq])
    (simp_all add: modify_task_agents modify_task_step caches_wf_ensure_task assms)

lemma agent_step_case:
  assumes "caches_wf E s" and "\<And>p st. AgentState.agent (g p st) = AgentState.agent st"
    and "\<And>p st. last_seen_at (g p st) = last_seen_at st"
  shows "agent_step E r seen s
    (case modify_task E (scoped_id (AgentRef.agent_id r) tid) occ f (ensure_task E tid (AgentRef.agent_id r) occ s) of
       (None, s2) \<Rightarrow> s2 | (Some p, s2) \<Rightarrow> modify_agent E (AgentRef.agent_id r) (g p) s2)"
proof -
  let ?m = "modify_task E (scoped_id (AgentRef.agent_id r) tid) occ f (ensure_task E tid (AgentRef.agent_id r) occ s)"
  have step: "agent_step E r seen s (snd ?m)" by (rule agent_step_task [OF assms(1)])
  with agent_step_then_modify [OF step, of "g p" for p] assms(2,3) show ?thesis
    by (cases ?m) (auto split: option.splits)
qed

lemma agent_step_created: "caches_wf E s \<Longrightarrow> agent_step E r seen s (apply_task_created E e spec s)"
proof (cases "task_of E s (envelope_agent e) (TaskSpec.task_id spec)")
  case None
  then show "caches_wf E s \<Longrightarrow> ?thesis"
    by (simp add: apply_task_created_def task_of_def caches_wf_def T.get_mut_None)
      (simp add: agent_step_insert caches_wf_def)
next
  case (Some t)
  then show "caches_wf E s \<Longrightarrow> ?thesis"
    by (rule get_mut_task [rotated]) (auto simp: apply_task_created_def caches_wf_def intro!: agent_step_eq)
qed

lemma agent_step_event:
  fixes e :: EventEnvelope
  assumes wf: "caches_wf E s"
  defines "r \<equiv> EventEnvelope.agent e"
  shows "agent_step E r seen s (case EventEnvelope.event e of
           AgentRegistered v \<Rightarrow> apply_registered E e v s | Heartbeat v \<Rightarrow> apply_heartbeat E e v s
         | GoalDeclared v \<Rightarrow> apply_goal E e v s | TaskCreated v \<Rightarrow> apply_task_created E e v s
         | TaskStarted v \<Rightarrow> apply_task_started E e v s | ProgressUpdated v \<Rightarrow> apply_progress E e v s
         | ReflectionRecorded v \<Rightarrow> apply_reflection E e v s | LessonLearned v \<Rightarrow> apply_lesson E e v s
         | ErrorObserved v \<Rightarrow> apply_error E e v s | TaskCompleted v \<Rightarrow> apply_completed E e v s
         | AgentStatusChanged v \<Rightarrow> apply_status E e v s)"
proof (cases "EventEnvelope.event e")
  case (GoalDeclared v)
  let ?push = "\<lambda>k g x. s\<lparr>StoreInner.goals := snd (push_with_eviction (goals_lru E) (StoreInner.goals s) k g),
      StoreInner.evictions := x\<rparr>"
  have step: "agent_step E r seen s (?push k g x)" for k g x
    using wf by (intro agent_step_eq) (simp_all add: caches_wf_def push_with_eviction_snd G.wf_push)
  show ?thesis
    unfolding GoalDeclared AgentEvent.case apply_goal_def Let_def prod.case_eq_if r_def
    by (rule agent_step_then_modify [OF step [unfolded r_def]]) simp_all
next
  case (LessonLearned v)
  with wf show ?thesis
    by (auto simp: apply_lesson_def Let_def prod.case_eq_if caches_wf_def push_with_eviction_snd L.wf_push intro!: agent_step_eq)
next
  case (ReflectionRecorded v)
  show ?thesis
    unfolding ReflectionRecorded AgentEvent.case apply_reflection_def Let_def r_def
    by (rule agent_step_then_modify) (auto simp: wf agent_step_task agent_step_eq split: option.split)
next
  case (ErrorObserved v)
  show ?thesis
    unfolding ErrorObserved AgentEvent.case apply_error_def Let_def r_def
    by (rule agent_step_then_modify) (auto simp: wf agent_step_task agent_step_eq split: option.split)
qed (use wf in \<open>auto simp: r_def apply_registered_def apply_heartbeat_def apply_status_def apply_task_started_def
  apply_progress_def apply_completed_def Let_def agent_step_created intro!: agent_step_modify agent_step_case\<close>)

lemma apply_event_agents:
  assumes wf: "caches_wf E s"
  shows "identified E (EventEnvelope.agent e)
      (case agent_of E s (envelope_agent e) of None \<Rightarrow> EventEnvelope.occurred_at e
       | Some old \<Rightarrow> max (last_seen_at old) (EventEnvelope.occurred_at e)) (apply_event E e s) \<and>
    agents_kept E (envelope_agent e) s (apply_event E e s)"
proof -
  let ?s = "modify_agent E (envelope_agent e) (touch_agent e) (ensure_agent E e s)"
  let ?seen = "case agent_of E s (envelope_agent e) of None \<Rightarrow> EventEnvelope.occurred_at e
       | Some old \<Rightarrow> max (last_seen_at old) (EventEnvelope.occurred_at e)"
  have wf0: "caches_wf E (ensure_agent E e s)" using wf by (rule caches_wf_ensure_agent)
  have "agents_kept E (envelope_agent e) s ?s"
    using agent_of_ensure_other [OF wf] by (auto simp: agents_kept_def agent_of_modify [OF wf0])
  moreover have "identified E (EventEnvelope.agent e) ?seen ?s"
    by (simp add: identified_def agent_of_modify [OF wf0] agent_of_ensure [OF wf] touch_agent_def Let_def fresh_agent_def
        split: option.split)
  ultimately show ?thesis
    using agent_step_event [OF caches_wf_modify_agent [OF wf0], of e _ "envelope_agent e" "touch_agent e"]
    by (auto simp: apply_event_def Let_def agent_step_def intro: agents_kept_trans)
qed

end

end
