(* ===== verification/StoreIngest.thy ===== *)
theory StoreIngest
  imports StoreRuns
begin

text \<open>
  \<open>Store::ingest\<close> on its three branches (invalid, known, new), the invariant of every reachable
  state, and the facts about acknowledgements, revisions and retries.
\<close>

definition seen_of ::
  "('a, 'g, 't, 'l, 'e, 'i) caches \<Rightarrow> ('a, 'g, 't, 'l, 'e, 'i) StoreInner \<Rightarrow> Uuid \<Rightarrow> u64 option" where
  "seen_of E s u = map_of (lru_iter (seen_lru E) (seen_event_ids s)) u"

definition event_of ::
  "('a, 'g, 't, 'l, 'e, 'i) caches \<Rightarrow> ('a, 'g, 't, 'l, 'e, 'i) StoreInner \<Rightarrow> Uuid \<Rightarrow> EventRecord option" where
  "event_of E s u = map_of (lru_iter (events_lru E) (StoreInner.events s)) u"

text \<open>The part of the state that readers see, without the counters.\<close>

definition projection ::
  "('a, 'g, 't, 'l, 'e, 'i) StoreInner \<Rightarrow> 'a \<times> 'g \<times> 't \<times> 'l \<times> 'e \<times> EvictionCounters \<times> u64 \<times> DateTime" where
  "projection s = (StoreInner.agents s, StoreInner.goals s, StoreInner.tasks s, StoreInner.lessons s,
     StoreInner.events s, StoreInner.evictions s, StoreInner.revision s, StoreInner.started_at s)"

definition config_caps :: "CacheConfig \<Rightarrow> nat list" where
  "config_caps cache = [CacheConfig.agents cache, CacheConfig.goals cache, CacheConfig.tasks cache,
     CacheConfig.lessons cache, CacheConfig.events cache, CacheConfig.idempotency cache]"

text \<open>Values stored under their own keys are distinct when the keys are.\<close>

lemma distinct_keyed:
  assumes "distinct (map fst xs)" and "\<And>k v. (k, v) \<in> set xs \<Longrightarrow> k = f (g v)"
  shows "distinct (map g (map snd xs))"
proof -
  have "map fst xs = map f (map g (map snd xs))" using assms(2) by auto
  with assms(1) have "distinct (map f (map g (map snd xs)))" by simp
  then show ?thesis by (simp only: distinct_map)
qed

lemma distinct_keyed_tasks:
  "distinct (map fst xs) \<Longrightarrow> list_all task_ok xs \<Longrightarrow>
   distinct (map (\<lambda>x. (TaskState.agent_id x, TaskSpec.task_id (TaskState.task x))) (map snd xs))"
  by (rule distinct_keyed [where f = "\<lambda>(a, t). scoped_id a t"]) (auto simp: task_ok_def task_keyed_def list_all_iff)

lemma distinct_keyed_agents:
  "distinct (map fst xs) \<Longrightarrow> list_all agent_keyed xs \<Longrightarrow>
   distinct (map (\<lambda>x. AgentRef.agent_id (AgentState.agent x)) (map snd xs))"
  by (rule distinct_keyed [where f = id]) (auto simp: agent_keyed_def list_all_iff)

context store_caches
begin

section \<open>The three branches\<close>

lemma ingest_invalid:
  "validate_envelope ev = Inl err \<Longrightarrow> ingest E ev via now s = (Inl (Validation err), None, record_rejection via s)"
  by (simp add: ingest_def)

lemma seen_lookup:
  assumes wf: "caches_wf E s"
  obtains c where "lru_get (seen_lru E) (seen_event_ids s) u = (seen_of E s u, c)" and "lru_wf (seen_lru E) c"
    and "lru_cap (seen_lru E) c = lru_cap (seen_lru E) (seen_event_ids s)"
    and "\<And>v. map_of (lru_iter (seen_lru E) c) v = seen_of E s v"
proof -
  have wfs: "lru_wf (seen_lru E) (seen_event_ids s)" using wf by (simp add: caches_wf_def)
  have "map_of (without u xs) v = (if v = u then None else map_of xs v)" for xs :: "(Uuid \<times> u64) list" and v
    by (induction xs) auto
  then have "map_of (lru_iter (seen_lru E) (snd (lru_get (seen_lru E) (seen_event_ids s) u))) v = seen_of E s v" for v
    using I.get_moves [OF wfs, of u] I.get_absent [OF wfs, of u] by (cases "seen_of E s u") (auto simp: seen_of_def)
  with wfs show ?thesis
    by (intro that [of "snd (lru_get (seen_lru E) (seen_event_ids s) u)"])
      (auto simp: prod_eq_iff I.get_result I.wf_get I.cap_get seen_of_def)
qed

lemma ingest_known:
  assumes wf: "caches_wf E s" and valid: "validate_envelope ev = Inr ()"
    and known: "seen_of E s (EventEnvelope.event_id ev) = Some r"
  shows "\<exists>c. ingest E ev via now s =
    (Inr \<lparr>IngestAck.accepted = True, duplicate = True, event_id = EventEnvelope.event_id ev,
          revision = StoreInner.revision s, transport = via, received_at = now\<rparr>, None,
     s\<lparr>seen_event_ids := c, StoreInner.counters := (StoreInner.counters s)
       \<lparr>Counters.duplicate := sat_add (Counters.duplicate (StoreInner.counters s)) 1\<rparr>\<rparr>) \<and>
    lru_wf (seen_lru E) c \<and> lru_cap (seen_lru E) c = lru_cap (seen_lru E) (seen_event_ids s) \<and>
    (\<forall>v. map_of (lru_iter (seen_lru E) c) v = seen_of E s v)"
  by (rule seen_lookup [OF wf, of "EventEnvelope.event_id ev"])
    (auto simp: ingest_def valid known ingest_duplicate_def)

lemma ingest_fresh:
  assumes wf: "caches_wf E s" and valid: "validate_envelope ev = Inr ()"
    and fresh: "seen_of E s (EventEnvelope.event_id ev) = None"
  shows "\<exists>c. lru_wf (seen_lru E) c \<and> lru_cap (seen_lru E) c = lru_cap (seen_lru E) (seen_event_ids s) \<and>
    (\<forall>v. map_of (lru_iter (seen_lru E) c) v = seen_of E s v) \<and>
    ingest E ev via now s = (let (ack, update, s') = ingest_new E ev via now (s\<lparr>seen_event_ids := c\<rparr>)
                             in (Inr ack, Some update, s'))"
  by (rule seen_lookup [OF wf, of "EventEnvelope.event_id ev"])
    (auto simp: ingest_def valid fresh)

section \<open>The state after a new event\<close>

lemma ingest_new_state:
  fixes s ev via now
  defines "s' \<equiv> snd (snd (ingest_new E ev via now s))" and "s1 \<equiv> apply_event E ev s"
  shows "StoreInner.agents s' = StoreInner.agents s1" "StoreInner.goals s' = StoreInner.goals s1"
    "StoreInner.tasks s' = StoreInner.tasks s1" "StoreInner.lessons s' = StoreInner.lessons s1"
    "StoreInner.revision s' = sat_add (StoreInner.revision s) 1"
    "StoreInner.started_at s' = StoreInner.started_at s"
    "StoreInner.counters s' = (StoreInner.counters s)
       \<lparr>Counters.accepted := sat_add (Counters.accepted (StoreInner.counters s)) 1,
        accepted_by_transport := bt_update (transport_as_str via) 0 (\<lambda>n. n + 1)
          (accepted_by_transport (StoreInner.counters s))\<rparr>"
    "seen_event_ids s' = snd (push_with_eviction (seen_lru E) (seen_event_ids s) (EventEnvelope.event_id ev)
       (sat_add (StoreInner.revision s) 1))"
    "StoreInner.events s' = snd (push_with_eviction (events_lru E) (StoreInner.events s) (EventEnvelope.event_id ev)
       \<lparr>EventRecord.event = ev, transport = via, received_at = now\<rparr>)"
  using log_part_apply_event [of ev s]
  by (simp_all add: s'_def s1_def ingest_new_def Let_def prod.case_eq_if log_part_def)

lemma ingest_new_ack:
  "fst (ingest_new E ev via now s) =
     \<lparr>IngestAck.accepted = True, duplicate = False, event_id = EventEnvelope.event_id ev,
      revision = sat_add (StoreInner.revision s) 1, transport = via, received_at = now\<rparr>"
  "fst (snd (ingest_new E ev via now s)) =
     \<lparr>StoreUpdate.revision = sat_add (StoreInner.revision s) 1, event_id = EventEnvelope.event_id ev,
      kind = event_kind (EventEnvelope.event ev), agent_id = envelope_agent ev,
      task_id = event_task_id (EventEnvelope.event ev), transport = via, received_at = now\<rparr>"
  using log_part_apply_event [of ev s]
  by (simp_all add: ingest_new_def Let_def prod.case_eq_if log_part_def)

text \<open>The invariant and the capacities speak of the caches only.\<close>

lemma inv_transfer:
  assumes "store_inv E s1" "StoreInner.agents s' = StoreInner.agents s1" "StoreInner.goals s' = StoreInner.goals s1"
    "StoreInner.tasks s' = StoreInner.tasks s1" "StoreInner.lessons s' = StoreInner.lessons s1"
    "lru_wf (events_lru E) (StoreInner.events s')" "list_all event_keyed (lru_iter (events_lru E) (StoreInner.events s'))"
    "lru_wf (seen_lru E) (seen_event_ids s')"
  shows "store_inv E s'"
  using assms by (simp add: store_inv_def tasks_inv_def caches_wf_def counters_exact_def agent_of_def retained_tasks_def)

lemma inv_ingest_new:
  assumes inv: "store_inv E s" and valid: "validate_envelope ev = Inr ()"
  shows "store_inv E (snd (snd (ingest_new E ev via now s)))"
proof (rule inv_transfer [OF inv_apply_event [OF inv valid]])
  have wf: "lru_wf (events_lru E) (StoreInner.events s)" "lru_wf (seen_lru E) (seen_event_ids s)"
    and keyed: "list_all event_keyed (lru_iter (events_lru E) (StoreInner.events s))"
    using inv by (simp_all add: store_inv_def tasks_inv_def caches_wf_def)
  from wf show "lru_wf (events_lru E) (StoreInner.events (snd (snd (ingest_new E ev via now s))))"
    and "lru_wf (seen_lru E) (seen_event_ids (snd (snd (ingest_new E ev via now s))))"
    by (simp_all add: ingest_new_state push_with_eviction_snd V.wf_push I.wf_push)
  show "list_all event_keyed (lru_iter (events_lru E) (StoreInner.events (snd (snd (ingest_new E ev via now s)))))"
    unfolding ingest_new_state by (rule push_keeps [OF V.lru_cache_axioms wf(1) keyed]) (simp add: event_keyed_def)
qed (simp_all add: ingest_new_state)

lemma inv_seen: "store_inv E s \<Longrightarrow> lru_wf (seen_lru E) c \<Longrightarrow> store_inv E (s\<lparr>seen_event_ids := c\<rparr>)"
  by (rule inv_transfer) (simp_all add: store_inv_def tasks_inv_def caches_wf_def)

lemma inv_counters: "store_inv E s \<Longrightarrow> store_inv E (s\<lparr>StoreInner.counters := x\<rparr>)"
  by (rule inv_transfer) (simp_all add: store_inv_def tasks_inv_def caches_wf_def)

lemma inv_rejection: "store_inv E s \<Longrightarrow> store_inv E (record_rejection via s)"
  by (simp add: record_rejection_def inv_counters)

lemma store_inv_wf: "store_inv E s \<Longrightarrow> caches_wf E s"
  by (simp add: store_inv_def tasks_inv_def)

lemma inv_ingest:
  assumes inv: "store_inv E s" shows "store_inv E (snd (snd (ingest E ev via now s)))"
proof (cases "validate_envelope ev")
  case (Inl err)
  with inv show ?thesis by (simp add: ingest_invalid inv_rejection)
next
  case (Inr u)
  then have valid: "validate_envelope ev = Inr ()" by simp
  show ?thesis
  proof (cases "seen_of E s (EventEnvelope.event_id ev)")
    case None
    from ingest_fresh [OF store_inv_wf [OF inv] valid None, of via now] inv show ?thesis
      by (auto simp: Let_def prod.case_eq_if intro!: inv_ingest_new inv_seen valid)
  next
    case (Some r)
    from ingest_known [OF store_inv_wf [OF inv] valid Some, of via now] inv show ?thesis
      by (auto intro!: inv_counters inv_seen)
  qed
qed

section \<open>Capacities along a run\<close>

lemma caps_ingest_new:
  "caches_wf E s \<Longrightarrow> caps E (snd (snd (ingest_new E ev via now s))) = caps E s"
  using caps_apply_event [of s ev] log_part_apply_event [of ev s]
  by (simp add: caps_def ingest_new_state push_with_eviction_snd V.cap_push I.cap_push caches_wf_def log_part_def)

lemma caps_ingest:
  assumes wf: "caches_wf E s" shows "caps E (snd (snd (ingest E ev via now s))) = caps E s"
proof (cases "validate_envelope ev")
  case (Inl err)
  then show ?thesis by (simp add: ingest_invalid record_rejection_def caps_def)
next
  case (Inr u)
  then have valid: "validate_envelope ev = Inr ()" by simp
  show ?thesis
  proof (cases "seen_of E s (EventEnvelope.event_id ev)")
    case None
    obtain c where c: "lru_wf (seen_lru E) c" "lru_cap (seen_lru E) c = lru_cap (seen_lru E) (seen_event_ids s)"
      "snd (snd (ingest E ev via now s)) = snd (snd (ingest_new E ev via now (s\<lparr>seen_event_ids := c\<rparr>)))"
      using ingest_fresh [OF wf valid None, of via now] by (auto simp: Let_def prod.case_eq_if)
    with wf have "caches_wf E (s\<lparr>seen_event_ids := c\<rparr>)" "caps E (s\<lparr>seen_event_ids := c\<rparr>) = caps E s"
      by (simp_all add: caches_wf_def caps_def)
    with c(3) show ?thesis by (simp add: caps_ingest_new)
  next
    case (Some r)
    from ingest_known [OF wf valid Some, of via now] show ?thesis by (auto simp: caps_def)
  qed
qed

lemma store_new_inv:
  assumes "store_new E cache now = Some s" and "CacheConfig.tasks cache < 2 ^ 64"
  shows "store_inv E s" and "caps E s = config_caps cache"
  using assms
  by (auto simp: store_new_def new_cache_def store_inv_def tasks_inv_def caches_wf_def counters_exact_def
      agent_of_def caps_def config_caps_def A.iter_new G.iter_new T.iter_new L.iter_new V.iter_new A.wf_new G.wf_new
      T.wf_new L.wf_new V.wf_new I.wf_new A.cap_new G.cap_new T.cap_new L.cap_new V.cap_new I.cap_new
      split: if_splits option.splits)

lemma reachable_inv:
  assumes "reachable E cache s" and "CacheConfig.tasks cache < 2 ^ 64"
  shows "store_inv E s \<and> caps E s = config_caps cache"
  using assms
proof (induction rule: reachable.induct)
  case (start now s)
  then show ?case by (simp add: store_new_inv)
next
  case (ingest s ev via now)
  then show ?case by (simp add: inv_ingest caps_ingest store_inv_wf)
next
  case (reject s via)
  then show ?case by (simp add: inv_rejection) (simp add: record_rejection_def caps_def)
qed

end

end
