(* ===== verification/StoreSpec.thy ===== *)
theory StoreSpec
  imports StoreIngest
begin

text \<open>
  The properties of the store, each over an arbitrary implementation \<open>E\<close> of the caches that
  meets the contract \<open>store_caches\<close>, with a concrete run over the list-based caches as its witness.
\<close>

section \<open>A concrete run\<close>

definition demo_cache :: CacheConfig where
  "demo_cache = \<lparr>CacheConfig.agents = 2, goals = 1, tasks = 1, lessons = 1, events = 2, idempotency = 2\<rparr>"

definition demo_agent :: "string \<Rightarrow> AgentRef" where
  "demo_agent a = \<lparr>AgentRef.agent_id = a, provider = ''p'', model = ''m'', instance_id = None\<rparr>"

definition demo_event :: "Uuid \<Rightarrow> DateTime \<Rightarrow> string \<Rightarrow> AgentEvent \<Rightarrow> EventEnvelope" where
  "demo_event u t a e = envelope_new u t (demo_agent a) e"

definition demo_completed :: "string \<Rightarrow> TaskOutcome \<Rightarrow> AgentEvent" where
  "demo_completed tid r = TaskCompleted
     \<lparr>TaskCompletedData.task_id = tid, outcome = r, summary = ''done'', artifacts = [], actual_result = None\<rparr>"

definition demo_started :: "string \<Rightarrow> u32 \<Rightarrow> AgentEvent" where
  "demo_started tid n = TaskStarted \<lparr>TaskStartedData.task_id = tid, attempt = n, plan_summary = None\<rparr>"

definition demo_e1 :: EventEnvelope where
  "demo_e1 = demo_event 1 (10, 0) ''a'' (demo_completed ''x'' TaskOutcome.Succeeded)"

definition demo_e2 :: EventEnvelope where
  "demo_e2 = demo_event 2 (11, 0) ''b'' (demo_started ''x'' 1)"

definition demo_bad :: EventEnvelope where
  "demo_bad = demo_event 0 (12, 0) ''b'' (demo_started ''x'' 1)"

definition demo_s0 where "demo_s0 = the (store_new list_caches demo_cache (0, 0))"
definition demo_s1 where "demo_s1 = snd (snd (ingest list_caches demo_e1 Http (10, 5) demo_s0))"
definition demo_s2 where "demo_s2 = snd (snd (ingest list_caches demo_e2 Tcp (11, 5) demo_s1))"

lemmas demo_defs = demo_cache_def demo_agent_def demo_event_def demo_completed_def demo_started_def demo_e1_def
  demo_e2_def demo_bad_def demo_s0_def demo_s1_def demo_s2_def

lemma demo_reachable: "reachable list_caches demo_cache demo_s0" "reachable list_caches demo_cache demo_s1"
  "reachable list_caches demo_cache demo_s2"
proof -
  have "store_new list_caches demo_cache (0, 0) = Some demo_s0"
    by (simp add: demo_s0_def store_new_def new_cache_def demo_cache_def list_caches_def list_lru_def)
  then show r0: "reachable list_caches demo_cache demo_s0" by (rule reachable.start)
  from r0 show r1: "reachable list_caches demo_cache demo_s1" unfolding demo_s1_def by (rule reachable.ingest)
  from r1 show "reachable list_caches demo_cache demo_s2" unfolding demo_s2_def by (rule reachable.ingest)
qed

lemma demo_valid: "validate_envelope demo_e1 = Inr ()" "validate_envelope demo_e2 = Inr ()"
  "validate_envelope demo_bad = Inl NilEventId"
  by code_simp+

lemma demo_agents: "map_option completed_tasks (agent_of list_caches demo_s1 ''a'') = Some 1"
   "map_option completed_tasks (agent_of list_caches demo_s2 ''a'') = Some 0"
   "map_option TaskState.status (task_of list_caches demo_s2 ''b'' ''x'') = Some TaskStatus.Running"
   "task_of list_caches demo_s2 ''a'' ''x'' = None"
  by code_simp+

section \<open>Invariants of every run\<close>

text \<open>
  C1: in every state the store can reach, with every implementation of the caches that meets
  the contract, the completion counters of a retained agent are exactly the numbers of the
  retained tasks of that agent that ended well (succeeded, partial) and badly (failed, canceled),
  whatever was evicted, restarted or completed again in between.
\<close>

theorem completion_counters_exact:
  assumes "store_caches E" and "CacheConfig.tasks cache < 2 ^ 64"
    and "reachable E cache s" and "agent_of E s a = Some st"
  shows "unat (completed_tasks st) =
      length (filter (\<lambda>t. TaskState.agent_id t = a \<and>
        TaskState.outcome t \<in> {Some TaskOutcome.Succeeded, Some TaskOutcome.Partial}) (retained_tasks E s)) \<and>
    unat (failed_tasks st) =
      length (filter (\<lambda>t. TaskState.agent_id t = a \<and>
        TaskState.outcome t \<in> {Some TaskOutcome.Failed, Some TaskOutcome.Canceled}) (retained_tasks E s))"
proof -
  have "in_bucket CompletionBucket.Completed t \<longleftrightarrow> TaskState.outcome t \<in> {Some TaskOutcome.Succeeded, Some TaskOutcome.Partial}"
    "in_bucket CompletionBucket.Failed t \<longleftrightarrow> TaskState.outcome t \<in> {Some TaskOutcome.Failed, Some TaskOutcome.Canceled}" for t
    unfolding in_bucket_def by (cases "TaskState.outcome t"; cases "the (TaskState.outcome t)"; simp)+
  with store_caches.reachable_inv [OF assms(1,3,2)] assms(4) show ?thesis
    by (simp add: store_inv_def tasks_inv_def counters_exact_def bucket_count_def)
qed

theorem completion_counters_exact_witness:
  "\<exists>st. agent_of list_caches demo_s1 ''a'' = Some st \<and> completed_tasks st = 1 \<and>
     unat (completed_tasks st) =
       length (filter (\<lambda>t. TaskState.agent_id t = ''a'' \<and>
         TaskState.outcome t \<in> {Some TaskOutcome.Succeeded, Some TaskOutcome.Partial}) (retained_tasks list_caches demo_s1))"
  using completion_counters_exact [OF list_store.store_caches_axioms _ demo_reachable(2), of "''a''"] demo_agents(1)
  by (auto simp: demo_cache_def)

text \<open>
  C2: every cache stays within its configured capacity and holds no key twice, and every agent,
  goal, task, lesson and event is stored under its own identifier.
\<close>

theorem caches_bounded_and_keyed:
  assumes "store_caches E" and "CacheConfig.tasks cache < 2 ^ 64" and "reachable E cache s"
  shows "length (lru_iter (agents_lru E) (StoreInner.agents s)) \<le> CacheConfig.agents cache \<and>
    length (lru_iter (goals_lru E) (StoreInner.goals s)) \<le> CacheConfig.goals cache \<and>
    length (lru_iter (tasks_lru E) (StoreInner.tasks s)) \<le> CacheConfig.tasks cache \<and>
    length (lru_iter (lessons_lru E) (StoreInner.lessons s)) \<le> CacheConfig.lessons cache \<and>
    length (lru_iter (events_lru E) (StoreInner.events s)) \<le> CacheConfig.events cache \<and>
    length (lru_iter (seen_lru E) (seen_event_ids s)) \<le> CacheConfig.idempotency cache \<and>
    caches_wf E s \<and>
    list_all agent_keyed (lru_iter (agents_lru E) (StoreInner.agents s)) \<and>
    list_all goal_keyed (lru_iter (goals_lru E) (StoreInner.goals s)) \<and>
    list_all task_keyed (lru_iter (tasks_lru E) (StoreInner.tasks s)) \<and>
    list_all lesson_keyed (lru_iter (lessons_lru E) (StoreInner.lessons s)) \<and>
    list_all event_keyed (lru_iter (events_lru E) (StoreInner.events s))"
  using store_caches.reachable_inv [OF assms(1,3,2)]
  by (auto simp: store_inv_def tasks_inv_def caches_wf_def lru_wf_def caps_def config_caps_def task_ok_def list_all_iff)

theorem caches_bounded_and_keyed_witness:
  "length (lru_iter (tasks_lru list_caches) (StoreInner.tasks demo_s2)) \<le> 1 \<and>
   list_all task_keyed (lru_iter (tasks_lru list_caches) (StoreInner.tasks demo_s2))"
  using caches_bounded_and_keyed [OF list_store.store_caches_axioms _ demo_reachable(3)]
  by (simp add: demo_cache_def)

text \<open>
  C3: the fields of every retained task agree with each other. A task without an outcome is
  pending, running or blocked and carries no trace of a completion; a task with an outcome has
  the status of that outcome, or was blocked by a later error; a succeeded task has progress one.
  The last update is not before the creation, the definition, the start or the completion, and
  progress and confidence lie in the unit interval.
\<close>

theorem task_lifecycle_consistent:
  assumes "store_caches E" and "CacheConfig.tasks cache < 2 ^ 64"
    and "reachable E cache s" and "task_of E s a tid = Some t"
  shows "TaskState.agent_id t = a \<and> TaskSpec.task_id (TaskState.task t) = tid \<and>
    (case TaskState.outcome t of
       None \<Rightarrow> TaskState.status t \<in> {TaskStatus.Pending, TaskStatus.Running, TaskStatus.Blocked} \<and>
         completed_at t = None \<and> completion_summary t = None \<and> TaskState.artifacts t = []
     | Some r \<Rightarrow> TaskState.status t \<in> {outcome_status r, TaskStatus.Blocked} \<and>
         completed_at t \<noteq> None \<and> completion_summary t \<noteq> None \<and>
         (r = TaskOutcome.Succeeded \<longrightarrow> TaskState.progress t = f32_one)) \<and>
    times_consistent t \<and> measures_consistent t"
  using store_caches.reachable_inv [OF assms(1,3,2)] assms(4)
    store_caches.task_of_ok [OF assms(1), of s a tid t]
  by (simp add: store_inv_def task_ok_def task_keyed_def task_consistent_def outcome_consistent_def)

theorem task_lifecycle_consistent_witness:
  "\<exists>t. task_of list_caches demo_s2 ''b'' ''x'' = Some t \<and> TaskState.status t = TaskStatus.Running \<and>
     TaskState.agent_id t = ''b'' \<and> times_consistent t \<and> measures_consistent t"
  using task_lifecycle_consistent [OF list_store.store_caches_axioms _ demo_reachable(3), of "''b''" "''x''"] demo_agents(3)
  by (auto simp: demo_cache_def)

text \<open>
  The revision of the store is the number of accepted events, also when both counters saturate.
\<close>

theorem revision_counts_accepted:
  assumes "store_caches E" and "CacheConfig.tasks cache < 2 ^ 64" and "reachable E cache s"
  shows "StoreInner.revision s = Counters.accepted (StoreInner.counters s)"
  using assms(3)
proof (induction rule: reachable.induct)
  case (start now s)
  then show ?case by (auto simp: store_new_def counters_default_def split: option.splits)
next
  case (reject s via)
  then show ?case by (simp add: record_rejection_def)
next
  case (ingest s ev via now)
  from ingest.hyps assms(1,2) have wf: "caches_wf E s"
    using store_caches.reachable_inv store_caches.store_inv_wf by blast
  show ?case
  proof (cases "validate_envelope ev")
    case (Inl err)
    with ingest.IH show ?thesis by (simp add: ingest_def record_rejection_def)
  next
    case (Inr u)
    then have valid: "validate_envelope ev = Inr ()" by simp
    show ?thesis
      using store_caches.ingest_fresh [OF assms(1) wf valid, of via now]
        store_caches.ingest_known [OF assms(1) wf valid, of _ via now] ingest.IH
      by (cases "seen_of E s (EventEnvelope.event_id ev)")
        (auto simp: Let_def prod.case_eq_if store_caches.ingest_new_state [OF assms(1)])
  qed
qed

theorem revision_counts_accepted_witness:
  "StoreInner.revision demo_s2 = Counters.accepted (StoreInner.counters demo_s2) \<and> StoreInner.revision demo_s2 = 2"
proof
  show "StoreInner.revision demo_s2 = Counters.accepted (StoreInner.counters demo_s2)"
    using revision_counts_accepted [OF list_store.store_caches_axioms _ demo_reachable(3)] by (simp add: demo_cache_def)
  show "StoreInner.revision demo_s2 = 2" by code_simp
qed

section \<open>Operations\<close>

text \<open>
  An event that fails validation is answered with the validation error, nothing is sent to
  subscribers, and the state changes in the rejection counters only; \<open>ingest\<close> returns an error
  in no other case.
\<close>

theorem ingest_rejects_exactly_invalid:
  "(fst (ingest E ev via now s) = Inl (Validation err)) = (validate_envelope ev = Inl err) \<and>
   (validate_envelope ev = Inl err \<longrightarrow>
      fst (snd (ingest E ev via now s)) = None \<and>
      projection (snd (snd (ingest E ev via now s))) = projection s \<and>
      seen_event_ids (snd (snd (ingest E ev via now s))) = seen_event_ids s \<and>
      StoreInner.counters (snd (snd (ingest E ev via now s))) =
        (StoreInner.counters s)\<lparr>rejected := sat_add (rejected (StoreInner.counters s)) 1,
          rejected_by_transport := bt_update (transport_as_str via) 0 (\<lambda>n. n + 1)
            (rejected_by_transport (StoreInner.counters s))\<rparr>)"
  by (auto simp: ingest_def record_rejection_def projection_def Let_def split: sum.splits prod.splits)

theorem ingest_rejects_exactly_invalid_witness:
  "fst (ingest list_caches demo_bad Udp (12, 0) demo_s2) = Inl (Validation NilEventId) \<and>
   projection (snd (snd (ingest list_caches demo_bad Udp (12, 0) demo_s2))) = projection demo_s2"
  using ingest_rejects_exactly_invalid [of list_caches demo_bad Udp "(12, 0)" demo_s2 NilEventId]
  by (simp add: demo_valid(3))

text \<open>
  A valid event whose identifier is not remembered is accepted: the revision increases by one
  (until it saturates), the acknowledgement and the update carry the new revision, the event
  becomes the most recent entry of the timeline, and its identifier is remembered.
\<close>

theorem ingest_accepts_new:
  assumes "store_caches E" and "store_inv E s" and "validate_envelope ev = Inr ()"
    and "seen_of E s (EventEnvelope.event_id ev) = None"
  shows "\<exists>ack update s'. ingest E ev via now s = (Inr ack, Some update, s') \<and>
    IngestAck.accepted ack \<and> \<not> IngestAck.duplicate ack \<and>
    IngestAck.event_id ack = EventEnvelope.event_id ev \<and>
    IngestAck.revision ack = sat_add (StoreInner.revision s) 1 \<and>
    StoreUpdate.revision update = IngestAck.revision ack \<and>
    StoreUpdate.event_id update = EventEnvelope.event_id ev \<and>
    StoreUpdate.kind update = event_kind (EventEnvelope.event ev) \<and>
    StoreInner.revision s' = IngestAck.revision ack \<and>
    seen_of E s' (EventEnvelope.event_id ev) = Some (IngestAck.revision ack) \<and>
    event_of E s' (EventEnvelope.event_id ev) = Some \<lparr>EventRecord.event = ev, transport = via, received_at = now\<rparr>"
proof -
  have wf: "caches_wf E s" by (rule store_caches.store_inv_wf [OF assms(1,2)])
  obtain c where c: "lru_wf (seen_lru E) c"
    "ingest E ev via now s = (let (ack, update, s') = ingest_new E ev via now (s\<lparr>seen_event_ids := c\<rparr>)
                             in (Inr ack, Some update, s'))"
    using store_caches.ingest_fresh [OF assms(1) wf assms(3,4), of via now] by blast
  have lru: "lru_cache (seen_lru E)" "lru_cache (events_lru E)"
    using assms(1) by (simp_all add: store_caches_def)
  have "lru_wf (events_lru E) (StoreInner.events s)" using wf by (simp add: caches_wf_def)
  with c(1) lru show ?thesis
    by (simp add: c(2) Let_def prod.case_eq_if store_caches.ingest_new_ack [OF assms(1)]
        store_caches.ingest_new_state [OF assms(1)] seen_of_def event_of_def
        store_caches.push_with_eviction_snd [OF assms(1)] lru_cache.push_found)
qed

lemma demo_inv: "store_inv list_caches demo_s0" "store_inv list_caches demo_s1" "store_inv list_caches demo_s2"
  using list_store.reachable_inv demo_reachable by (simp_all add: demo_cache_def)

lemma demo_fresh: "seen_of list_caches demo_s1 (EventEnvelope.event_id demo_e2) = None"
  "seen_of list_caches demo_s2 (EventEnvelope.event_id demo_e1) = Some 1"
  by code_simp+

theorem ingest_accepts_new_witness:
  "\<exists>ack update. ingest list_caches demo_e2 Tcp (11, 5) demo_s1 = (Inr ack, Some update, demo_s2) \<and>
     \<not> IngestAck.duplicate ack \<and> IngestAck.revision ack = StoreInner.revision demo_s2"
  using ingest_accepts_new [OF list_store.store_caches_axioms demo_inv(2) demo_valid(2) demo_fresh(1), of Tcp "(11, 5)"]
  by (auto simp: demo_s2_def)

text \<open>
  C4: retries are idempotent. An event with a remembered identifier is acknowledged as a duplicate
  with the current revision, nothing is sent to subscribers, no projection, eviction count or
  revision changes, and the identifier stays remembered. In particular this holds for a retry
  right after the first delivery.
\<close>

theorem ingest_duplicate_changes_nothing:
  assumes "store_caches E" and "store_inv E s" and "validate_envelope ev = Inr ()"
    and "seen_of E s (EventEnvelope.event_id ev) \<noteq> None"
  shows "\<exists>ack s'. ingest E ev via now s = (Inr ack, None, s') \<and>
    IngestAck.accepted ack \<and> IngestAck.duplicate ack \<and> IngestAck.revision ack = StoreInner.revision s \<and>
    projection s' = projection s \<and> (\<forall>u. seen_of E s' u = seen_of E s u) \<and>
    Counters.accepted (StoreInner.counters s') = Counters.accepted (StoreInner.counters s) \<and>
    Counters.rejected (StoreInner.counters s') = Counters.rejected (StoreInner.counters s)"
proof -
  have wf: "caches_wf E s" by (rule store_caches.store_inv_wf [OF assms(1,2)])
  from assms(4) obtain r where "seen_of E s (EventEnvelope.event_id ev) = Some r" by blast
  from store_caches.ingest_known [OF assms(1) wf assms(3) this, of via now] show ?thesis
    by (auto simp: projection_def seen_of_def)
qed

theorem ingest_duplicate_changes_nothing_witness:
  "\<exists>ack s'. ingest list_caches demo_e1 Udp (20, 0) demo_s2 = (Inr ack, None, s') \<and> IngestAck.duplicate ack \<and>
     projection s' = projection demo_s2"
  using ingest_duplicate_changes_nothing [OF list_store.store_caches_axioms demo_inv(3) demo_valid(1), of Udp "(20, 0)"]
    demo_fresh(2)
  by (metis option.distinct(1))

section \<open>Tasks under new events\<close>

lemma ingest_new_tasks:
  assumes "store_caches E" and "store_inv E s" and "validate_envelope ev = Inr ()"
    and "seen_of E s (EventEnvelope.event_id ev) = None"
  shows "\<exists>s0. StoreInner.tasks s0 = StoreInner.tasks s \<and> StoreInner.agents s0 = StoreInner.agents s \<and> caches_wf E s0 \<and>
    StoreInner.tasks (snd (snd (ingest E ev via now s))) = StoreInner.tasks (apply_event E ev s0) \<and>
    StoreInner.agents (snd (snd (ingest E ev via now s))) = StoreInner.agents (apply_event E ev s0)"
proof -
  have wf: "caches_wf E s" by (rule store_caches.store_inv_wf [OF assms(1,2)])
  obtain c where "lru_wf (seen_lru E) c"
    and "ingest E ev via now s = (let (ack, update, s') = ingest_new E ev via now (s\<lparr>seen_event_ids := c\<rparr>)
                             in (Inr ack, Some update, s'))"
    using store_caches.ingest_fresh [OF assms(1) wf assms(3,4), of via now] by blast
  with wf show ?thesis
    by (intro exI [of _ "s\<lparr>seen_event_ids := c\<rparr>"])
      (simp add: Let_def prod.case_eq_if store_caches.ingest_new_state [OF assms(1)] caches_wf_def)
qed

text \<open>
  C5: on the task it names, \<open>ingest\<close> of a new event refines the specification of a single task:
  a definition creates the task or, when authoritative, replaces its specification; every other
  event creates an inferred task if there is none and applies its change unless the task is newer.
\<close>

theorem ingest_refines_task_step:
  assumes "store_caches E" and "store_inv E s" and "validate_envelope ev = Inr ()"
    and "seen_of E s (EventEnvelope.event_id ev) = None"
    and "written_task (EventEnvelope.event ev) = Some tid"
  shows "task_of E (snd (snd (ingest E ev via now s))) (envelope_agent ev) tid =
    Some (task_step ev tid (task_of E s (envelope_agent ev) tid))"
proof -
  obtain s0 where s0: "StoreInner.tasks s0 = StoreInner.tasks s" "caches_wf E s0"
    "StoreInner.tasks (snd (snd (ingest E ev via now s))) = StoreInner.tasks (apply_event E ev s0)"
    using ingest_new_tasks [OF assms(1-4), of via now] by blast
  with store_caches.apply_event_tasks [OF assms(1) s0(2), of ev] assms(5) show ?thesis
    by (simp add: task_of_def)
qed

theorem ingest_refines_task_step_witness:
  "task_of list_caches demo_s2 ''b'' ''x'' = Some (task_step demo_e2 ''x'' (task_of list_caches demo_s1 ''b'' ''x''))"
proof -
  have "written_task (EventEnvelope.event demo_e2) = Some ''x''" "envelope_agent demo_e2 = ''b''"
    by (simp_all add: demo_defs envelope_new_def written_task_def)
  with ingest_refines_task_step [OF list_store.store_caches_axioms demo_inv(2) demo_valid(2) demo_fresh(1), of "''x''" Tcp "(11, 5)"]
  show ?thesis by (simp add: demo_s2_def)
qed

text \<open>
  Agents and tasks are isolated. Whatever event is ingested, every task other than the one it
  names for its own agent keeps its state or is evicted by the capacity; equal task identifiers of
  different agents never interfere.
\<close>

theorem ingest_isolates_other_tasks:
  assumes "store_caches E" and "store_inv E s"
    and "written_task (EventEnvelope.event ev) \<noteq> Some k \<or> envelope_agent ev \<noteq> b"
  shows "task_of E (snd (snd (ingest E ev via now s))) b k \<in> {task_of E s b k, None}"
proof (cases "validate_envelope ev")
  case (Inl err)
  then show ?thesis by (simp add: ingest_def record_rejection_def task_of_def)
next
  case (Inr u)
  then have valid: "validate_envelope ev = Inr ()" by simp
  show ?thesis
  proof (cases "seen_of E s (EventEnvelope.event_id ev)")
    case None
    obtain s0 where s0: "StoreInner.tasks s0 = StoreInner.tasks s" "caches_wf E s0"
      "StoreInner.tasks (snd (snd (ingest E ev via now s))) = StoreInner.tasks (apply_event E ev s0)"
      using ingest_new_tasks [OF assms(1,2) valid None, of via now] by blast
    with store_caches.apply_event_tasks [OF assms(1) s0(2), of ev] assms(3) show ?thesis
      by (auto simp: others_kept_def task_of_def)
  next
    case (Some r)
    from store_caches.ingest_known [OF assms(1) store_caches.store_inv_wf [OF assms(1,2)] valid Some, of via now]
    show ?thesis by (auto simp: task_of_def)
  qed
qed

theorem ingest_isolates_other_tasks_witness:
  "task_of list_caches demo_s2 ''a'' ''x'' \<in> {task_of list_caches demo_s1 ''a'' ''x'', None}"
  unfolding demo_s2_def
  by (rule ingest_isolates_other_tasks [OF list_store.store_caches_axioms demo_inv(2)])
    (simp add: demo_defs envelope_new_def)

lemma task_step_monotone:
  "updated_at t \<le> updated_at (task_step ev tid (Some t))"
  by (cases "EventEnvelope.event ev")
    (auto simp: task_step_def redefine_task_def start_task_def progress_task_def reflect_task_def block_task_def complete_task_def Let_def)

lemma task_step_stale:
  assumes "EventEnvelope.occurred_at ev < updated_at t"
  shows "task_step ev tid (Some t) =
    (case EventEnvelope.event ev of TaskCreated spec \<Rightarrow> redefine_task ev spec t | _ \<Rightarrow> t)"
  using assms by (cases "EventEnvelope.event ev") (auto simp: task_step_def Let_def)

text \<open>
  C6: out-of-order events never move a task back in time. After a new event the task it names is
  retained with a last update that is no earlier than before, and if the task was newer than the
  event, nothing of it changes except that a definition may still replace an inferred or older one.
\<close>

theorem ingest_respects_time:
  assumes "store_caches E" and "store_inv E s" and "validate_envelope ev = Inr ()"
    and "seen_of E s (EventEnvelope.event_id ev) = None"
    and "written_task (EventEnvelope.event ev) = Some tid"
    and "task_of E s (envelope_agent ev) tid = Some t"
  shows "\<exists>t'. task_of E (snd (snd (ingest E ev via now s))) (envelope_agent ev) tid = Some t' \<and>
    updated_at t \<le> updated_at t' \<and>
    (EventEnvelope.occurred_at ev < updated_at t \<longrightarrow>
      TaskState.status t' = TaskState.status t \<and> TaskState.outcome t' = TaskState.outcome t \<and>
      TaskState.progress t' = TaskState.progress t \<and> TaskState.attempt t' = TaskState.attempt t \<and>
      updated_at t' = updated_at t \<and>
      (TaskState.task t' \<noteq> TaskState.task t \<longrightarrow>
         inferred_from_out_of_order_event t \<or> definition_updated_at t \<le> EventEnvelope.occurred_at ev))"
proof -
  obtain s0 where s0: "StoreInner.tasks s0 = StoreInner.tasks s" "caches_wf E s0"
    "StoreInner.tasks (snd (snd (ingest E ev via now s))) = StoreInner.tasks (apply_event E ev s0)"
    using ingest_new_tasks [OF assms(1-4), of via now] by blast
  with store_caches.apply_event_tasks [OF assms(1) s0(2), of ev] assms(5,6)
  have "task_of E (snd (snd (ingest E ev via now s))) (envelope_agent ev) tid = Some (task_step ev tid (Some t))"
    by (simp add: task_of_def)
  with task_step_monotone [of t ev tid] task_step_stale [of ev t tid] show ?thesis
    by (auto simp: redefine_task_def split: AgentEvent.splits)
qed

definition demo_late :: EventEnvelope where
  "demo_late = demo_event 3 (9, 0) ''a'' (demo_started ''x'' 2)"

lemma demo_late_facts: "validate_envelope demo_late = Inr ()"
  "seen_of list_caches demo_s1 (EventEnvelope.event_id demo_late) = None"
  "map_option updated_at (task_of list_caches demo_s1 ''a'' ''x'') = Some (10, 0)"
  by code_simp+

theorem ingest_respects_time_witness:
  "\<exists>t t'. task_of list_caches demo_s1 ''a'' ''x'' = Some t \<and>
     task_of list_caches (snd (snd (ingest list_caches demo_late Http (12, 0) demo_s1))) ''a'' ''x'' = Some t' \<and>
     TaskState.status t' = TaskState.status t"
proof -
  obtain t where t: "task_of list_caches demo_s1 ''a'' ''x'' = Some t" "updated_at t = (10, 0)"
    using demo_late_facts(3) by auto
  have e: "written_task (EventEnvelope.event demo_late) = Some ''x''" "envelope_agent demo_late = ''a''"
    "EventEnvelope.occurred_at demo_late = (9, 0)"
    by (simp_all add: demo_late_def demo_defs envelope_new_def written_task_def)
  have lt: "(9, 0) < (10 :: int, 0 :: int)" by simp
  from ingest_respects_time [OF list_store.store_caches_axioms demo_inv(2) demo_late_facts(1,2) e(1), of t Http "(12, 0)"] t e lt
  show ?thesis by auto
qed

section \<open>Agents under new events\<close>

text \<open>
  After a new event its agent is retained with the identity the event carries, and was last
  seen at the later of the event and its previous activity; every other agent keeps its state, up to
  the completion counters an evicted task leaves, or is evicted itself.
\<close>

theorem ingest_agents:
  assumes "store_caches E" and "store_inv E s" and "validate_envelope ev = Inr ()"
    and "seen_of E s (EventEnvelope.event_id ev) = None"
  shows "(\<exists>st. agent_of E (snd (snd (ingest E ev via now s))) (envelope_agent ev) = Some st \<and>
      AgentState.agent st = EventEnvelope.agent ev \<and>
      last_seen_at st = (case agent_of E s (envelope_agent ev) of
        None \<Rightarrow> EventEnvelope.occurred_at ev | Some old \<Rightarrow> max (last_seen_at old) (EventEnvelope.occurred_at ev))) \<and>
    (\<forall>b st'. b \<noteq> envelope_agent ev \<longrightarrow> agent_of E (snd (snd (ingest E ev via now s))) b = Some st' \<longrightarrow>
      (\<exists>st. agent_of E s b = Some st \<and> agent_same st st'))"
proof -
  obtain s0 where s0: "StoreInner.agents s0 = StoreInner.agents s" "caches_wf E s0"
    "StoreInner.agents (snd (snd (ingest E ev via now s))) = StoreInner.agents (apply_event E ev s0)"
    using ingest_new_tasks [OF assms, of via now] by blast
  with store_caches.apply_event_agents [OF assms(1) s0(2), of ev] show ?thesis
    by (simp add: agent_of_def identified_def agents_kept_def)
qed

theorem ingest_agents_witness:
  "\<exists>st. agent_of list_caches demo_s2 ''b'' = Some st \<and> last_seen_at st = (11, 0) \<and>
    (\<exists>st'. agent_of list_caches demo_s2 ''a'' = Some st' \<and> (\<exists>st. agent_of list_caches demo_s1 ''a'' = Some st \<and> agent_same st st'))"
proof -
  have e: "envelope_agent demo_e2 = ''b''" "EventEnvelope.occurred_at demo_e2 = (11, 0)"
    by (simp_all add: demo_defs envelope_new_def)
  have none: "agent_of list_caches demo_s1 ''b'' = None" by code_simp
  obtain st' where st': "agent_of list_caches demo_s2 ''a'' = Some st'" using demo_agents(2) by auto
  note facts = ingest_agents [OF list_store.store_caches_axioms demo_inv(2) demo_valid(2) demo_fresh(1), of Tcp "(11, 5)"]
  from facts e none st' show ?thesis by (auto simp: demo_s2_def [symmetric])
qed

section \<open>Construction and readers\<close>

text \<open>The memory for the caches of a configuration can be reserved.\<close>

definition caches_fit :: "('a, 'g, 't, 'l, 'e, 'i) caches \<Rightarrow> CacheConfig \<Rightarrow> bool" where
  "caches_fit E cache \<longleftrightarrow> lru_new (agents_lru E) (CacheConfig.agents cache) \<noteq> None \<and>
     lru_new (goals_lru E) (CacheConfig.goals cache) \<noteq> None \<and> lru_new (tasks_lru E) (CacheConfig.tasks cache) \<noteq> None \<and>
     lru_new (lessons_lru E) (CacheConfig.lessons cache) \<noteq> None \<and> lru_new (events_lru E) (CacheConfig.events cache) \<noteq> None \<and>
     lru_new (seen_lru E) (CacheConfig.idempotency cache) \<noteq> None"

lemma store_new_validated:
  assumes "config_validate c = Inr ()"
  shows "(\<exists>s. store_new E (cache_config c) now = Some s) \<longleftrightarrow> caches_fit E (cache_config c)"
proof -
  have "0 < agent_capacity c" "0 < goal_capacity c" "0 < task_capacity c" "0 < lesson_capacity c" "0 < event_capacity c"
    "0 < idempotency_capacity c" using assms by (simp_all add: config_validate_iff)
  then show ?thesis by (simp add: store_new_def new_cache_def cache_config_def caches_fit_def split: option.splits)
qed

lemma list_caches_fit: "caches_fit list_caches cache"
  by (simp add: caches_fit_def list_caches_def list_lru_def)

text \<open>
  A validated configuration builds a store if the memory for its caches can be reserved: no capacity is zero, so
  \<open>Store::new\<close> does not panic, and the new store is empty and satisfies the invariant.
\<close>

theorem validated_config_builds_store:
  assumes "store_caches E" and "config_validate c = Inr ()" and "task_capacity c < 2 ^ 64" and "caches_fit E (cache_config c)"
  shows "\<exists>s. store_new E (cache_config c) now = Some s \<and> store_inv E s \<and> retained_tasks E s = [] \<and>
    StoreInner.revision s = 0"
proof -
  have "\<exists>s. store_new E (cache_config c) now = Some s" using store_new_validated [OF assms(2)] assms(4) by blast
  then obtain s where s: "store_new E (cache_config c) now = Some s" ..
  have "CacheConfig.tasks (cache_config c) < 2 ^ 64" using assms(3) by (simp add: cache_config_def)
  with s have "store_inv E s" by (rule store_caches.store_new_inv(1) [OF assms(1)])
  moreover have "lru_cache (tasks_lru E)" using assms(1) by (simp add: store_caches_def)
  ultimately show ?thesis
    using s by (auto simp: store_new_def new_cache_def retained_tasks_def lru_cache.iter_new split: if_splits option.splits)
qed

theorem validated_config_builds_store_witness:
  "\<exists>s. store_new list_caches (cache_config local_test) (0, 0) = Some s \<and> store_inv list_caches s"
proof -
  have "config_validate local_test = Inr ()" by code_simp
  moreover have "task_capacity local_test < 2 ^ 64" by (simp add: local_test_def Let_def)
  ultimately show ?thesis
    using validated_config_builds_store [OF list_store.store_caches_axioms, of local_test "(0, 0)"] list_caches_fit by blast
qed

text \<open>
  A snapshot is a bounded copy of the state: at most 250 recent events, newest first, and
  every retained agent, goal, task and lesson exactly once; right after a new event the first
  recent event is that event.
\<close>

theorem snapshot_is_faithful:
  fixes via :: Transport and now :: DateTime
  assumes "store_caches E" and "store_inv E s" and "validate_envelope ev = Inr ()"
    and "seen_of E s (EventEnvelope.event_id ev) = None"
  defines "s' \<equiv> snd (snd (ingest E ev via now s))"
  shows "length (Snapshot.recent_events (snapshot E t s')) \<le> 250 \<and>
    Snapshot.recent_events (snapshot E t s') \<noteq> [] \<and>
    hd (Snapshot.recent_events (snapshot E t s')) = \<lparr>EventRecord.event = ev, transport = via, received_at = now\<rparr> \<and>
    Snapshot.revision (snapshot E t s') = sat_add (StoreInner.revision s) 1 \<and>
    Snapshot.tasks (snapshot E t s') = retained_tasks E s' \<and>
    distinct (map (\<lambda>x. (TaskState.agent_id x, TaskSpec.task_id (TaskState.task x))) (Snapshot.tasks (snapshot E t s'))) \<and>
    distinct (map (\<lambda>x. AgentRef.agent_id (AgentState.agent x)) (Snapshot.agents (snapshot E t s')))"
proof -
  have wf: "caches_wf E s" by (rule store_caches.store_inv_wf [OF assms(1,2)])
  obtain c where c: "ingest E ev via now s = (let (ack, update, s') = ingest_new E ev via now (s\<lparr>seen_event_ids := c\<rparr>)
                             in (Inr ack, Some update, s'))"
    using store_caches.ingest_fresh [OF assms(1) wf assms(3,4), of via now] by blast
  have inv: "store_inv E s'" unfolding s'_def by (rule store_caches.inv_ingest [OF assms(1,2)])
  have "distinct (map (\<lambda>x. (TaskState.agent_id x, TaskSpec.task_id (TaskState.task x))) (retained_tasks E s'))"
    "distinct (map (\<lambda>x. AgentRef.agent_id (AgentState.agent x)) (map snd (lru_iter (agents_lru E) (StoreInner.agents s'))))"
    unfolding retained_tasks_def
    by (rule distinct_keyed_tasks distinct_keyed_agents;
        use inv in \<open>simp add: store_inv_def tasks_inv_def caches_wf_def lru_wf_def\<close>)+
  moreover have "\<exists>rest. lru_iter (events_lru E) (StoreInner.events s') =
      (EventEnvelope.event_id ev, \<lparr>EventRecord.event = ev, transport = via, received_at = now\<rparr>) # rest"
    using wf assms(1) by (auto simp: s'_def c Let_def prod.case_eq_if store_caches.ingest_new_state [OF assms(1)]
        store_caches.push_with_eviction_snd [OF assms(1)] store_caches_def caches_wf_def intro!: lru_cache.push_front)
  moreover have "StoreInner.revision s' = sat_add (StoreInner.revision s) 1"
    by (simp add: s'_def c Let_def prod.case_eq_if store_caches.ingest_new_state [OF assms(1)])
  ultimately show ?thesis
    by (auto simp: snapshot_def SNAPSHOT_EVENT_LIMIT_def retained_tasks_def)
qed

theorem snapshot_is_faithful_witness:
  "Snapshot.revision (snapshot list_caches (30, 0) demo_s2) = sat_add (StoreInner.revision demo_s1) 1 \<and>
   EventRecord.event (hd (Snapshot.recent_events (snapshot list_caches (30, 0) demo_s2))) = demo_e2"
  using snapshot_is_faithful [OF list_store.store_caches_axioms demo_inv(2) demo_valid(2) demo_fresh(1), of "(30, 0)" Tcp "(11, 5)"]
  by (simp add: demo_s2_def)

end
