(* ===== verification/Timeline.thy ===== *)
theory Timeline
  imports Store
begin

text \<open>
  The timeline (\<open>src/timeline.rs\<close>): cursors with their textual form, and pages of the retained
  events, newest first.

  The textual form of identifiers belongs to the crate \<open>uuid\<close> and the construction of an instant
  from seconds and nanoseconds to the crate \<open>chrono\<close>; they are arguments, and the locale
  \<open>cursor_codec\<close> states what those crates document of them. Integer formatting and parsing in base
  16 belong to the standard library and are modelled here.
\<close>

section \<open>Hexadecimal text\<close>

definition hex_digit :: "int \<Rightarrow> char" where
  "hex_digit d = (if d < 10 then char_of (48 + d) else char_of (87 + d))"

text \<open>The formatters \<open>{:016x}\<close> and \<open>{:08x}\<close> on values that fit: exactly \<open>w\<close> lower-case digits.\<close>

fun hex_pad :: "nat \<Rightarrow> int \<Rightarrow> string" where
  "hex_pad 0 n = []"
| "hex_pad (Suc w) n = hex_pad w (n div 16) @ [hex_digit (n mod 16)]"

definition hex_value :: "char \<Rightarrow> int option" where
  "hex_value c =
     (let n = of_char c :: int in
      if 48 \<le> n \<and> n \<le> 57 then Some (n - 48)
      else if 97 \<le> n \<and> n \<le> 102 then Some (n - 87)
      else if 65 \<le> n \<and> n \<le> 70 then Some (n - 55)
      else None)"

fun hex_parse :: "int \<Rightarrow> string \<Rightarrow> int option" where
  "hex_parse acc [] = Some acc"
| "hex_parse acc (c # cs) = (case hex_value c of None \<Rightarrow> None | Some d \<Rightarrow> hex_parse (16 * acc + d) cs)"

text \<open>\<open>uN::from_str_radix(s, 16)\<close>: an optional plus sign, at least one digit, no overflow.\<close>

definition from_str_radix_16 :: "nat \<Rightarrow> string \<Rightarrow> int option" where
  "from_str_radix_16 w s =
     (let ds = (if s \<noteq> [] \<and> hd s = CHR ''+'' then tl s else s)
      in if ds = [] then None
         else case hex_parse 0 ds of
                None \<Rightarrow> None
              | Some v \<Rightarrow> if v < 2 ^ w then Some v else None)"

section \<open>Policy, cursor and errors\<close>

definition MAX_TIMELINE_PAGE_LIMIT :: nat where
  "MAX_TIMELINE_PAGE_LIMIT = 100"

definition CURSOR_VERSION :: string where
  "CURSOR_VERSION = ''v1''"

record TimelinePolicy =
  limit :: nat

definition timeline_policy_default :: TimelinePolicy where
  "timeline_policy_default = \<lparr>limit = 50\<rparr>"

datatype TimelineError = InvalidLimit | InvalidCursor | RevisionChanged u64 u64

definition validate_timeline_policy :: "TimelinePolicy \<Rightarrow> TimelineError + TimelinePolicy" where
  "validate_timeline_policy p =
     (if limit p = 0 \<or> limit p > MAX_TIMELINE_PAGE_LIMIT then Inl InvalidLimit else Inr p)"

record TimelineCursor =
  revision :: u64
  occurred_at :: DateTime
  event_id :: Uuid

record TimelinePage =
  generated_at :: DateTime
  started_at :: DateTime
  revision :: u64
  events :: "EventRecord list"
  next_cursor :: "string option"
  retained_total :: nat
  returned :: nat
  remaining_older :: nat
  newer_retained_events_skipped :: nat
  event_cache_evictions :: u64
  policy :: TimelinePolicy

text \<open>\<open>timestamp() as u64\<close> keeps the bits of the signed number of seconds.\<close>

definition cursor_encode :: "(Uuid \<Rightarrow> string) \<Rightarrow> TimelineCursor \<Rightarrow> string" where
  "cursor_encode simple c =
     CURSOR_VERSION @ ''.'' @ hex_pad 16 (uint (TimelineCursor.revision c)) @ ''.'' @
     hex_pad 16 (uint (word_of_int (fst (TimelineCursor.occurred_at c)) :: u64)) @ ''.'' @
     hex_pad 8 (uint (word_of_int (snd (TimelineCursor.occurred_at c)) :: u32)) @ ''.'' @
     simple (TimelineCursor.event_id c)"

definition cursor_parse ::
  "(string \<Rightarrow> Uuid option) \<Rightarrow> (int \<Rightarrow> int \<Rightarrow> DateTime option) \<Rightarrow> string \<Rightarrow> TimelineError + TimelineCursor" where
  "cursor_parse parse_str timestamp_opt v =
     (if length v > 96 then Inl InvalidCursor
      else case str_split CHR ''.'' v of
        [version, rev_text, sec_text, nano_text, id_text] \<Rightarrow>
          if version \<noteq> CURSOR_VERSION then Inl InvalidCursor
          else if length rev_text \<noteq> 16 \<or> length sec_text \<noteq> 16 \<or> length nano_text \<noteq> 8 \<or> length id_text \<noteq> 32
          then Inl InvalidCursor
          else (case (from_str_radix_16 64 rev_text, from_str_radix_16 64 sec_text, from_str_radix_16 32 nano_text) of
              (Some r, Some s, Some n) \<Rightarrow>
                if n \<ge> 1000000000 then Inl InvalidCursor
                else (case timestamp_opt (sint (word_of_int s :: u64)) n of
                    None \<Rightarrow> Inl InvalidCursor
                  | Some t \<Rightarrow>
                      (case parse_str id_text of
                         None \<Rightarrow> Inl InvalidCursor
                       | Some u \<Rightarrow> Inr \<lparr>TimelineCursor.revision = word_of_int r, occurred_at = t, event_id = u\<rparr>))
            | _ \<Rightarrow> Inl InvalidCursor)
      | _ \<Rightarrow> Inl InvalidCursor)"

section \<open>Pages\<close>

abbreviation record_time :: "EventRecord \<Rightarrow> DateTime" where
  "record_time rec \<equiv> EventEnvelope.occurred_at (EventRecord.event rec)"

abbreviation record_id :: "EventRecord \<Rightarrow> Uuid" where
  "record_id rec \<equiv> EventEnvelope.event_id (EventRecord.event rec)"

definition timeline_cmp :: "EventRecord \<Rightarrow> EventRecord \<Rightarrow> ordering" where
  "timeline_cmp l r = then_with (cmp (record_time r) (record_time l)) (cmp (record_id r) (record_id l))"

definition before_cursor :: "TimelineCursor option \<Rightarrow> EventRecord \<Rightarrow> bool" where
  "before_cursor c rec =
     (case c of
        None \<Rightarrow> True
      | Some k \<Rightarrow> record_time rec < TimelineCursor.occurred_at k \<or>
          (record_time rec = TimelineCursor.occurred_at k \<and> record_id rec < TimelineCursor.event_id k))"

definition timeline_body ::
  "(Uuid \<Rightarrow> string) \<Rightarrow> Snapshot \<Rightarrow> TimelinePolicy \<Rightarrow> TimelineCursor option \<Rightarrow> TimelinePage" where
  "timeline_body simple snap pol c =
     (let retained = sort_by timeline_cmp (Snapshot.recent_events snap);
          total = length retained;
          eligible = filter (before_cursor c) retained;
          skipped = total - length eligible;
          has_more = length eligible > limit pol;
          shown = take (limit pol) eligible
      in \<lparr>TimelinePage.generated_at = Snapshot.generated_at snap, started_at = Snapshot.started_at snap,
          revision = Snapshot.revision snap, events = shown,
          next_cursor =
            (if has_more then Some (cursor_encode simple
               \<lparr>TimelineCursor.revision = Snapshot.revision snap, occurred_at = record_time (last shown),
                event_id = record_id (last shown)\<rparr>)
             else None),
          retained_total = total, returned = length shown,
          remaining_older = (if has_more then total - (skipped + length shown) else 0),
          newer_retained_events_skipped = skipped,
          event_cache_evictions = CacheStats.evictions (CacheSnapshot.events (Snapshot.caches snap)),
          policy = pol\<rparr>)"

definition build_timeline_page ::
  "(Uuid \<Rightarrow> string) \<Rightarrow> Snapshot \<Rightarrow> TimelinePolicy \<Rightarrow> TimelineCursor option \<Rightarrow> TimelineError + TimelinePage" where
  "build_timeline_page simple snap pol c =
     (case validate_timeline_policy pol of
        Inl err \<Rightarrow> Inl err
      | Inr p \<Rightarrow>
          (case c of
             Some k \<Rightarrow>
               if TimelineCursor.revision k \<noteq> Snapshot.revision snap
               then Inl (RevisionChanged (TimelineCursor.revision k) (Snapshot.revision snap))
               else Inr (timeline_body simple snap p c)
           | None \<Rightarrow> Inr (timeline_body simple snap p c)))"

section \<open>Lemmas: hexadecimal text\<close>

lemma hex_digit_values:
  assumes "0 \<le> d" "d < 16"
  shows "hex_value (hex_digit d) = Some d \<and> hex_digit d \<noteq> CHR ''.'' \<and> hex_digit d \<noteq> CHR ''+''"
proof -
  have "d = 0 \<or> d = 1 \<or> d = 2 \<or> d = 3 \<or> d = 4 \<or> d = 5 \<or> d = 6 \<or> d = 7 \<or> d = 8 \<or> d = 9 \<or> d = 10 \<or>
      d = 11 \<or> d = 12 \<or> d = 13 \<or> d = 14 \<or> d = 15" using assms by presburger
  then show ?thesis by (elim disjE; hypsubst; code_simp)
qed

lemma length_hex_pad [simp]: "length (hex_pad w n) = w"
  by (induction w arbitrary: n) simp_all

lemma hex_parse_append:
  "hex_parse acc (xs @ ys) = (case hex_parse acc xs of None \<Rightarrow> None | Some v \<Rightarrow> hex_parse v ys)"
  by (induction xs arbitrary: acc) (auto split: option.splits)

lemma hex_parse_pad: "0 \<le> n \<Longrightarrow> n < 16 ^ w \<Longrightarrow> hex_parse 0 (hex_pad w n) = Some n"
proof (induction w arbitrary: n)
  case 0
  then show ?case by simp
next
  case (Suc w)
  then have "0 \<le> n div 16" "n div 16 < 16 ^ w" by auto
  with Suc.IH [of "n div 16"] hex_digit_values [of "n mod 16"] show ?case
    by (simp add: hex_parse_append)
qed

lemma hex_pad_chars: "0 \<le> n \<Longrightarrow> c \<in> set (hex_pad w n) \<Longrightarrow> c \<noteq> CHR ''.'' \<and> c \<noteq> CHR ''+''"
proof (induction w arbitrary: n)
  case 0
  then show ?case by simp
next
  case (Suc w)
  then have "0 \<le> n div 16" "hex_digit (n mod 16) \<noteq> CHR ''.'' \<and> hex_digit (n mod 16) \<noteq> CHR ''+''"
    using hex_digit_values [of "n mod 16"] by auto
  with Suc.IH [of "n div 16"] Suc.prems(2) show ?case by auto
qed

lemma from_str_radix_pad:
  assumes "0 \<le> n" "n < 16 ^ w" "n < 2 ^ b" "0 < w"
  shows "from_str_radix_16 b (hex_pad w n) = Some n"
proof -
  have ne: "hex_pad w n \<noteq> []" using assms(4) length_hex_pad [of w n] by force
  then have "hd (hex_pad w n) \<noteq> CHR ''+''" using hex_pad_chars [OF assms(1)] hd_in_set by blast
  with ne hex_parse_pad [OF assms(1,2)] assms(3) show ?thesis
    by (simp add: from_str_radix_16_def)
qed

lemma str_split_field: "d \<notin> set x \<Longrightarrow> str_split d (x @ d # y) = x # str_split d y"
  by (induction x) auto

lemma str_split_last: "d \<notin> set x \<Longrightarrow> str_split d x = [x]"
  by (induction x) auto

section \<open>The contract of the external codecs\<close>

locale cursor_codec =
  fixes simple :: "Uuid \<Rightarrow> string"
    and parse_str :: "string \<Rightarrow> Uuid option"
    and timestamp_opt :: "int \<Rightarrow> int \<Rightarrow> DateTime option"
    and representable :: "DateTime \<Rightarrow> bool"
  assumes simple_length: "length (simple u) = 32"
    and simple_dot: "CHR ''.'' \<notin> set (simple u)"
    and parse_simple: "parse_str (simple u) = Some u"
    and seconds_range: "representable t \<Longrightarrow> - (2 ^ 63) \<le> fst t \<and> fst t < 2 ^ 63"
    and nanos_range: "representable t \<Longrightarrow> 0 \<le> snd t \<and> snd t < 2000000000"
    and timestamp_exact: "representable t \<Longrightarrow> snd t < 1000000000 \<Longrightarrow> timestamp_opt (fst t) (snd t) = Some t"
begin

lemma split_encoded:
  "str_split CHR ''.'' (cursor_encode simple c) =
     [CURSOR_VERSION, hex_pad 16 (uint (TimelineCursor.revision c)),
      hex_pad 16 (uint (word_of_int (fst (TimelineCursor.occurred_at c)) :: u64)),
      hex_pad 8 (uint (word_of_int (snd (TimelineCursor.occurred_at c)) :: u32)), simple (TimelineCursor.event_id c)]"
proof -
  have dot: "CHR ''.'' \<notin> set (hex_pad w n)" if "0 \<le> n" for w n
    using hex_pad_chars [OF that] by blast
  have "CHR ''.'' \<notin> set CURSOR_VERSION" by (simp add: CURSOR_VERSION_def)
  with dot simple_dot show ?thesis
    by (simp add: cursor_encode_def str_split_field str_split_last)
qed

lemma length_encoded: "length (cursor_encode simple c) = 78"
  by (simp add: cursor_encode_def CURSOR_VERSION_def simple_length)

text \<open>A cursor survives its textual form exactly when its instant is not inside a leap second.\<close>

lemma parse_encoded:
  assumes "representable (TimelineCursor.occurred_at c)"
  shows "cursor_parse parse_str timestamp_opt (cursor_encode simple c) =
    (if snd (TimelineCursor.occurred_at c) < 1000000000 then Inr c else Inl InvalidCursor)"
proof -
  let ?t = "TimelineCursor.occurred_at c"
  have s: "sint (word_of_int (fst ?t) :: u64) = fst ?t"
    using seconds_range [OF assms] by (simp add: signed_of_int signed_take_bit_int_eq_self)
  have n: "uint (word_of_int (snd ?t) :: u32) = snd ?t"
    using nanos_range [OF assms] by (simp add: word_uint_eq_iff uint_word_of_int)
  have w: "0 \<le> uint x" "uint x < 2 ^ LENGTH('b)" for x :: "'b::len word" by simp_all
  have r1: "from_str_radix_16 64 (hex_pad 16 (uint (x :: u64))) = Some (uint x)" for x
    using w [of x] by (intro from_str_radix_pad) simp_all
  have r2: "from_str_radix_16 32 (hex_pad 8 (uint (x :: u32))) = Some (uint x)" for x
    using w [of x] by (intro from_str_radix_pad) simp_all
  have r3: "from_str_radix_16 32 (hex_pad 8 (snd ?t)) = Some (snd ?t)"
    using r2 [of "word_of_int (snd ?t)"] n by simp
  show ?thesis
    using timestamp_exact [OF assms]
    by (simp add: cursor_parse_def length_encoded split_encoded simple_length r1 r3 n s parse_simple)
qed

end

section \<open>A concrete codec\<close>

definition hex_uuid :: "Uuid \<Rightarrow> string" where
  "hex_uuid u = hex_pad 32 (uint u)"

definition hex_uuid_parse :: "string \<Rightarrow> Uuid option" where
  "hex_uuid_parse s = (if length s = 32 then map_option word_of_int (hex_parse 0 s) else None)"

definition utc_representable :: "DateTime \<Rightarrow> bool" where
  "utc_representable t \<longleftrightarrow> - 8334601228800 \<le> fst t \<and> fst t \<le> 8210266876799 \<and> 0 \<le> snd t \<and> snd t < 2000000000"

definition utc_timestamp_opt :: "int \<Rightarrow> int \<Rightarrow> DateTime option" where
  "utc_timestamp_opt s n = (if utc_representable (s, n) then Some (s, n) else None)"

interpretation hex_codec: cursor_codec hex_uuid hex_uuid_parse utc_timestamp_opt utc_representable
proof
  fix u :: Uuid and t :: DateTime
  show "length (hex_uuid u) = 32" by (simp add: hex_uuid_def)
  show "CHR ''.'' \<notin> set (hex_uuid u)" using hex_pad_chars [of "uint u" "CHR ''.''" 32] by (auto simp: hex_uuid_def)
  have "uint u < 16 ^ 32" using unsigned_less [of u, where 'a = int] by simp
  then show "hex_uuid_parse (hex_uuid u) = Some u"
    using hex_parse_pad [of "uint u" 32] by (simp add: hex_uuid_parse_def hex_uuid_def)
qed (auto simp: utc_representable_def utc_timestamp_opt_def)

end
