(* ===== verification/TimelineSpec.thy ===== *)
theory TimelineSpec
  imports Timeline StoreIngest
begin

text \<open>
  The properties of the timeline: the round trip of cursors, the errors and the accounting of a
  page, and that following the cursors shows every retained event exactly once, newest first.
\<close>

section \<open>The order of the timeline\<close>

lemma total_cmp_timeline: "total_cmp timeline_cmp"
  unfolding timeline_cmp_def [abs_def] by (rule total_cmp_intros)+

interpretation timeline_order: total_cmp timeline_cmp
  by (rule total_cmp_timeline)

definition cursor_at :: "u64 \<Rightarrow> EventRecord \<Rightarrow> TimelineCursor" where
  "cursor_at r rec = \<lparr>TimelineCursor.revision = r, occurred_at = record_time rec, event_id = record_id rec\<rparr>"

lemma before_cursor_cmp: "before_cursor (Some (cursor_at r x)) y \<longleftrightarrow> timeline_cmp x y = Less"
  by (auto simp: before_cursor_def cursor_at_def timeline_cmp_def then_with_Less)

lemma after_element:
  assumes "distinct (map record_id recs)" and split: "sort_by timeline_cmp recs = xs @ x # ys"
  shows "filter (before_cursor (Some (cursor_at r x))) (sort_by timeline_cmp recs) = ys"
proof -
  have sorted: "sorted_wrt (\<lambda>u v. timeline_cmp u v \<noteq> Greater) (xs @ x # ys)"
    using timeline_order.sorted_sort_by [of recs] split by simp
  have "distinct (map record_id (sort_by timeline_cmp recs))"
    using assms(1) timeline_order.mset_sort_by [of recs] by (metis mset_eq_imp_distinct_iff mset_map)
  then have ids: "record_id x \<notin> record_id ` set ys" by (simp add: split)
  have "timeline_cmp x y = Less" if "y \<in> set ys" for y
  proof -
    have "timeline_cmp x y \<noteq> Greater" using sorted that by (simp add: sorted_wrt_append)
    moreover have "timeline_cmp x y \<noteq> Equal" using ids that by (simp add: timeline_cmp_def) (metis imageI)
    ultimately show ?thesis by (cases "timeline_cmp x y") auto
  qed
  moreover have "timeline_cmp x u \<noteq> Less" if "u \<in> set xs" for u
  proof -
    have "timeline_cmp u x \<noteq> Greater" using sorted that by (simp add: sorted_wrt_append)
    then show ?thesis using timeline_order.cmp_swap [of x u] by (cases "timeline_cmp u x") auto
  qed
  ultimately show ?thesis
    unfolding split by (auto simp: before_cursor_cmp timeline_order.cmp_refl filter_empty_conv intro!: filter_True)
qed

section \<open>Properties\<close>

text \<open>
  C7: the textual form of a cursor parses back to the same cursor, for every revision, every
  identifier and every representable instant outside a leap second; a cursor inside a leap second
  does not survive its own textual form.
\<close>

theorem cursor_round_trip:
  assumes "cursor_codec simple parse_str timestamp_opt representable"
    and "representable (TimelineCursor.occurred_at c)"
  shows "cursor_parse parse_str timestamp_opt (cursor_encode simple c) =
    (if snd (TimelineCursor.occurred_at c) < 1000000000 then Inr c else Inl InvalidCursor)"
  by (rule cursor_codec.parse_encoded [OF assms])

theorem cursor_round_trip_witness:
  "cursor_parse hex_uuid_parse utc_timestamp_opt
     (cursor_encode hex_uuid \<lparr>TimelineCursor.revision = 7, occurred_at = (- 5, 987654321), event_id = 9\<rparr>) =
   Inr \<lparr>TimelineCursor.revision = 7, occurred_at = (- 5, 987654321), event_id = 9\<rparr> \<and>
   cursor_parse hex_uuid_parse utc_timestamp_opt
     (cursor_encode hex_uuid \<lparr>TimelineCursor.revision = 7, occurred_at = (1483228799, 1500000000), event_id = 9\<rparr>) =
   Inl InvalidCursor"
  using cursor_round_trip [OF hex_codec.cursor_codec_axioms,
      of "\<lparr>TimelineCursor.revision = 7, occurred_at = (- 5, 987654321), event_id = 9\<rparr>"]
    cursor_round_trip [OF hex_codec.cursor_codec_axioms,
      of "\<lparr>TimelineCursor.revision = 7, occurred_at = (1483228799, 1500000000), event_id = 9\<rparr>"]
  by (simp add: utc_representable_def)

text \<open>
  A page is refused exactly for a limit outside 1 to 100 or a cursor of another revision, in
  this order of precedence.
\<close>

theorem timeline_page_errors:
  "build_timeline_page simple snap pol c =
     (if limit pol = 0 \<or> 100 < limit pol then Inl InvalidLimit
      else case c of
        Some k \<Rightarrow> if TimelineCursor.revision k = Snapshot.revision snap then Inr (timeline_body simple snap pol c)
          else Inl (RevisionChanged (TimelineCursor.revision k) (Snapshot.revision snap))
      | None \<Rightarrow> Inr (timeline_body simple snap pol c))"
  by (simp add: build_timeline_page_def validate_timeline_policy_def MAX_TIMELINE_PAGE_LIMIT_def split: option.split)

text \<open>
  The accounting of a page adds up. The events of a page are retained events, newest first,
  at most as many as the limit; the skipped, the returned and the remaining events are all the
  retained events; there is a next cursor exactly when older events remain, and it names the last
  event of the page.
\<close>

theorem timeline_page_accounting:
  assumes "build_timeline_page simple snap pol c = Inr page"
  shows "set (TimelinePage.events page) \<subseteq> set (Snapshot.recent_events snap) \<and>
    sorted_wrt (\<lambda>l r. timeline_cmp l r \<noteq> Greater) (TimelinePage.events page) \<and>
    returned page = length (TimelinePage.events page) \<and> returned page \<le> limit pol \<and> limit pol \<le> 100 \<and>
    retained_total page = length (Snapshot.recent_events snap) \<and>
    newer_retained_events_skipped page + returned page + remaining_older page = retained_total page \<and>
    (next_cursor page = None \<longleftrightarrow> remaining_older page = 0) \<and>
    (next_cursor page \<noteq> None \<longrightarrow> TimelinePage.events page \<noteq> [] \<and>
      next_cursor page = Some (cursor_encode simple (cursor_at (Snapshot.revision snap) (last (TimelinePage.events page)))))"
proof -
  let ?R = "sort_by timeline_cmp (Snapshot.recent_events snap)" and ?F = "filter (before_cursor c) (sort_by timeline_cmp (Snapshot.recent_events snap))"
  from assms have page: "page = timeline_body simple snap pol c" and lim: "0 < limit pol" "limit pol \<le> 100"
    by (auto simp: build_timeline_page_def validate_timeline_policy_def MAX_TIMELINE_PAGE_LIMIT_def split: option.splits if_splits)
  have len: "length ?R = length (Snapshot.recent_events snap)" by (rule timeline_order.length_sort_by)
  have le: "length ?F \<le> length (Snapshot.recent_events snap)" using length_filter_le [of "before_cursor c" ?R] len by simp
  have sub: "set (take (limit pol) ?F) \<subseteq> set (Snapshot.recent_events snap)"
    using set_take_subset [of "limit pol" ?F] timeline_order.set_sort_by [of "Snapshot.recent_events snap"] by auto
  have sorted: "sorted_wrt (\<lambda>l r. timeline_cmp l r \<noteq> Greater) (take (limit pol) ?F)"
    by (intro sorted_wrt_take sorted_wrt_filter timeline_order.sorted_sort_by)
  show ?thesis
    unfolding page timeline_body_def Let_def len
    using lim le sub sorted by (auto simp: cursor_at_def)
qed

section \<open>Following the cursors\<close>

definition demo_record :: "Uuid \<Rightarrow> DateTime \<Rightarrow> EventRecord" where
  "demo_record u t = \<lparr>EventRecord.event = envelope_new u t
     \<lparr>AgentRef.agent_id = ''a'', provider = ''p'', model = ''m'', instance_id = None\<rparr> (Heartbeat
       \<lparr>HeartbeatData.status = None, active_task_id = None, load = None\<rparr>), transport = Http, received_at = t\<rparr>"

definition demo_snapshot :: "EventRecord list \<Rightarrow> Snapshot" where
  "demo_snapshot recs =
     (let z = \<lparr>CacheStats.len = 0, capacity = 1, evictions = 0, pressure = 0\<rparr> in
      \<lparr>Snapshot.generated_at = (0, 0), started_at = (0, 0), revision = 3, agents = [], goals = [], tasks = [], lessons = [],
       recent_events = recs,
       caches = \<lparr>CacheSnapshot.agents = z, goals = z, tasks = z, lessons = z, events = z, idempotency = z\<rparr>,
       counters = counters_default\<rparr>)"

theorem timeline_page_accounting_witness:
  "\<exists>page. build_timeline_page hex_uuid (demo_snapshot [demo_record 1 (5, 0), demo_record 2 (6, 0)]) \<lparr>limit = 1\<rparr> None = Inr page \<and>
     newer_retained_events_skipped page + returned page + remaining_older page = retained_total page"
proof -
  let ?snap = "demo_snapshot [demo_record 1 (5, 0), demo_record 2 (6, 0)]"
  have "build_timeline_page hex_uuid ?snap \<lparr>limit = 1\<rparr> None = Inr (timeline_body hex_uuid ?snap \<lparr>limit = 1\<rparr> None)"
    by (simp add: build_timeline_page_def validate_timeline_policy_def MAX_TIMELINE_PAGE_LIMIT_def)
  with timeline_page_accounting [OF this] show ?thesis by blast
qed

text \<open>A client that follows the cursors, with a bound on the number of requests.\<close>

fun timeline_walk ::
  "(Uuid \<Rightarrow> string) \<Rightarrow> (string \<Rightarrow> Uuid option) \<Rightarrow> (int \<Rightarrow> int \<Rightarrow> DateTime option) \<Rightarrow> Snapshot \<Rightarrow> TimelinePolicy \<Rightarrow>
   nat \<Rightarrow> TimelineCursor option \<Rightarrow> (TimelineError + EventRecord list) option" where
  "timeline_walk simple parse_str ts snap pol 0 c = None"
| "timeline_walk simple parse_str ts snap pol (Suc n) c =
     (case build_timeline_page simple snap pol c of
        Inl err \<Rightarrow> Some (Inl err)
      | Inr page \<Rightarrow>
        (case next_cursor page of
           None \<Rightarrow> Some (Inr (TimelinePage.events page))
         | Some text \<Rightarrow>
           (case cursor_parse parse_str ts text of
              Inl err \<Rightarrow> Some (Inl err)
            | Inr k \<Rightarrow>
              (case timeline_walk simple parse_str ts snap pol n (Some k) of
                 Some (Inr rest) \<Rightarrow> Some (Inr (TimelinePage.events page @ rest))
               | r \<Rightarrow> r))))"

lemma timeline_walk_rest:
  assumes codec: "cursor_codec simple parse_str ts representable"
    and lim: "0 < limit pol" "limit pol \<le> 100"
    and ids: "distinct (map record_id (Snapshot.recent_events snap))"
    and times: "\<forall>x \<in> set (Snapshot.recent_events snap). representable (record_time x) \<and> snd (record_time x) < 1000000000"
  shows "sort_by timeline_cmp (Snapshot.recent_events snap) = xs @ ys \<Longrightarrow>
    filter (before_cursor c) (sort_by timeline_cmp (Snapshot.recent_events snap)) = ys \<Longrightarrow>
    (\<forall>k. c = Some k \<longrightarrow> TimelineCursor.revision k = Snapshot.revision snap) \<Longrightarrow> length ys \<le> n \<Longrightarrow>
    timeline_walk simple parse_str ts snap pol (Suc n) c = Some (Inr ys)"
proof (induction n arbitrary: xs ys c)
  case 0
  then have "build_timeline_page simple snap pol c = Inr (timeline_body simple snap pol c)" "ys = []"
    using lim by (auto simp: build_timeline_page_def validate_timeline_policy_def MAX_TIMELINE_PAGE_LIMIT_def split: option.split)
  with 0 show ?case by (simp add: timeline_body_def Let_def)
next
  case (Suc n)
  have page: "build_timeline_page simple snap pol c = Inr (timeline_body simple snap pol c)"
    using Suc.prems(3) lim by (auto simp: build_timeline_page_def validate_timeline_policy_def MAX_TIMELINE_PAGE_LIMIT_def split: option.split)
  show ?case
  proof (cases "length ys \<le> limit pol")
    case True
    with page Suc.prems(2) show ?thesis by (simp add: timeline_body_def Let_def)
  next
    case False
    let ?shown = "take (limit pol) ys" and ?k = "cursor_at (Snapshot.revision snap) (last (take (limit pol) ys))"
    have ne: "?shown \<noteq> []" using False lim by auto
    then have split: "sort_by timeline_cmp (Snapshot.recent_events snap) =
        (xs @ butlast ?shown) @ last ?shown # drop (limit pol) ys"
      using Suc.prems(1) by (metis append.assoc append_Cons append_Nil append_butlast_last_id append_take_drop_id)
    have "last ?shown \<in> set (Snapshot.recent_events snap)"
      using split timeline_order.set_sort_by [of "Snapshot.recent_events snap"]
      by (metis in_set_conv_decomp)
    with times have "cursor_parse parse_str ts (cursor_encode simple ?k) = Inr ?k"
      using cursor_codec.parse_encoded [OF codec, of ?k] by (simp add: cursor_at_def)
    moreover have "timeline_walk simple parse_str ts snap pol (Suc n) (Some ?k) = Some (Inr (drop (limit pol) ys))"
    proof (rule Suc.IH)
      show "sort_by timeline_cmp (Snapshot.recent_events snap) = (xs @ ?shown) @ drop (limit pol) ys"
        using Suc.prems(1) by simp
      show "filter (before_cursor (Some ?k)) (sort_by timeline_cmp (Snapshot.recent_events snap)) = drop (limit pol) ys"
        by (rule after_element [OF ids split])
      show "\<forall>k. Some ?k = Some k \<longrightarrow> TimelineCursor.revision k = Snapshot.revision snap"
        by (simp add: cursor_at_def)
      show "length (drop (limit pol) ys) \<le> n" using Suc.prems(4) lim by simp
    qed
    ultimately show ?thesis
      using page Suc.prems(2) False
      by (simp add: timeline_body_def Let_def cursor_at_def [symmetric] del: timeline_walk.simps
          add: timeline_walk.simps(2) [of simple parse_str ts snap pol "Suc n" c])
  qed
qed

text \<open>
  C8: if no retained event is dated inside a leap second, a client that follows the cursors of an unchanged store
  sees every retained event exactly once, newest first, without gap or overlap between the pages; as many requests as there are
  retained events, and one more, are always enough. The condition is needed: a page that ends with an event inside a leap second
  returns a cursor that the server itself refuses, as \<open>timeline_walk_stops_at_leap_second\<close> shows.
\<close>

theorem timeline_pages_cover_all:
  assumes "cursor_codec simple parse_str ts representable"
    and "0 < limit pol" and "limit pol \<le> 100"
    and "distinct (map record_id (Snapshot.recent_events snap))"
    and "\<forall>x \<in> set (Snapshot.recent_events snap). representable (record_time x) \<and> snd (record_time x) < 1000000000"
  shows "timeline_walk simple parse_str ts snap pol (Suc (length (Snapshot.recent_events snap))) None =
    Some (Inr (sort_by timeline_cmp (Snapshot.recent_events snap)))"
  by (rule timeline_walk_rest [OF assms, of "[]"])
    (simp_all add: before_cursor_def timeline_order.length_sort_by)

theorem timeline_pages_cover_all_witness:
  "timeline_walk hex_uuid hex_uuid_parse utc_timestamp_opt
     (demo_snapshot [demo_record 1 (5, 0), demo_record 2 (6, 0), demo_record 3 (5, 0)]) \<lparr>limit = 1\<rparr> 4 None =
   Some (Inr [demo_record 2 (6, 0), demo_record 3 (5, 0), demo_record 1 (5, 0)])"
proof -
  let ?recs = "[demo_record 1 (5, 0), demo_record 2 (6, 0), demo_record 3 (5, 0)]"
  have "sort_by timeline_cmp ?recs = [demo_record 2 (6, 0), demo_record 3 (5, 0), demo_record 1 (5, 0)]"
    by (simp add: timeline_cmp_def demo_record_def envelope_new_def cmp_def)
  moreover have "Snapshot.recent_events (demo_snapshot ?recs) = ?recs" by (simp add: demo_snapshot_def Let_def)
  ultimately show ?thesis
    using timeline_pages_cover_all [OF hex_codec.cursor_codec_axioms, of "\<lparr>limit = 1\<rparr>" "demo_snapshot ?recs"]
    by (simp add: demo_record_def envelope_new_def utc_representable_def eval_nat_numeral del: timeline_walk.simps)
qed

text \<open>With an event inside a leap second the client is stopped by the cursor of its first page.\<close>

lemma timeline_walk_stops_at_leap_second:
  "case timeline_walk hex_uuid hex_uuid_parse utc_timestamp_opt
     (demo_snapshot [demo_record 1 (5, 0), demo_record 2 (6, 1500000000)]) \<lparr>limit = 1\<rparr> 3 None of
     Some (Inl err) \<Rightarrow> True | _ \<Rightarrow> False"
  by code_simp

end
