(* ===== verification/Metacognition.thy ===== *)
theory Metacognition
  imports Store
begin

text \<open>
  The data of the metacognition engine (\<open>src/metacognition/types.rs\<close>) and the small helpers of
  \<open>src/metacognition/graph.rs\<close>: the policy and its normalization, the ten diagnostic rules, the
  reports, ages, ratios and means, the event index and the state of the dependencies of a task.

  \<open>usize\<close> is \<open>nat\<close> and \<open>i64\<close> is \<open>int\<close>, with saturation written out. The difference of two
  instants in whole seconds belongs to the crate \<open>chrono\<close>; it is the argument \<open>since\<close>.
\<close>

section \<open>Types\<close>

definition MAX_SOURCE_EVENT_IDS :: nat where
  "MAX_SOURCE_EVENT_IDS = 12"

type_synonym TaskKey = "string \<times> string"
type_synonym GoalKey = "string \<times> string"
type_synonym TaskLookup = "(TaskKey, TaskState) BTreeMap"
type_synonym TaskEventIndex = "(TaskKey, EventRecord list) BTreeMap"

definition i64_max :: int where "i64_max = 2 ^ 63 - 1"
definition i64_min :: int where "i64_min = - (2 ^ 63)"
definition usize_max :: nat where "usize_max = 2 ^ 64 - 1"

definition i64_sat_mul :: "int \<Rightarrow> int \<Rightarrow> int" where
  "i64_sat_mul a b = max i64_min (min i64_max (a * b))"

definition usize_sat_add :: "nat \<Rightarrow> nat \<Rightarrow> nat" where
  "usize_sat_add a b = min usize_max (a + b)"

record AnalysisPolicy =
  stale_after_seconds :: int
  retry_loop_attempts :: u32
  low_confidence_threshold :: f32

definition analysis_policy_default :: AnalysisPolicy where
  "analysis_policy_default =
     \<lparr>stale_after_seconds = 15 * 60, retry_loop_attempts = 3, low_confidence_threshold = 0x3EE66666\<rparr>"

definition policy_normalized :: "AnalysisPolicy \<Rightarrow> AnalysisPolicy" where
  "policy_normalized p =
     \<lparr>stale_after_seconds = max (stale_after_seconds p) 1,
      retry_loop_attempts = max (retry_loop_attempts p) 2,
      low_confidence_threshold =
        (if f32_is_finite (low_confidence_threshold p)
         then f32_clamp (low_confidence_threshold p) f32_zero f32_one
         else low_confidence_threshold analysis_policy_default)\<rparr>"

datatype DiagnosticSeverity = Info | Warning | Critical

fun severity_rank :: "DiagnosticSeverity \<Rightarrow> nat" where
  "severity_rank Info = 1"
| "severity_rank Warning = 2"
| "severity_rank Critical = 3"

datatype DiagnosticRule =
    StalledTask | RetryLoop | BlockedDependency | OrphanDependency | DependencyCycle | OrphanGoal
  | MissingEvidence | LowConfidence | MissingNextAction | CompletionMismatch

fun rule_as_str :: "DiagnosticRule \<Rightarrow> string" where
  "rule_as_str StalledTask = ''stalled_task''"
| "rule_as_str RetryLoop = ''retry_loop''"
| "rule_as_str BlockedDependency = ''blocked_dependency''"
| "rule_as_str OrphanDependency = ''orphan_dependency''"
| "rule_as_str DependencyCycle = ''dependency_cycle''"
| "rule_as_str OrphanGoal = ''orphan_goal''"
| "rule_as_str MissingEvidence = ''missing_evidence''"
| "rule_as_str LowConfidence = ''low_confidence''"
| "rule_as_str MissingNextAction = ''missing_next_action''"
| "rule_as_str CompletionMismatch = ''completion_mismatch''"

record Diagnostic =
  diagnostic_id :: string
  rule :: DiagnosticRule
  severity :: DiagnosticSeverity
  agent_id :: string
  goal_id :: "string option"
  task_id :: "string option"
  summary :: string
  explanation :: string
  recommended_action :: "string option"
  source_event_ids :: "Uuid list"
  source_events_retained :: bool

record TaskAnalysis =
  agent_id :: string
  task_id :: string
  goal_id :: "string option"
  status :: TaskStatus
  self_reported_progress :: f32
  evidence_backed_progress :: f32
  confidence :: "f32 option"
  evidence_count :: nat
  attempt :: u32
  stale_for_seconds :: int
  blocker_age_seconds :: "int option"
  unresolved_dependencies :: "string list"
  missing_dependencies :: "string list"
  on_critical_path :: bool
  diagnostic_ids :: "string list"
  source_event_ids :: "Uuid list"
  source_events_retained :: bool

record GoalAnalysis =
  agent_id :: string
  goal_id :: string
  title :: string
  success_criteria_count :: nat
  total_tasks :: nat
  active_tasks :: nat
  blocked_tasks :: nat
  completed_tasks :: nat
  stalled_tasks :: nat
  self_reported_progress :: f32
  evidence_backed_progress :: f32
  evidence_coverage :: f32
  critical_path_remaining :: "nat option"
  critical_path_task_ids :: "string list"
  diagnostic_ids :: "string list"
  data_quality_warnings :: "string list"

record MetacognitionSummary =
  total_goals :: nat
  total_tasks :: nat
  active_tasks :: nat
  blocked_tasks :: nat
  stalled_tasks :: nat
  retry_loops :: nat
  critical_diagnostics :: nat
  warning_diagnostics :: nat
  info_diagnostics :: nat
  self_reported_progress :: f32
  evidence_backed_progress :: f32
  evidence_coverage :: f32

record MetacognitionSnapshot =
  generated_at :: DateTime
  revision :: u64
  policy :: AnalysisPolicy
  summary :: MetacognitionSummary
  goals :: "GoalAnalysis list"
  tasks :: "TaskAnalysis list"
  diagnostics :: "Diagnostic list"

section \<open>Helpers\<close>

definition diagnostic_key :: "DiagnosticRule \<Rightarrow> string \<Rightarrow> string \<Rightarrow> string" where
  "diagnostic_key r a tid = rule_as_str r @ '':'' @ a @ '':'' @ tid"

definition age_seconds :: "(DateTime \<Rightarrow> DateTime \<Rightarrow> int) \<Rightarrow> DateTime \<Rightarrow> DateTime \<Rightarrow> int" where
  "age_seconds since now past = max (since now past) 0"

definition is_active :: "TaskStatus \<Rightarrow> bool" where
  "is_active s \<longleftrightarrow> s \<in> {TaskStatus.Pending, TaskStatus.Running, TaskStatus.Blocked}"

definition is_terminal :: "TaskStatus \<Rightarrow> bool" where
  "is_terminal s \<longleftrightarrow> s \<in> {TaskStatus.Succeeded, TaskStatus.Failed, TaskStatus.Canceled, TaskStatus.Partial}"

definition ratio :: "nat \<Rightarrow> nat \<Rightarrow> f32" where
  "ratio numerator denominator =
     (if denominator = 0 then f32_zero else f32_div (f32_of_nat numerator) (f32_of_nat denominator))"

definition mean :: "f32 list \<Rightarrow> f32" where
  "mean vs =
     (let (sum, count) = fold (\<lambda>v (sum, count). (f32_add sum v, usize_sat_add count 1)) vs (f32_zero, 0)
      in if count = 0 then f32_zero else f32_div sum (f32_of_nat count))"

text \<open>The events of each task, oldest first, ties by identifier.\<close>

definition record_cmp :: "EventRecord \<Rightarrow> EventRecord \<Rightarrow> ordering" where
  "record_cmp l r =
     cmp (EventEnvelope.occurred_at (EventRecord.event l), EventEnvelope.event_id (EventRecord.event l))
         (EventEnvelope.occurred_at (EventRecord.event r), EventEnvelope.event_id (EventRecord.event r))"

definition index_record :: "EventRecord \<Rightarrow> TaskEventIndex \<Rightarrow> TaskEventIndex" where
  "index_record rec m =
     (case event_task_id (EventEnvelope.event (EventRecord.event rec)) of
        None \<Rightarrow> m
      | Some tid \<Rightarrow>
          bt_update (AgentRef.agent_id (EventEnvelope.agent (EventRecord.event rec)), tid) [] (\<lambda>rs. rs @ [rec]) m)"

definition index_task_events :: "EventRecord list \<Rightarrow> TaskEventIndex" where
  "index_task_events evs = map (\<lambda>(k, rs). (k, sort_by record_cmp rs)) (fold index_record evs [])"

definition recent_event_ids :: "EventRecord list option \<Rightarrow> Uuid list" where
  "recent_event_ids records =
     (case records of
        None \<Rightarrow> []
      | Some rs \<Rightarrow> map (\<lambda>rec. EventEnvelope.event_id (EventRecord.event rec)) (take MAX_SOURCE_EVENT_IDS (rev rs)))"

definition task_key :: "TaskState \<Rightarrow> TaskKey" where
  "task_key t = (TaskState.agent_id t, TaskSpec.task_id (TaskState.task t))"

text \<open>
  The dependencies of a task that are retained but have not succeeded, and those that are not
  retained, each in the order of the strings.
\<close>

definition dep_step :: "TaskState \<Rightarrow> TaskLookup \<Rightarrow> string \<Rightarrow> string list \<times> string list \<Rightarrow> string list \<times> string list" where
  "dep_step t lookup d acc =
     (case bt_get lookup (TaskState.agent_id t, d) of
        Some dep \<Rightarrow> if TaskState.status dep = TaskStatus.Succeeded then acc else (fst acc @ [d], snd acc)
      | None \<Rightarrow> (fst acc, snd acc @ [d]))"

definition dependency_state :: "TaskState \<Rightarrow> TaskLookup \<Rightarrow> string list \<times> string list" where
  "dependency_state t lookup =
     (let (unresolved, missing) = fold (dep_step t lookup) (TaskSpec.depends_on (TaskState.task t)) ([], [])
      in (sort_by cmp unresolved, sort_by cmp missing))"

section \<open>Lemmas\<close>

lemma active_xor_terminal: "is_active s \<longleftrightarrow> \<not> is_terminal s"
  by (cases s) (simp_all add: is_active_def is_terminal_def)

lemma dep_fold:
  "fold (dep_step t lookup) ds (u, m) =
     (u @ filter (\<lambda>d. \<exists>dep. bt_get lookup (TaskState.agent_id t, d) = Some dep \<and> TaskState.status dep \<noteq> TaskStatus.Succeeded) ds,
      m @ filter (\<lambda>d. bt_get lookup (TaskState.agent_id t, d) = None) ds)"
  by (induction ds arbitrary: u m) (auto simp: dep_step_def split: option.split)

lemma dependency_state_sets:
  "set (fst (dependency_state t lookup)) = {d \<in> set (TaskSpec.depends_on (TaskState.task t)).
     \<exists>dep. bt_get lookup (TaskState.agent_id t, d) = Some dep \<and> TaskState.status dep \<noteq> TaskStatus.Succeeded}"
  "set (snd (dependency_state t lookup)) = {d \<in> set (TaskSpec.depends_on (TaskState.task t)).
     bt_get lookup (TaskState.agent_id t, d) = None}"
  by (auto simp: dependency_state_def dep_fold ord_cmp.set_sort_by)

lemma dependencies_resolved_iff:
  "dependency_state t lookup = ([], []) \<longleftrightarrow>
     (\<forall>d \<in> set (TaskSpec.depends_on (TaskState.task t)).
        \<exists>dep. bt_get lookup (TaskState.agent_id t, d) = Some dep \<and> TaskState.status dep = TaskStatus.Succeeded)"
proof -
  have "dependency_state t lookup = ([], []) \<longleftrightarrow>
      set (fst (dependency_state t lookup)) = {} \<and> set (snd (dependency_state t lookup)) = {}"
    by (simp add: prod_eq_iff)
  also have "\<dots> \<longleftrightarrow> (\<forall>d \<in> set (TaskSpec.depends_on (TaskState.task t)).
        \<exists>dep. bt_get lookup (TaskState.agent_id t, d) = Some dep \<and> TaskState.status dep = TaskStatus.Succeeded)"
    unfolding dependency_state_sets by (auto simp: not_None_eq)
  finally show ?thesis .
qed

end
