(* ===== verification/Graph.thy ===== *)
theory Graph
  imports Metacognition
begin

text \<open>
  The dependency graph of the metacognition engine (\<open>src/metacognition/graph.rs\<close>): the search for
  dependency cycles, the remaining depths with their memo table, and the critical paths.

  The mutable arguments of \<open>visit_cycle\<close> (the states, the stack and the members) are a triple; the
  loop over the dependencies is the second function of a mutual recursion. Both recursions are
  nested, and terminate because the nodes not yet visited, or without a memo entry, decrease.
\<close>

section \<open>The search for cycles\<close>

type_synonym TaskGraph = "(string, string list) BTreeMap"

datatype VisitState = Visiting | Done

type_synonym visit = "(string \<rightharpoonup> VisitState) \<times> string list \<times> TaskKey set"

lemma dom_upd_eta: "dom (\<lambda>a. if a = x then Some v else m a) = insert x (dom m)"
  by auto

definition unvisited :: "TaskGraph \<Rightarrow> (string \<rightharpoonup> VisitState) \<Rightarrow> nat" where
  "unvisited g states = card (set (bt_keys g) - dom states)"

lemma unvisited_mono: "dom states \<subseteq> dom states' \<Longrightarrow> unvisited g states' \<le> unvisited g states"
  unfolding unvisited_def by (rule card_mono) auto

lemma unvisited_visit:
  assumes "states x = None" and "bt_get g x = Some ds"
  shows "unvisited g (states(x \<mapsto> v)) < unvisited g states"
proof -
  have "x \<in> set (bt_keys g)"
    using assms(2) by (auto simp: bt_get_def bt_keys_def dest: map_of_SomeD intro: rev_image_eqI)
  with assms(1) show ?thesis
    unfolding unvisited_def by (intro psubset_card_mono) auto
qed

function visit_cycle :: "TaskGraph \<Rightarrow> string \<Rightarrow> string \<Rightarrow> visit \<Rightarrow> visit"
  and visit_dependencies :: "TaskGraph \<Rightarrow> string \<Rightarrow> string list \<Rightarrow> visit \<Rightarrow> visit" where
  "visit_cycle g a x (states, stack, members) =
     (case states x of
        Some Done \<Rightarrow> (states, stack, members)
      | Some Visiting \<Rightarrow>
          (states, stack,
           if x \<in> set stack then members \<union> Pair a ` set (dropWhile (\<lambda>v. v \<noteq> x) stack) else members)
      | None \<Rightarrow>
          (let (states', stack', members') =
             (case bt_get g x of
                None \<Rightarrow> (states(x \<mapsto> Visiting), stack @ [x], members)
              | Some dependencies \<Rightarrow>
                  visit_dependencies g a dependencies (states(x \<mapsto> Visiting), stack @ [x], members))
           in (states'(x \<mapsto> Done), butlast stack', members')))"
| "visit_dependencies g a [] st = st"
| "visit_dependencies g a (d # ds) st = visit_dependencies g a ds (visit_cycle g a d st)"
  by pat_completeness auto
termination
proof -
  have grows: "visit_cycle_visit_dependencies_dom (Inl (g, a, x, st)) \<Longrightarrow> dom (fst st) \<subseteq> dom (fst (visit_cycle g a x st))"
    "visit_cycle_visit_dependencies_dom (Inr (g, a, ds, st)) \<Longrightarrow> dom (fst st) \<subseteq> dom (fst (visit_dependencies g a ds st))"
    for g a x ds st
  proof (induction g a x st and g a ds st rule: visit_cycle_visit_dependencies.pinduct)
    case (1 g a x states stack members)
    show ?case
    proof (cases "states x")
      case None
      show ?thesis
      proof (cases "bt_get g x")
        case None
        with \<open>states x = None\<close> show ?thesis by (auto simp: visit_cycle.psimps [OF 1(1)])
      next
        case (Some ds)
        obtain s' k' m' where eq: "visit_dependencies g a ds (states(x \<mapsto> Visiting), stack @ [x], members) = (s', k', m')"
          by (cases "visit_dependencies g a ds (states(x \<mapsto> Visiting), stack @ [x], members)")
        from 1(2) [OF \<open>states x = None\<close> Some] have "insert x (dom states) \<subseteq> dom s'"
          by (simp add: eq dom_upd_eta)
        then show ?thesis
          using \<open>states x = None\<close> Some by (simp add: visit_cycle.psimps [OF 1(1)] eq dom_upd_eta) blast
      qed
    next
      case (Some v)
      then show ?thesis by (cases v) (simp_all add: visit_cycle.psimps [OF 1(1)])
    qed
  next
    case (2 g a st)
    then show ?case by (simp add: visit_dependencies.psimps)
  next
    case (3 g a d ds st)
    then show ?case by (auto simp: visit_dependencies.psimps)
  qed
  show ?thesis
  proof (relation "inv_image (less_than <*lex*> less_than)
      (\<lambda>p. case p of Inl (g, a, x, st) \<Rightarrow> (unvisited g (fst st), 0) | Inr (g, a, ds, st) \<Rightarrow> (unvisited g (fst st), Suc (length ds)))")
    fix g :: TaskGraph and a d :: string and ds :: "string list" and st :: visit
    assume "visit_cycle_visit_dependencies_dom (Inl (g, a, d, st))"
    from unvisited_mono [OF grows(1) [OF this], of g]
    show "(Inr (g, a, ds, visit_cycle g a d st), Inr (g, a, d # ds, st)) \<in> inv_image (less_than <*lex*> less_than)
      (\<lambda>p. case p of Inl (g, a, x, st) \<Rightarrow> (unvisited g (fst st), 0) | Inr (g, a, ds, st) \<Rightarrow> (unvisited g (fst st), Suc (length ds)))"
      by auto
  qed (auto simp: unvisited_visit)
qed

text \<open>The retained dependencies of each task, by agent and task.\<close>

definition retained_dependencies :: "TaskLookup \<Rightarrow> string \<Rightarrow> TaskState \<Rightarrow> string list" where
  "retained_dependencies lookup a t = filter (\<lambda>d. bt_get lookup (a, d) \<noteq> None) (TaskSpec.depends_on (TaskState.task t))"

definition add_task_edges ::
  "TaskLookup \<Rightarrow> TaskKey \<times> TaskState \<Rightarrow> (string, TaskGraph) BTreeMap \<Rightarrow> (string, TaskGraph) BTreeMap" where
  "add_task_edges lookup e m =
     (case e of ((a, tid), t) \<Rightarrow> bt_update a [] (bt_insert tid (retained_dependencies lookup a t)) m)"

definition graphs_by_agent :: "TaskLookup \<Rightarrow> (string, TaskGraph) BTreeMap" where
  "graphs_by_agent lookup = fold (add_task_edges lookup) lookup []"

definition visit_agent :: "string \<times> TaskGraph \<Rightarrow> TaskKey set \<Rightarrow> TaskKey set" where
  "visit_agent e members =
     (case e of (a, g) \<Rightarrow> snd (snd (fold (visit_cycle g a) (bt_keys g) (\<lambda>_. None, [], members))))"

definition dependency_cycle_members :: "TaskLookup \<Rightarrow> TaskKey set" where
  "dependency_cycle_members lookup = fold visit_agent (graphs_by_agent lookup) {}"

section \<open>Remaining depths\<close>

definition unmemoized :: "TaskLookup \<Rightarrow> (TaskKey \<rightharpoonup> nat) \<Rightarrow> nat" where
  "unmemoized l memo = card (set (bt_keys l) - dom memo)"

lemma unmemoized_mono: "dom memo \<subseteq> dom memo' \<Longrightarrow> unmemoized l memo' \<le> unmemoized l memo"
  unfolding unmemoized_def by (rule card_mono) auto

lemma unmemoized_insert:
  assumes "memo k = None" and "bt_get l k = Some t"
  shows "unmemoized l (memo(k \<mapsto> v)) < unmemoized l memo"
proof -
  have "k \<in> set (bt_keys l)"
    using assms(2) by (auto simp: bt_get_def bt_keys_def dest: map_of_SomeD intro: rev_image_eqI)
  with assms(1) show ?thesis
    unfolding unmemoized_def by (intro psubset_card_mono) auto
qed

function remaining_depth :: "TaskLookup \<Rightarrow> TaskKey set \<Rightarrow> TaskKey \<Rightarrow> (TaskKey \<rightharpoonup> nat) \<Rightarrow> nat \<times> (TaskKey \<rightharpoonup> nat)"
  and dependency_depth :: "TaskLookup \<Rightarrow> TaskKey set \<Rightarrow> TaskKey list \<Rightarrow> nat \<Rightarrow> (TaskKey \<rightharpoonup> nat) \<Rightarrow> nat \<times> (TaskKey \<rightharpoonup> nat)" where
  "remaining_depth lookup cycle k memo =
     (case memo k of
        Some depth \<Rightarrow> (depth, memo)
      | None \<Rightarrow>
        (case bt_get lookup k of
           None \<Rightarrow> (0, memo)
         | Some t \<Rightarrow>
           if TaskState.status t = TaskStatus.Succeeded then (0, memo(k \<mapsto> 0))
           else if k \<in> cycle then (1, memo(k \<mapsto> 1))
           else
             (let (below, memo') =
                dependency_depth lookup cycle (map (Pair (fst k)) (retained_dependencies lookup (fst k) t)) 0 (memo(k \<mapsto> 1));
                depth = usize_sat_add below 1
              in (depth, memo'(k \<mapsto> depth)))))"
| "dependency_depth lookup cycle [] m memo = (m, memo)"
| "dependency_depth lookup cycle (d # ds) m memo =
     (let (depth, memo') = remaining_depth lookup cycle d memo
      in dependency_depth lookup cycle ds (max m depth) memo')"
  by pat_completeness auto
termination
proof -
  have grows: "remaining_depth_dependency_depth_dom (Inl (l, c, k, memo)) \<Longrightarrow> dom memo \<subseteq> dom (snd (remaining_depth l c k memo))"
    "remaining_depth_dependency_depth_dom (Inr (l, c, ds, m, memo)) \<Longrightarrow> dom memo \<subseteq> dom (snd (dependency_depth l c ds m memo))"
    for l c k ds m memo
  proof (induction l c k memo and l c ds m memo rule: remaining_depth_dependency_depth.pinduct)
    case (1 l c k memo)
    show ?case
    proof (cases "\<exists>t. memo k = None \<and> bt_get l k = Some t \<and> TaskState.status t \<noteq> TaskStatus.Succeeded \<and> k \<notin> c")
      case True
      then obtain t where t: "memo k = None" "bt_get l k = Some t" "TaskState.status t \<noteq> TaskStatus.Succeeded" "k \<notin> c"
        by blast
      obtain below memo' where eq: "dependency_depth l c (map (Pair (fst k)) (retained_dependencies l (fst k) t)) 0
          (memo(k \<mapsto> 1)) = (below, memo')"
        by fastforce
      from 1(2) [OF t] have "insert k (dom memo) \<subseteq> dom memo'" using eq by (simp add: dom_upd_eta fun_upd_def)
      then show ?thesis
        using t eq by (simp add: remaining_depth.psimps [OF 1(1)] dom_upd_eta Let_def) blast
    qed (auto simp: remaining_depth.psimps [OF 1(1)] split: option.splits)
  next
    case (2 l c m memo)
    then show ?case by (simp add: dependency_depth.psimps)
  next
    case (3 l c d ds m memo)
    show ?case
      using 3(2) 3(3) [OF refl, OF prod.collapse]
      by (simp add: dependency_depth.psimps(2) [OF 3(1)] case_prod_unfold Let_def)
  qed
  show ?thesis
  proof (relation "inv_image (less_than <*lex*> less_than)
      (\<lambda>p. case p of Inl (l, c, k, memo) \<Rightarrow> (unmemoized l memo, 0) | Inr (l, c, ds, m, memo) \<Rightarrow> (unmemoized l memo, Suc (length ds)))")
    fix l c d ds m memo x depth memo'
    assume x: "x = remaining_depth l c d memo" "(depth, memo') = x"
      and dom: "remaining_depth_dependency_depth_dom (Inl (l, c, d, memo))"
    then have "unmemoized l memo' \<le> unmemoized l memo"
      using unmemoized_mono [OF grows(1) [OF dom], of l] by (metis snd_conv)
    then show "(Inr (l, c, ds, max m depth, memo'), Inr (l, c, d # ds, m, memo)) \<in> inv_image (less_than <*lex*> less_than)
      (\<lambda>p. case p of Inl (l, c, k, memo) \<Rightarrow> (unmemoized l memo, 0) | Inr (l, c, ds, m, memo) \<Rightarrow> (unmemoized l memo, Suc (length ds)))"
      by auto
  qed (auto simp: unmemoized_insert)
qed

declare remaining_depth.simps [simp del]

definition remaining_depths :: "TaskLookup \<Rightarrow> TaskKey set \<Rightarrow> TaskKey \<rightharpoonup> nat" where
  "remaining_depths lookup cycle = fold (\<lambda>k memo. snd (remaining_depth lookup cycle k memo)) (bt_keys lookup) (\<lambda>_. None)"

section \<open>Critical paths\<close>

definition group_by_goal :: "TaskState \<Rightarrow> (GoalKey, TaskKey list) BTreeMap \<Rightarrow> (GoalKey, TaskKey list) BTreeMap" where
  "group_by_goal t m =
     (case TaskSpec.goal_id (TaskState.task t) of
        None \<Rightarrow> m
      | Some g \<Rightarrow> bt_update (TaskState.agent_id t, g) [] (\<lambda>ks. ks @ [task_key t]) m)"

definition max_remaining :: "(TaskKey \<rightharpoonup> nat) \<Rightarrow> TaskKey list \<Rightarrow> nat" where
  "max_remaining depths ks = fold (\<lambda>k m. case depths k of None \<Rightarrow> m | Some d \<Rightarrow> max m d) ks 0"

definition critical_step ::
  "TaskKey set \<Rightarrow> (TaskKey \<rightharpoonup> nat) \<Rightarrow> GoalKey \<times> TaskKey list \<Rightarrow>
   TaskKey set \<times> (GoalKey \<rightharpoonup> nat option) \<Rightarrow> TaskKey set \<times> (GoalKey \<rightharpoonup> nat option)" where
  "critical_step cycle depths e acc =
     (case (e, acc) of ((goal_key, ks), (critical, remaining)) \<Rightarrow>
        if \<exists>k \<in> set ks. k \<in> cycle then (critical, remaining(goal_key \<mapsto> None))
        else
          (let max_depth = max_remaining depths ks
           in (critical \<union> set (filter (\<lambda>k. 0 < max_depth \<and> depths k = Some max_depth) ks),
               remaining(goal_key \<mapsto> Some max_depth))))"

definition critical_paths ::
  "TaskState list \<Rightarrow> TaskKey set \<Rightarrow> (TaskKey \<rightharpoonup> nat) \<Rightarrow> TaskKey set \<times> (GoalKey \<rightharpoonup> nat option)" where
  "critical_paths ts cycle depths =
     fold (critical_step cycle depths) (fold group_by_goal ts []) ({}, \<lambda>_. None)"

end
