(* ===== verification/Cycles.thy ===== *)
theory Cycles
  imports Graph
begin

text \<open>
  Correctness of the search for dependency cycles. The invariant of the search keeps, beside the
  states, the stack and the members, the order in which the nodes were finished: a dependency of a
  finished node was finished before it, or both ends of the dependency are flagged.
\<close>

section \<open>Paths and cycles\<close>

definition edge :: "TaskGraph \<Rightarrow> string \<Rightarrow> string \<Rightarrow> bool" where
  "edge g x y \<longleftrightarrow> (\<exists>ds. bt_get g x = Some ds \<and> y \<in> set ds)"

lemma path_from_first: "successively R (u # xs) \<Longrightarrow> v \<in> set (u # xs) \<Longrightarrow> R\<^sup>*\<^sup>* u v"
proof (induction xs arbitrary: u)
  case Nil
  then show ?case by simp
next
  case (Cons w xs)
  then have "R u w" "successively R (w # xs)" by simp_all
  with Cons show ?case by (cases "v = u") (auto intro: converse_rtranclp_into_rtranclp)
qed

lemma path_to_last: "successively R xs \<Longrightarrow> y \<in> set xs \<Longrightarrow> R\<^sup>*\<^sup>* y (last xs)"
proof (induction xs)
  case Nil
  then show ?case by simp
next
  case (Cons u xs)
  show ?case
  proof (cases "y = u")
    case True
    from Cons.prems(1) have "R\<^sup>*\<^sup>* u (last (u # xs))" by (intro path_from_first [of R u xs]) auto
    with True show ?thesis by simp
  next
    case False
    with Cons have "y \<in> set xs" "successively R xs" by (auto simp: successively_Cons)
    with Cons.IH show ?thesis by auto
  qed
qed

lemma closed_path_cycle:
  assumes "successively R (x # xs)" and "R (last (x # xs)) x" and "y \<in> set (x # xs)"
  shows "R\<^sup>+\<^sup>+ y y"
proof -
  have "R\<^sup>*\<^sup>* y (last (x # xs))" using assms(1,3) by (rule path_to_last)
  moreover have "R\<^sup>*\<^sup>* x y" using assms(1,3) by (rule path_from_first)
  ultimately show ?thesis using assms(2) by (meson rtranclp_into_tranclp1 tranclp_rtranclp_tranclp)
qed

section \<open>The invariant of the search\<close>

definition finished_ok :: "TaskGraph \<Rightarrow> string \<Rightarrow> TaskKey set \<Rightarrow> string list \<Rightarrow> bool" where
  "finished_ok g a M order \<longleftrightarrow>
     (\<forall>xs x ys y. order = xs @ x # ys \<longrightarrow> edge g x y \<longrightarrow> y \<in> set xs \<or> ((a, x) \<in> M \<and> (a, y) \<in> M))"

definition visit_ok :: "TaskGraph \<Rightarrow> string \<Rightarrow> string list \<Rightarrow> visit \<Rightarrow> bool" where
  "visit_ok g a order st \<longleftrightarrow>
     (case st of (states, stack, M) \<Rightarrow>
        distinct stack \<and> successively (edge g) stack \<and> distinct order \<and>
        (\<forall>x. states x = Some Visiting \<longleftrightarrow> x \<in> set stack) \<and>
        (\<forall>x. states x = Some Done \<longleftrightarrow> x \<in> set order) \<and> finished_ok g a M order)"

text \<open>What a node looks like after it was visited: finished, or on the stack and flagged with all above it.\<close>

definition settled :: "string \<Rightarrow> string \<Rightarrow> visit \<Rightarrow> bool" where
  "settled a x st \<longleftrightarrow>
     (case st of (states, stack, M) \<Rightarrow>
        states x = Some Done \<or> (x \<in> set stack \<and> Pair a ` set (dropWhile (\<lambda>v. v \<noteq> x) stack) \<subseteq> M))"

text \<open>One call: the stack is restored, members only grow and only by tasks on cycles, finished nodes stay finished.\<close>

definition visit_step :: "TaskGraph \<Rightarrow> string \<Rightarrow> string list \<Rightarrow> visit \<Rightarrow> visit \<Rightarrow> bool" where
  "visit_step g a order st st' \<longleftrightarrow>
     fst (snd st') = fst (snd st) \<and> snd (snd st) \<subseteq> snd (snd st') \<and>
     (\<forall>m \<in> snd (snd st') - snd (snd st). fst m = a \<and> (edge g)\<^sup>+\<^sup>+ (snd m) (snd m)) \<and>
     (\<exists>new. visit_ok g a (order @ new) st')"

lemma finished_mono: "finished_ok g a M order \<Longrightarrow> M \<subseteq> M' \<Longrightarrow> finished_ok g a M' order"
  unfolding finished_ok_def by blast

lemma finished_snoc:
  assumes "finished_ok g a M order" and "\<And>y. edge g x y \<Longrightarrow> y \<in> set order \<or> ((a, x) \<in> M \<and> (a, y) \<in> M)"
  shows "finished_ok g a M (order @ [x])"
  unfolding finished_ok_def
proof (intro allI impI)
  fix xs u ys y
  assume eq: "order @ [x] = xs @ u # ys" and e: "edge g u y"
  show "y \<in> set xs \<or> ((a, u) \<in> M \<and> (a, y) \<in> M)"
  proof (cases ys rule: rev_cases)
    case Nil
    with eq have "order = xs" "u = x" by simp_all
    with e assms(2) show ?thesis by blast
  next
    case (snoc zs z)
    with eq have "order = xs @ u # zs" by simp
    with e assms(1) show ?thesis unfolding finished_ok_def by blast
  qed
qed

lemma settled_mono:
  assumes "settled a x st" and "visit_ok g a order st" and "visit_step g a order st st'"
  shows "settled a x st'"
proof (cases st; cases st')
  fix s k M s' k' M'
  assume st: "st = (s, k, M)" "st' = (s', k', M')"
  from assms(3) st obtain new where k: "k' = k" and M: "M \<subseteq> M'" and ok: "visit_ok g a (order @ new) (s', k, M')"
    by (auto simp: visit_step_def)
  from assms(1) st consider "s x = Some Done" | "x \<in> set k" "Pair a ` set (dropWhile (\<lambda>v. v \<noteq> x) k) \<subseteq> M"
    by (auto simp: settled_def)
  then show ?thesis
  proof cases
    case 1
    with assms(2) st have "x \<in> set order" by (simp add: visit_ok_def)
    with ok st k show ?thesis by (simp add: settled_def visit_ok_def)
  next
    case 2
    with M k st show ?thesis by (auto simp: settled_def)
  qed
qed

lemma visit_step_refl: "visit_ok g a order st \<Longrightarrow> visit_step g a order st st"
  unfolding visit_step_def by (auto intro: exI [of _ "[]"])

lemma visit_step_trans:
  assumes "visit_step g a order st st1"
    and "\<And>new. visit_ok g a (order @ new) st1 \<Longrightarrow> visit_step g a (order @ new) st1 st2"
  shows "visit_step g a order st st2"
proof -
  obtain new where "visit_ok g a (order @ new) st1" using assms(1) by (auto simp: visit_step_def)
  from assms(2) [OF this] assms(1) show ?thesis
    unfolding visit_step_def by (auto simp: append_assoc)
qed

lemma dropWhile_last: "x \<in> set xs \<Longrightarrow> xs \<noteq> [] \<Longrightarrow> last xs \<in> set (dropWhile (\<lambda>v. v \<noteq> x) xs) \<and> x \<in> set (dropWhile (\<lambda>v. v \<noteq> x) xs)"
  by (induction xs) (auto split: if_splits)

lemma flag_cycle:
  assumes "visit_ok g a order (s, k, M)" and "s x = Some Visiting" and "edge g (last k) x"
  shows "visit_step g a order (s, k, M) (s, k, M \<union> Pair a ` set (dropWhile (\<lambda>v. v \<noteq> x) k))"
    and "settled a x (s, k, M \<union> Pair a ` set (dropWhile (\<lambda>v. v \<noteq> x) k))"
proof -
  have x: "x \<in> set k" using assms(1,2) by (simp add: visit_ok_def)
  then obtain p q where k: "k = p @ x # q" "x \<notin> set p" by (meson split_list_first)
  then have drop: "dropWhile (\<lambda>v. v \<noteq> x) k = x # q"
    using dropWhile_append2 [of p "\<lambda>v. v \<noteq> x" "x # q"] by fastforce
  have path: "successively (edge g) (x # q)"
    using assms(1) k by (simp add: visit_ok_def successively_append_iff)
  have "(edge g)\<^sup>+\<^sup>+ y y" if "y \<in> set (x # q)" for y
    using closed_path_cycle [OF path _ that] assms(3) k(1) by simp
  moreover have "visit_ok g a (order @ []) (s, k, M \<union> Pair a ` set (x # q))"
    using assms(1) by (auto simp: visit_ok_def intro: finished_mono)
  ultimately show "visit_step g a order (s, k, M) (s, k, M \<union> Pair a ` set (dropWhile (\<lambda>v. v \<noteq> x) k))"
    unfolding drop visit_step_def by (auto intro: exI [of _ "[]"])
  show "settled a x (s, k, M \<union> Pair a ` set (dropWhile (\<lambda>v. v \<noteq> x) k))"
    using x by (simp add: settled_def)
qed

text \<open>Entering and leaving a node.\<close>

lemma visit_enter:
  assumes "visit_ok g a order (s, k, M)" and "s x = None" and "k = [] \<or> edge g (last k) x"
  shows "visit_ok g a order (s(x \<mapsto> Visiting), k @ [x], M)"
proof -
  have "s x \<noteq> Some Visiting" "s x \<noteq> Some Done" using assms(2) by simp_all
  then have "x \<notin> set k" "x \<notin> set order" using assms(1) by (simp_all add: visit_ok_def)
  then show ?thesis
    using assms by (auto simp: visit_ok_def successively_append_iff)
qed

lemma visit_leave:
  assumes "visit_ok g a order (s, k @ [x], M)" and "\<And>y. edge g x y \<Longrightarrow> settled a y (s, k @ [x], M)"
  shows "visit_ok g a (order @ [x]) (s(x \<mapsto> Done), k, M)"
proof -
  have "s x = Some Visiting" using assms(1) by (simp add: visit_ok_def)
  then have "s x \<noteq> Some Done" by simp
  then have x: "x \<notin> set order" "x \<notin> set k" using assms(1) by (simp_all add: visit_ok_def)
  have "finished_ok g a M (order @ [x])"
  proof (rule finished_snoc)
    show "finished_ok g a M order" using assms(1) by (simp add: visit_ok_def)
    show "y \<in> set order \<or> ((a, x) \<in> M \<and> (a, y) \<in> M)" if "edge g x y" for y
      using assms(2) [OF that] assms(1) dropWhile_last [of y "k @ [x]"] by (auto simp: settled_def visit_ok_def)
  qed
  with assms(1) x show ?thesis
    by (auto simp: visit_ok_def successively_append_iff)
qed

lemma visit_node:
  assumes ok: "visit_ok g a order (s, k, M)" and "s x = None" and "k = [] \<or> edge g (last k) x"
    and step: "visit_step g a order (s(x \<mapsto> Visiting), k @ [x], M) (s', k', M')"
    and settled: "\<And>y. edge g x y \<Longrightarrow> settled a y (s', k', M')"
  shows "visit_step g a order (s, k, M) (s'(x \<mapsto> Done), butlast k', M') \<and> settled a x (s'(x \<mapsto> Done), butlast k', M')"
proof -
  from step obtain new where k': "k' = k @ [x]" and M: "M \<subseteq> M'"
    and cyc: "\<forall>m \<in> M' - M. fst m = a \<and> (edge g)\<^sup>+\<^sup>+ (snd m) (snd m)" and "visit_ok g a (order @ new) (s', k @ [x], M')"
    by (auto simp: visit_step_def)
  from visit_leave [OF this(4)] settled have "visit_ok g a (order @ (new @ [x])) (s'(x \<mapsto> Done), k, M')"
    by (simp add: k')
  with M cyc show ?thesis
    unfolding visit_step_def settled_def by (auto simp: k')
qed

lemma visit_correct:
  "visit_ok g a order st \<Longrightarrow> fst (snd st) = [] \<or> edge g (last (fst (snd st))) x \<Longrightarrow>
     visit_step g a order st (visit_cycle g a x st) \<and> settled a x (visit_cycle g a x st)"
  "visit_ok g a order st \<Longrightarrow> fst (snd st) \<noteq> [] \<Longrightarrow> (\<forall>d \<in> set ds. edge g (last (fst (snd st))) d) \<Longrightarrow>
     visit_step g a order st (visit_dependencies g a ds st) \<and> (\<forall>d \<in> set ds. settled a d (visit_dependencies g a ds st))"
proof (induction g a x st and g a ds st arbitrary: order and order rule: visit_cycle_visit_dependencies.induct)
  case (1 g a x s k M)
  show ?case
  proof (cases "s x")
    case None
    note enter = visit_enter [OF 1(2) None, of ] 1(3)
    show ?thesis
    proof (cases "bt_get g x")
      case no_deps: None
      have "visit_step g a order (s(x \<mapsto> Visiting), k @ [x], M) (s(x \<mapsto> Visiting), k @ [x], M)"
        using enter by (intro visit_step_refl) simp
      from visit_node [OF 1(2) None _ this] 1(3) no_deps None show ?thesis
        by (simp add: edge_def)
    next
      case (Some ds)
      obtain s' k' M' where eq: "visit_dependencies g a ds (s(x \<mapsto> Visiting), k @ [x], M) = (s', k', M')"
        by (cases "visit_dependencies g a ds (s(x \<mapsto> Visiting), k @ [x], M)")
      have "edge g x d \<longleftrightarrow> d \<in> set ds" for d using Some by (simp add: edge_def)
      with 1(1) [OF None Some, of order] enter
      have "visit_step g a order (s(x \<mapsto> Visiting), k @ [x], M) (s', k', M')" "\<And>y. edge g x y \<Longrightarrow> settled a y (s', k', M')"
        by (simp_all add: eq)
      from visit_node [OF 1(2) None _ this] 1(3) None Some show ?thesis
        by (simp add: eq)
    qed
  next
    case (Some v)
    show ?thesis
    proof (cases v)
      case Done
      with Some 1(2) show ?thesis by (simp add: settled_def visit_step_refl)
    next
      case Visiting
      with Some have v: "s x = Some Visiting" by simp
      with 1(2) have "x \<in> set k" by (simp add: visit_ok_def)
      moreover from this 1(3) have "edge g (last k) x" by auto
      ultimately show ?thesis using flag_cycle [OF 1(2) v] v by simp
    qed
  qed
next
  case (2 g a st)
  then show ?case by (simp add: visit_step_refl)
next
  case (3 g a d ds st)
  let ?st1 = "visit_cycle g a d st"
  have first: "visit_step g a order st ?st1" "settled a d ?st1"
    using 3(1) [OF 3(3)] 3(5) by simp_all
  then have same: "fst (snd ?st1) = fst (snd st)" by (simp add: visit_step_def)
  have rest: "visit_step g a (order @ new) ?st1 (visit_dependencies g a ds ?st1)"
    "\<forall>e \<in> set ds. settled a e (visit_dependencies g a ds ?st1)" if "visit_ok g a (order @ new) ?st1" for new
    using 3(2) [OF that] 3(4,5) same by simp_all
  obtain new where new: "visit_ok g a (order @ new) ?st1" using first(1) by (auto simp: visit_step_def)
  have "settled a d (visit_dependencies g a ds ?st1)"
    by (rule settled_mono [OF first(2) new rest(1) [OF new]])
  with visit_step_trans [OF first(1) rest(1)] rest(2) [OF new] show ?case by simp
qed

section \<open>All nodes of all agents\<close>

lemma visit_all:
  assumes "visit_ok g a order st" and "fst (snd st) = []"
  shows "visit_step g a order st (fold (visit_cycle g a) xs st) \<and> (\<forall>x \<in> set xs. settled a x (fold (visit_cycle g a) xs st))"
  using assms
proof (induction xs arbitrary: order st)
  case Nil
  then show ?case by (simp add: visit_step_refl)
next
  case (Cons x xs)
  let ?st1 = "visit_cycle g a x st"
  have first: "visit_step g a order st ?st1" "settled a x ?st1"
    using visit_correct(1) [OF Cons.prems(1)] Cons.prems(2) by simp_all
  then have empty: "fst (snd ?st1) = []" using Cons.prems(2) by (simp add: visit_step_def)
  obtain new where new: "visit_ok g a (order @ new) ?st1" using first(1) by (auto simp: visit_step_def)
  have "settled a x (fold (visit_cycle g a) xs ?st1)"
    by (rule settled_mono [OF first(2) new]) (use Cons.IH [OF new empty] in simp)
  with visit_step_trans [OF first(1), of "fold (visit_cycle g a) xs ?st1"] Cons.IH [OF _ empty] new
  show ?case by auto
qed

lemma finished_rank:
  assumes "finished_ok g a M order" and "distinct order" and "x \<in> set order" and "edge g x y"
  shows "length (takeWhile (\<lambda>v. v \<noteq> y) order) < length (takeWhile (\<lambda>v. v \<noteq> x) order) \<or> ((a, x) \<in> M \<and> (a, y) \<in> M)"
proof -
  obtain xs ys where order: "order = xs @ x # ys" using assms(3) by (meson split_list)
  with assms(2) have "x \<notin> set xs" by simp
  then have "takeWhile (\<lambda>v. v \<noteq> x) order = xs" using order takeWhile_append2 [of xs "\<lambda>v. v \<noteq> x" "x # ys"] by fastforce
  moreover have "length (takeWhile (\<lambda>v. v \<noteq> y) order) < length xs" if "y \<in> set xs"
  proof -
    have "takeWhile (\<lambda>v. v \<noteq> y) order = takeWhile (\<lambda>v. v \<noteq> y) xs"
      using that order by (auto intro: takeWhile_append1)
    moreover have "length (takeWhile (\<lambda>v. v \<noteq> y) zs) < length zs" if "y \<in> set zs" for zs
      using that by (induction zs) auto
    ultimately show ?thesis using that by simp
  qed
  moreover have "y \<in> set xs \<or> ((a, x) \<in> M \<and> (a, y) \<in> M)"
    using assms(1,4) order unfolding finished_ok_def by blast
  ultimately show ?thesis by auto
qed

text \<open>What a set of members guarantees for a graph: dependencies descend, or both ends are flagged.\<close>

definition ranked :: "TaskGraph \<Rightarrow> string \<Rightarrow> TaskKey set \<Rightarrow> (string \<Rightarrow> nat) \<Rightarrow> bool" where
  "ranked g a M r \<longleftrightarrow> (\<forall>x y. edge g x y \<longrightarrow> r y < r x \<or> ((a, x) \<in> M \<and> (a, y) \<in> M))"

lemma ranked_mono: "ranked g a M r \<Longrightarrow> M \<subseteq> M' \<Longrightarrow> ranked g a M' r"
  unfolding ranked_def by blast

lemma visit_agent_correct:
  "M \<subseteq> visit_agent (a, g) M \<and>
   (\<forall>m \<in> visit_agent (a, g) M - M. fst m = a \<and> (edge g)\<^sup>+\<^sup>+ (snd m) (snd m)) \<and>
   (\<exists>r. ranked g a (visit_agent (a, g) M) r)"
proof -
  let ?st = "(\<lambda>_. None, [], M) :: visit"
  have ok: "visit_ok g a [] ?st" by (simp add: visit_ok_def finished_ok_def)
  obtain s' k' M' where eq: "fold (visit_cycle g a) (bt_keys g) ?st = (s', k', M')"
    by (cases "fold (visit_cycle g a) (bt_keys g) ?st")
  have M': "visit_agent (a, g) M = M'" by (simp add: visit_agent_def eq)
  from visit_all [OF ok, of "bt_keys g"] obtain order where step: "M \<subseteq> M'" "k' = []"
    "\<forall>m \<in> M' - M. fst m = a \<and> (edge g)\<^sup>+\<^sup>+ (snd m) (snd m)" and order: "visit_ok g a order (s', [], M')"
    and settled: "\<forall>x \<in> set (bt_keys g). settled a x (s', [], M')"
    by (auto simp: visit_step_def eq)
  have "ranked g a M' (\<lambda>x. length (takeWhile (\<lambda>v. v \<noteq> x) order))"
    unfolding ranked_def
  proof (intro allI impI)
    fix x y
    assume e: "edge g x y"
    then have "x \<in> set (bt_keys g)"
      by (auto simp: edge_def bt_get_def bt_keys_def dest: map_of_SomeD intro: rev_image_eqI)
    with settled order have "x \<in> set order" by (auto simp: settled_def visit_ok_def)
    with order e show "length (takeWhile (\<lambda>v. v \<noteq> y) order) < length (takeWhile (\<lambda>v. v \<noteq> x) order) \<or> ((a, x) \<in> M' \<and> (a, y) \<in> M')"
      by (intro finished_rank [of g]) (simp_all add: visit_ok_def)
  qed
  with step show ?thesis unfolding M' by blast
qed

lemma visit_agents_correct:
  "M \<subseteq> fold visit_agent gs M \<and>
   (\<forall>m \<in> fold visit_agent gs M - M. \<exists>g. (fst m, g) \<in> set gs \<and> (edge g)\<^sup>+\<^sup>+ (snd m) (snd m)) \<and>
   (\<forall>(a, g) \<in> set gs. \<exists>r. ranked g a (fold visit_agent gs M) r)"
proof (induction gs arbitrary: M)
  case Nil
  then show ?case by simp
next
  case (Cons e gs)
  obtain a g where e: "e = (a, g)" by fastforce
  note first = visit_agent_correct [of M a g] and rest = Cons.IH [of "visit_agent (a, g) M"]
  have sub: "visit_agent (a, g) M \<subseteq> fold visit_agent gs (visit_agent (a, g) M)" using rest by blast
  from first obtain r where "ranked g a (visit_agent (a, g) M) r" by blast
  then have "ranked g a (fold visit_agent gs (visit_agent (a, g) M)) r" using sub by (rule ranked_mono)
  moreover have "\<exists>g'. (fst m, g') \<in> set (e # gs) \<and> (edge g')\<^sup>+\<^sup>+ (snd m) (snd m)"
    if "m \<in> fold visit_agent gs (visit_agent (a, g) M) - M" for m
    using that first rest e by (cases "m \<in> visit_agent (a, g) M") auto
  ultimately show ?case using first rest sub by (auto simp: e)
qed

section \<open>The graphs of the agents\<close>

definition dep_edge :: "TaskLookup \<Rightarrow> TaskKey \<Rightarrow> TaskKey \<Rightarrow> bool" where
  "dep_edge lookup k k' \<longleftrightarrow> fst k' = fst k \<and>
     (\<exists>t. bt_get lookup k = Some t \<and> snd k' \<in> set (TaskSpec.depends_on (TaskState.task t)) \<and> bt_get lookup k' \<noteq> None)"

definition graph_of :: "(string, TaskGraph) BTreeMap \<Rightarrow> string \<Rightarrow> string \<Rightarrow> string list option" where
  "graph_of m a x = (case bt_get m a of None \<Rightarrow> None | Some g \<Rightarrow> bt_get g x)"

definition graphs_wf :: "(string, TaskGraph) BTreeMap \<Rightarrow> bool" where
  "graphs_wf m \<longleftrightarrow> bt_wf m \<and> (\<forall>a g. bt_get m a = Some g \<longrightarrow> bt_wf g)"

lemma add_task_edges_get:
  assumes "graphs_wf m"
  shows "graphs_wf (add_task_edges lookup e m) \<and>
    graph_of (add_task_edges lookup e m) a x =
      (if fst e = (a, x) then Some (retained_dependencies lookup a (snd e)) else graph_of m a x)"
proof -
  obtain b tid t where e: "e = ((b, tid), t)" by (metis surj_pair)
  let ?g = "case bt_get m b of None \<Rightarrow> [] | Some g \<Rightarrow> g"
  have "bt_wf ?g" using assms by (auto simp: graphs_wf_def bt.wf_empty split: option.split)
  with assms show ?thesis
    by (auto simp: e add_task_edges_def graphs_wf_def graph_of_def bt_get_update bt_wf_update bt.wf_insert bt.get_insert
        bt.get_empty split: option.splits if_splits)
qed

lemma graphs_fold:
  "graphs_wf m \<Longrightarrow> graphs_wf (fold (add_task_edges lookup) es m) \<and>
   graph_of (fold (add_task_edges lookup) es m) a x =
     (case map_of (rev es) (a, x) of Some t \<Rightarrow> Some (retained_dependencies lookup a t) | None \<Rightarrow> graph_of m a x)"
proof (induction es arbitrary: m)
  case Nil
  then show ?case by simp
next
  case (Cons e es)
  note step = add_task_edges_get [OF Cons.prems, of lookup e]
  with Cons.IH [of "add_task_edges lookup e m"] show ?case
    by (cases e) (auto simp: map_add_def split: option.splits)
qed

lemma graphs_by_agent_get:
  assumes "bt_wf lookup"
  shows "graph_of (graphs_by_agent lookup) a x = map_option (retained_dependencies lookup a) (bt_get lookup (a, x))"
    and "graphs_wf (graphs_by_agent lookup)"
proof -
  have "distinct (map fst lookup)" using bt.distinct_keys [OF assms] by (simp add: bt_keys_def)
  then have "map_of (rev lookup) = map_of lookup" by (subst map_of_inject_set) (simp_all add: rev_map [symmetric])
  moreover have "graphs_wf []" by (simp add: graphs_wf_def bt.wf_empty bt.get_empty)
  ultimately show "graph_of (graphs_by_agent lookup) a x = map_option (retained_dependencies lookup a) (bt_get lookup (a, x))"
    and "graphs_wf (graphs_by_agent lookup)"
    using graphs_fold [of "[]" lookup lookup a x]
    by (simp_all add: graphs_by_agent_def bt_get_def [of lookup] graph_of_def bt.get_empty split: option.split)
qed

lemma agent_graph_edge:
  assumes "bt_wf lookup" and "(a, g) \<in> set (graphs_by_agent lookup)"
  shows "edge g x y \<longleftrightarrow> dep_edge lookup (a, x) (a, y)"
proof -
  have "bt_get (graphs_by_agent lookup) a = Some g"
    using assms graphs_by_agent_get(2) [OF assms(1)] by (simp add: graphs_wf_def bt_get_mem)
  then have "bt_get g x = map_option (retained_dependencies lookup a) (bt_get lookup (a, x))"
    using graphs_by_agent_get(1) [OF assms(1), of a x] by (simp add: graph_of_def)
  then show ?thesis by (auto simp: edge_def dep_edge_def retained_dependencies_def)
qed

lemma agent_graph_exists:
  assumes "bt_wf lookup" and "bt_get lookup (a, x) = Some t"
  shows "\<exists>g. (a, g) \<in> set (graphs_by_agent lookup)"
  using graphs_by_agent_get [OF assms(1)] assms(2)
  by (metis bt_get_mem graph_of_def graphs_wf_def not_None_eq option.case(1) option.map_disc_iff)

section \<open>The result for a table of tasks\<close>

lemma cycle_member_on_cycle:
  assumes wf: "bt_wf lookup" and k: "k \<in> dependency_cycle_members lookup"
  shows "(dep_edge lookup)\<^sup>+\<^sup>+ k k"
proof -
  obtain g where g: "(fst k, g) \<in> set (graphs_by_agent lookup)" "(edge g)\<^sup>+\<^sup>+ (snd k) (snd k)"
    using visit_agents_correct [of "{}" "graphs_by_agent lookup"] k by (auto simp: dependency_cycle_members_def)
  have "(edge g)\<^sup>+\<^sup>+ x y \<Longrightarrow> (dep_edge lookup)\<^sup>+\<^sup>+ (fst k, x) (fst k, y)" for x y
    by (induction rule: tranclp_induct)
      (auto simp: agent_graph_edge [OF wf g(1)] intro: tranclp.r_into_trancl tranclp.trancl_into_trancl)
  from this [OF g(2)] show ?thesis by simp
qed

lemma cycle_members_ranked:
  assumes wf: "bt_wf lookup"
  shows "\<exists>r :: TaskKey \<Rightarrow> nat. \<forall>k k'. dep_edge lookup k k' \<longrightarrow>
    r k' < r k \<or> (k \<in> dependency_cycle_members lookup \<and> k' \<in> dependency_cycle_members lookup)"
proof -
  let ?M = "dependency_cycle_members lookup"
  have "\<exists>r. \<forall>g. (a, g) \<in> set (graphs_by_agent lookup) \<longrightarrow> ranked g a ?M r" for a
  proof (cases "bt_get (graphs_by_agent lookup) a")
    case None
    with graphs_by_agent_get(2) [OF wf] have "(a, g) \<notin> set (graphs_by_agent lookup)" for g
      by (metis bt_get_mem graphs_wf_def option.distinct(1))
    then show ?thesis by blast
  next
    case (Some g)
    with graphs_by_agent_get(2) [OF wf] have "(a, h) \<in> set (graphs_by_agent lookup) \<longleftrightarrow> h = g" for h
      by (metis bt_get_mem graphs_wf_def option.inject)
    with visit_agents_correct [of "{}" "graphs_by_agent lookup"] show ?thesis
      by (fastforce simp: dependency_cycle_members_def)
  qed
  then obtain r where r: "\<And>a g. (a, g) \<in> set (graphs_by_agent lookup) \<Longrightarrow> ranked g a ?M (r a)" by metis
  have "r (fst k') (snd k') < r (fst k) (snd k) \<or> (k \<in> ?M \<and> k' \<in> ?M)" if e: "dep_edge lookup k k'" for k k'
  proof -
    have same: "fst k' = fst k" using e by (simp add: dep_edge_def)
    obtain g where g: "(fst k, g) \<in> set (graphs_by_agent lookup)"
      using e agent_graph_exists [OF wf, of "fst k" "snd k"] by (auto simp: dep_edge_def)
    have "edge g (snd k) (snd k')"
      using e same by (subst agent_graph_edge [OF wf g]) (metis prod.collapse)
    with r [OF g] same show ?thesis unfolding ranked_def by (metis prod.collapse)
  qed
  then show ?thesis by (intro exI [of _ "\<lambda>k. r (fst k) (snd k)"]) blast
qed

end
