(* ===== verification/Depths.thy ===== *)
theory Depths
  imports Cycles
begin

text \<open>
  Correctness of the memoized remaining depths. While a task is being expanded its memo entry holds
  the placeholder 1. The ranks of the cycle search show that no dependency ever reads a
  placeholder: a task that is expanded is not flagged, so its dependencies have smaller ranks.
\<close>

declare split_paired_All [simp del] split_paired_Ex [simp del]

definition dependency_keys :: "TaskLookup \<Rightarrow> TaskKey \<Rightarrow> TaskState \<Rightarrow> TaskKey list" where
  "dependency_keys l k t = map (Pair (fst k)) (retained_dependencies l (fst k) t)"

text \<open>The value a finished entry must have, given the entries of the dependencies; \<open>P\<close> holds the placeholders.\<close>

definition entry_ok :: "TaskLookup \<Rightarrow> TaskKey set \<Rightarrow> TaskKey set \<Rightarrow> (TaskKey \<rightharpoonup> nat) \<Rightarrow> TaskKey \<Rightarrow> nat \<Rightarrow> bool" where
  "entry_ok l c P memo k d \<longleftrightarrow> (\<exists>t. bt_get l k = Some t \<and>
     (if TaskState.status t = TaskStatus.Succeeded then d = 0
      else if k \<in> c then d = 1
      else (\<forall>j \<in> set (dependency_keys l k t). j \<notin> P \<and> memo j \<noteq> None) \<and>
        d = usize_sat_add (fold max (map (\<lambda>j. the (memo j)) (dependency_keys l k t)) 0) 1))"

definition memo_ok :: "TaskLookup \<Rightarrow> TaskKey set \<Rightarrow> TaskKey set \<Rightarrow> (TaskKey \<rightharpoonup> nat) \<Rightarrow> bool" where
  "memo_ok l c P memo \<longleftrightarrow> P \<subseteq> dom memo \<and> (\<forall>k d. memo k = Some d \<longrightarrow> k \<notin> P \<longrightarrow> entry_ok l c P memo k d)"

definition descends :: "TaskLookup \<Rightarrow> TaskKey set \<Rightarrow> (TaskKey \<Rightarrow> nat) \<Rightarrow> bool" where
  "descends l c r \<longleftrightarrow> (\<forall>k k'. dep_edge l k k' \<longrightarrow> k \<notin> c \<longrightarrow> r k' < r k)"

lemma dependency_keys_edge:
  "bt_get l k = Some t \<Longrightarrow> j \<in> set (dependency_keys l k t) \<Longrightarrow> dep_edge l k j"
  by (auto simp: dependency_keys_def retained_dependencies_def dep_edge_def)

lemma dependency_keys_retained: "j \<in> set (dependency_keys l k t) \<Longrightarrow> bt_get l j \<noteq> None"
  by (auto simp: dependency_keys_def retained_dependencies_def)

text \<open>An entry depends only on the memo values of its dependencies.\<close>

lemma entry_ok_cong:
  assumes "entry_ok l c P memo k d"
    and "\<And>j. j \<notin> P \<Longrightarrow> memo j \<noteq> None \<Longrightarrow> j \<notin> P' \<and> memo' j = memo j"
  shows "entry_ok l c P' memo' k d"
proof -
  obtain t where t: "bt_get l k = Some t" and body: "if TaskState.status t = TaskStatus.Succeeded then d = 0
      else if k \<in> c then d = 1
      else (\<forall>j \<in> set (dependency_keys l k t). j \<notin> P \<and> memo j \<noteq> None) \<and>
        d = usize_sat_add (fold max (map (\<lambda>j. the (memo j)) (dependency_keys l k t)) 0) 1"
    using assms(1) unfolding entry_ok_def by blast
  show ?thesis
  proof (cases "TaskState.status t = TaskStatus.Succeeded \<or> k \<in> c")
    case True
    with t body show ?thesis by (auto simp: entry_ok_def split: if_splits)
  next
    case False
    with body have deps: "\<And>j. j \<in> set (dependency_keys l k t) \<Longrightarrow> j \<notin> P \<and> memo j \<noteq> None" by simp
    then have vals: "map (\<lambda>j. the (memo' j)) (dependency_keys l k t) = map (\<lambda>j. the (memo j)) (dependency_keys l k t)"
      using assms(2) by (intro map_cong refl arg_cong [where f = the]) blast
    have "\<forall>j \<in> set (dependency_keys l k t). j \<notin> P' \<and> memo' j \<noteq> None"
      using deps assms(2) by metis
    with False t body vals show ?thesis
      unfolding entry_ok_def by (intro exI [of _ t]) (simp only: if_False de_Morgan_disj)
  qed
qed

lemma memo_ok_enter:
  assumes "memo_ok l c P memo" and "memo k = None"
  shows "memo_ok l c (insert k P) (memo(k \<mapsto> v))"
  unfolding memo_ok_def
proof (intro conjI allI impI)
  show "insert k P \<subseteq> dom (memo(k \<mapsto> v))" using assms by (auto simp: memo_ok_def)
  fix j d
  assume "(memo(k \<mapsto> v)) j = Some d" and "j \<notin> insert k P"
  then have "memo j = Some d" "j \<notin> P" by auto
  with assms(1) have "entry_ok l c P memo j d" by (simp add: memo_ok_def)
  then show "entry_ok l c (insert k P) (memo(k \<mapsto> v)) j d"
    by (rule entry_ok_cong) (use assms(2) in auto)
qed

lemma memo_ok_leave:
  assumes ok: "memo_ok l c (insert k P) memo1" and "k \<notin> P"
    and entry: "entry_ok l c (insert k P) memo1 k d"
  shows "memo_ok l c P (memo1(k \<mapsto> d))"
  unfolding memo_ok_def
proof (intro conjI allI impI)
  show "P \<subseteq> dom (memo1(k \<mapsto> d))" using ok by (auto simp: memo_ok_def)
  fix j e
  assume "(memo1(k \<mapsto> d)) j = Some e" and "j \<notin> P"
  then have "entry_ok l c (insert k P) memo1 j e"
    using ok entry by (auto simp: memo_ok_def split: if_splits)
  then show "entry_ok l c P (memo1(k \<mapsto> d)) j e"
    by (rule entry_ok_cong) auto
qed

text \<open>A settled entry may be added at any time.\<close>

lemma memo_ok_add:
  assumes "memo_ok l c P memo" and "memo k = None" and "entry_ok l c P memo k d"
  shows "memo_ok l c P (memo(k \<mapsto> d))"
  unfolding memo_ok_def
proof (intro conjI allI impI)
  show "P \<subseteq> dom (memo(k \<mapsto> d))" using assms(1) by (auto simp: memo_ok_def)
  fix j e
  assume "(memo(k \<mapsto> d)) j = Some e" and "j \<notin> P"
  then have "entry_ok l c P memo j e" using assms by (auto simp: memo_ok_def split: if_splits)
  then show "entry_ok l c P (memo(k \<mapsto> d)) j e" by (rule entry_ok_cong) (use assms(2) in auto)
qed

lemma remaining_correct:
  assumes "descends l c r"
  shows "memo_ok l c P memo \<Longrightarrow> bt_get l k \<noteq> None \<Longrightarrow> (\<forall>p \<in> P. r k < r p) \<Longrightarrow>
      memo_ok l c P (snd (remaining_depth l c k memo)) \<and> memo \<subseteq>\<^sub>m snd (remaining_depth l c k memo) \<and>
      snd (remaining_depth l c k memo) k = Some (fst (remaining_depth l c k memo))"
    and "memo_ok l c P memo \<Longrightarrow> (\<forall>k \<in> set ks. bt_get l k \<noteq> None \<and> (\<forall>p \<in> P. r k < r p)) \<Longrightarrow>
      memo_ok l c P (snd (dependency_depth l c ks m memo)) \<and> memo \<subseteq>\<^sub>m snd (dependency_depth l c ks m memo) \<and>
      set ks \<subseteq> dom (snd (dependency_depth l c ks m memo)) \<and>
      fst (dependency_depth l c ks m memo) = fold max (map (\<lambda>k. the (snd (dependency_depth l c ks m memo) k)) ks) m"
  using assms
proof (induction l c k memo and l c ks m memo arbitrary: P and P rule: remaining_depth_dependency_depth.induct)
  case (1 l c k memo)
  show ?case
  proof (cases "memo k")
    case (Some d)
    with 1(2) show ?thesis by (simp add: remaining_depth.simps)
  next
    case None
    obtain t where t: "bt_get l k = Some t" using 1(3) by blast
    show ?thesis
    proof (cases "TaskState.status t = TaskStatus.Succeeded \<or> k \<in> c")
      case True
      define v where "v = (if TaskState.status t = TaskStatus.Succeeded then 0 else 1 :: nat)"
      have eq: "remaining_depth l c k memo = (v, memo(k \<mapsto> v))"
        using True None t by (auto simp: v_def remaining_depth.simps)
      have "entry_ok l c P memo k v" using True t by (auto simp: entry_ok_def v_def)
      with 1(2) None have "memo_ok l c P (memo(k \<mapsto> v))" by (rule memo_ok_add)
      moreover have "memo \<subseteq>\<^sub>m memo(k \<mapsto> v)" using None by (auto simp: map_le_def)
      ultimately show ?thesis unfolding eq by (simp only: snd_conv fst_conv fun_upd_same simp_thms)
    next
      case False
      let ?ks = "dependency_keys l k t"
      obtain below memo1 where eq: "dependency_depth l c ?ks 0 (memo(k \<mapsto> 1)) = (below, memo1)" by fastforce
      have edge: "r j < r k" if "j \<in> set ?ks" for j
        using 1(5) dependency_keys_edge [OF t that] False by (auto simp: descends_def)
      have pre: "\<forall>j \<in> set ?ks. bt_get l j \<noteq> None \<and> (\<forall>p \<in> insert k P. r j < r p)"
        using edge dependency_keys_retained 1(4) less_trans by blast
      have ih: "memo_ok l c (insert k P) memo1" "memo(k \<mapsto> 1) \<subseteq>\<^sub>m memo1" "set ?ks \<subseteq> dom memo1"
        "below = fold max (map (\<lambda>j. the (memo1 j)) ?ks) 0"
        using 1(1) [OF None t _ _ memo_ok_enter [OF 1(2) None] _ 1(5)] False pre eq
        unfolding dependency_keys_def fun_upd_def by (simp_all del: map_map)
      have "j \<notin> insert k P" if "j \<in> set ?ks" for j
        using edge [OF that] 1(4) less_asym by auto
      with ih(3,4) t False have "entry_ok l c (insert k P) memo1 k (usize_sat_add below 1)"
        by (auto simp: entry_ok_def)
      moreover have "k \<notin> P" using 1(4) by auto
      ultimately have "memo_ok l c P (memo1(k \<mapsto> usize_sat_add below 1))" by (intro memo_ok_leave ih(1))
      moreover have "memo \<subseteq>\<^sub>m memo1(k \<mapsto> usize_sat_add below 1)"
        using ih(2) None by (auto simp: map_le_def dom_def split: if_splits)
      moreover have "remaining_depth l c k memo = (usize_sat_add below 1, memo1(k \<mapsto> usize_sat_add below 1))"
        using None t False eq by (simp add: Let_def dependency_keys_def remaining_depth.simps)
      ultimately show ?thesis by (simp only: snd_conv fst_conv fun_upd_same simp_thms)
    qed
  qed
next
  case (2 l c m memo)
  then show ?case by simp
next
  case (3 l c d ds m memo)
  obtain depth memo1 where eq: "remaining_depth l c d memo = (depth, memo1)" by fastforce
  have first: "memo_ok l c P memo1" "memo \<subseteq>\<^sub>m memo1" "memo1 d = Some depth"
    using 3(1) [OF 3(3) _ _ 3(5)] 3(4) by (simp_all add: eq)
  obtain v memo2 where eq2: "dependency_depth l c ds (max m depth) memo1 = (v, memo2)" by fastforce
  have rest: "memo_ok l c P memo2" "memo1 \<subseteq>\<^sub>m memo2" "set ds \<subseteq> dom memo2"
    "v = fold max (map (\<lambda>k. the (memo2 k)) ds) (max m depth)"
    using 3(2) [OF eq [symmetric] refl first(1) _ 3(5)] 3(4) by (simp_all add: eq2)
  have "memo2 d = Some depth" using rest(2) first(3) by (metis domI map_le_def)
  with first rest eq eq2 show ?case
    by (auto simp: max.commute intro: map_le_trans)
qed

lemma remaining_depths_fold:
  assumes "descends l c r" and "memo_ok l c {} memo" and "\<forall>k \<in> set ks. bt_get l k \<noteq> None"
  shows "memo_ok l c {} (fold (\<lambda>k memo. snd (remaining_depth l c k memo)) ks memo) \<and>
    memo \<subseteq>\<^sub>m fold (\<lambda>k memo. snd (remaining_depth l c k memo)) ks memo \<and>
    set ks \<subseteq> dom (fold (\<lambda>k memo. snd (remaining_depth l c k memo)) ks memo)"
  using assms(2,3)
proof (induction ks arbitrary: memo)
  case Nil
  then show ?case by simp
next
  case (Cons k ks)
  note first = remaining_correct(1) [OF assms(1) Cons.prems(1), of k]
  with Cons.prems(2) have "memo_ok l c {} (snd (remaining_depth l c k memo))"
    "memo \<subseteq>\<^sub>m snd (remaining_depth l c k memo)" "k \<in> dom (snd (remaining_depth l c k memo))"
    by auto
  with Cons.IH [OF this(1)] Cons.prems(2) map_le_implies_dom_le show ?case
    by (auto intro: map_le_trans) blast
qed

lemma remaining_depths_ok:
  assumes wf: "bt_wf l"
  shows "memo_ok l (dependency_cycle_members l) {} (remaining_depths l (dependency_cycle_members l))"
    and "dom (remaining_depths l (dependency_cycle_members l)) \<supseteq> {k. bt_get l k \<noteq> None}"
proof -
  obtain r :: "TaskKey \<Rightarrow> nat" where "\<forall>k k'. dep_edge l k k' \<longrightarrow>
      r k' < r k \<or> (k \<in> dependency_cycle_members l \<and> k' \<in> dependency_cycle_members l)"
    using cycle_members_ranked [OF wf] by blast
  then have "descends l (dependency_cycle_members l) r" unfolding descends_def by blast
  moreover have "memo_ok l (dependency_cycle_members l) {} (\<lambda>_. None)" by (simp add: memo_ok_def)
  moreover have "\<forall>k \<in> set (bt_keys l). bt_get l k \<noteq> None" using bt.keys_get [OF wf] by simp
  ultimately show "memo_ok l (dependency_cycle_members l) {} (remaining_depths l (dependency_cycle_members l))"
    and "dom (remaining_depths l (dependency_cycle_members l)) \<supseteq> {k. bt_get l k \<noteq> None}"
    using remaining_depths_fold [of l "dependency_cycle_members l" r "\<lambda>_. None" "bt_keys l"] bt.keys_get [OF wf]
    by (auto simp: remaining_depths_def)
qed

declare split_paired_All [simp] split_paired_Ex [simp]

end
