(* ===== verification/Analysis.thy ===== *)
theory Analysis
  imports Graph
begin

text \<open>
  The analysis of a snapshot (\<open>src/metacognition/analysis.rs\<close>): one definition per diagnostic rule,
  in the order of the calls of the closure \<open>add\<close>, then the reports of the tasks, the goals and the
  summary. The tables built before the loop over the tasks are the record \<open>analysis_env\<close>.
\<close>

section \<open>Formatting\<close>

fun status_debug :: "TaskStatus \<Rightarrow> string" where
  "status_debug TaskStatus.Pending = ''Pending''"
| "status_debug TaskStatus.Running = ''Running''"
| "status_debug TaskStatus.Blocked = ''Blocked''"
| "status_debug TaskStatus.Succeeded = ''Succeeded''"
| "status_debug TaskStatus.Failed = ''Failed''"
| "status_debug TaskStatus.Canceled = ''Canceled''"
| "status_debug TaskStatus.Partial = ''Partial''"

fun outcome_debug :: "TaskOutcome option \<Rightarrow> string" where
  "outcome_debug None = ''None''"
| "outcome_debug (Some TaskOutcome.Succeeded) = ''Some(Succeeded)''"
| "outcome_debug (Some TaskOutcome.Failed) = ''Some(Failed)''"
| "outcome_debug (Some TaskOutcome.Canceled) = ''Some(Canceled)''"
| "outcome_debug (Some TaskOutcome.Partial) = ''Some(Partial)''"

definition percent :: "f32 \<Rightarrow> string" where
  "percent p = f32_fmt0 (f32_mul p f32_hundred)"

section \<open>The diagnostics of one task\<close>

record analysis_env =
  env_since :: "DateTime \<Rightarrow> DateTime \<Rightarrow> int"
  env_now :: DateTime
  env_policy :: AnalysisPolicy
  env_tasks :: TaskLookup
  env_goals :: "GoalKey set"
  env_events :: TaskEventIndex
  env_cycle :: "TaskKey set"
  env_critical :: "TaskKey set"

type_synonym finding = "DiagnosticRule \<times> DiagnosticSeverity \<times> string \<times> string \<times> string option"

abbreviation spec_id :: "TaskState \<Rightarrow> string" where
  "spec_id t \<equiv> TaskSpec.task_id (TaskState.task t)"

definition stale_for :: "analysis_env \<Rightarrow> TaskState \<Rightarrow> int" where
  "stale_for e t = age_seconds (env_since e) (env_now e) (updated_at t)"

definition evidence_count_of :: "TaskState \<Rightarrow> nat" where
  "evidence_count_of t =
     usize_sat_add (case TaskState.latest_reflection t of None \<Rightarrow> 0 | Some r \<Rightarrow> length (Reflection.evidence r))
       (length (TaskState.artifacts t))"

definition stalled_finding :: "analysis_env \<Rightarrow> TaskState \<Rightarrow> finding list" where
  "stalled_finding e t =
     (let stale = stale_for e t; limit = stale_after_seconds (env_policy e) in
      if is_active (TaskState.status t) \<and> limit \<le> stale then
        [(StalledTask,
          if TaskState.status t = TaskStatus.Blocked \<and> i64_sat_mul limit 2 \<le> stale then Critical else Warning,
          ''Task '' @ spec_id t @ '' has stopped producing observable progress'',
          ''The task is '' @ status_debug (TaskState.status t) @ '' and its latest retained state is '' @
          dec_int stale @ '' seconds old; the configured stall threshold is '' @ dec_int limit @ '' seconds.'',
          Some ''Request a checkpoint, verify the blocker, or revise the plan.'')]
      else [])"

definition retry_finding :: "analysis_env \<Rightarrow> TaskState \<Rightarrow> finding list" where
  "retry_finding e t =
     (if retry_loop_attempts (env_policy e) \<le> TaskState.attempt t \<and>
         TaskState.status t \<notin> {TaskStatus.Succeeded, TaskStatus.Canceled} then
        [(RetryLoop, Warning, ''Task '' @ spec_id t @ '' is in a repeated-attempt loop'',
          ''The task is on attempt '' @ dec_int (uint (TaskState.attempt t)) @ ''. The retry-loop threshold is '' @
          dec_int (uint (retry_loop_attempts (env_policy e))) @ '' attempts.'',
          Some ''Change a causal variable before retrying again and record the result.'')]
      else [])"

definition blocked_dependency_finding :: "string list \<Rightarrow> TaskState \<Rightarrow> finding list" where
  "blocked_dependency_finding unresolved t =
     (if TaskState.status t = TaskStatus.Running \<and> unresolved \<noteq> [] then
        [(BlockedDependency, Warning, ''Task '' @ spec_id t @ '' is running before its dependencies are complete'',
          ''Unresolved dependencies: '' @ str_join '', '' unresolved @ ''.'',
          Some ''Pause the task or explicitly revise the dependency graph.'')]
      else [])"

definition orphan_dependency_finding :: "string list \<Rightarrow> TaskState \<Rightarrow> finding list" where
  "orphan_dependency_finding missing t =
     (if missing \<noteq> [] then
        [(OrphanDependency, Critical, ''Task '' @ spec_id t @ '' references unknown dependencies'',
          ''Missing scoped task definitions: '' @ str_join '', '' missing @ ''.'',
          Some ''Declare the missing tasks or remove the stale dependency references.'')]
      else [])"

definition cycle_finding :: "analysis_env \<Rightarrow> TaskState \<Rightarrow> finding list" where
  "cycle_finding e t =
     (if task_key t \<in> env_cycle e then
        [(DependencyCycle, Critical, ''Task '' @ spec_id t @ '' participates in a dependency cycle'',
          ''The scoped task graph cannot produce a finite critical path while this cycle exists.'',
          Some ''Break the cycle by revising at least one dependency edge.'')]
      else [])"

definition orphan_goal_finding :: "analysis_env \<Rightarrow> TaskState \<Rightarrow> finding list" where
  "orphan_goal_finding e t =
     (case TaskSpec.goal_id (TaskState.task t) of
        None \<Rightarrow> []
      | Some g \<Rightarrow>
          if (TaskState.agent_id t, g) \<notin> env_goals e then
            [(OrphanGoal, Warning, ''Task '' @ spec_id t @ '' references an unknown goal'',
              ''Goal '' @ g @ '' has not been retained or was never declared for agent '' @ TaskState.agent_id t @ ''.'',
              Some ''Declare the goal or reassign the task to a retained goal.'')]
          else [])"

definition evidence_finding :: "TaskState \<Rightarrow> finding list" where
  "evidence_finding t =
     (if (f32_lt f32_zero (TaskState.progress t) \<or> is_terminal (TaskState.status t)) \<and> evidence_count_of t = 0 then
        [(MissingEvidence, if is_terminal (TaskState.status t) then Warning else Info,
          ''Task '' @ spec_id t @ '' has progress without retained evidence'',
          ''Self-reported progress is '' @ percent (TaskState.progress t) @
          ''% but no reflection evidence or completion artifact is retained.'',
          Some ''Attach a test, artifact, measurement, or other visible evidence reference.'')]
      else [])"

definition confidence_of :: "TaskState \<Rightarrow> f32 option" where
  "confidence_of t = map_option Reflection.confidence (TaskState.latest_reflection t)"

definition confidence_finding :: "analysis_env \<Rightarrow> TaskState \<Rightarrow> finding list" where
  "confidence_finding e t =
     (case confidence_of t of
        None \<Rightarrow> []
      | Some c \<Rightarrow>
          if f32_lt c (low_confidence_threshold (env_policy e)) then
            [(LowConfidence, Warning, ''Task '' @ spec_id t @ '' has low declared confidence'',
              ''Latest declared confidence is '' @ percent c @ ''%; the policy threshold is '' @
              percent (low_confidence_threshold (env_policy e)) @ ''%.'',
              Some ''Gather another independent signal or narrow the claim before acting.'')]
          else [])"

definition next_action_finding :: "TaskState \<Rightarrow> finding list" where
  "next_action_finding t =
     (if is_active (TaskState.status t) \<and> TaskState.next_action t = None then
        [(MissingNextAction, if TaskState.status t = TaskStatus.Blocked then Warning else Info,
          ''Task '' @ spec_id t @ '' has no explicit next action'',
          ''The latest retained state does not identify the next observable step.'',
          Some ''Record one concrete, testable next action.'')]
      else [])"

definition completion_mismatch :: "TaskState \<Rightarrow> bool" where
  "completion_mismatch t =
     (case (TaskState.status t, TaskState.outcome t) of
        (TaskStatus.Succeeded, Some TaskOutcome.Succeeded) \<Rightarrow> f32_lt (TaskState.progress t) f32_one
      | (TaskStatus.Failed, Some TaskOutcome.Failed) \<Rightarrow> False
      | (TaskStatus.Canceled, Some TaskOutcome.Canceled) \<Rightarrow> False
      | (TaskStatus.Partial, Some TaskOutcome.Partial) \<Rightarrow> False
      | (s, r) \<Rightarrow> if is_terminal s then True else r \<noteq> None)"

definition mismatch_finding :: "TaskState \<Rightarrow> finding list" where
  "mismatch_finding t =
     (if completion_mismatch t then
        [(CompletionMismatch, Critical, ''Task '' @ spec_id t @ '' has contradictory completion state'',
          ''Status '' @ status_debug (TaskState.status t) @ '', outcome '' @ outcome_debug (TaskState.outcome t) @
          '', and progress '' @ percent (TaskState.progress t) @ ''% do not form a consistent terminal projection.'',
          Some ''Replay the causal events and publish a corrected authoritative state.'')]
      else [])"

definition task_findings :: "analysis_env \<Rightarrow> TaskState \<Rightarrow> finding list" where
  "task_findings e t =
     (let (unresolved, missing) = dependency_state t (env_tasks e) in
      stalled_finding e t @ retry_finding e t @ blocked_dependency_finding unresolved t @
      orphan_dependency_finding missing t @ cycle_finding e t @ orphan_goal_finding e t @
      evidence_finding t @ confidence_finding e t @ next_action_finding t @ mismatch_finding t)"

definition task_sources :: "analysis_env \<Rightarrow> TaskState \<Rightarrow> Uuid list" where
  "task_sources e t = recent_event_ids (bt_get (env_events e) (task_key t))"

definition make_diagnostic :: "analysis_env \<Rightarrow> TaskState \<Rightarrow> finding \<Rightarrow> Diagnostic" where
  "make_diagnostic e t f =
     (case f of (r, sev, s, x, act) \<Rightarrow>
        \<lparr>Diagnostic.diagnostic_id = diagnostic_key r (TaskState.agent_id t) (spec_id t), rule = r, severity = sev,
         agent_id = TaskState.agent_id t, goal_id = TaskSpec.goal_id (TaskState.task t), task_id = Some (spec_id t),
         summary = s, explanation = x, recommended_action = act,
         source_event_ids = task_sources e t, source_events_retained = (task_sources e t \<noteq> [])\<rparr>)"

definition task_diagnostics :: "analysis_env \<Rightarrow> TaskState \<Rightarrow> Diagnostic list" where
  "task_diagnostics e t = map (make_diagnostic e t) (task_findings e t)"

definition analyze_task :: "analysis_env \<Rightarrow> TaskState \<Rightarrow> TaskAnalysis" where
  "analyze_task e t =
     (let (unresolved, missing) = dependency_state t (env_tasks e) in
      \<lparr>TaskAnalysis.agent_id = TaskState.agent_id t, task_id = spec_id t,
       goal_id = TaskSpec.goal_id (TaskState.task t), status = TaskState.status t,
       self_reported_progress = TaskState.progress t,
       evidence_backed_progress = (if 0 < evidence_count_of t then TaskState.progress t else f32_zero),
       confidence = confidence_of t, evidence_count = evidence_count_of t, attempt = TaskState.attempt t,
       stale_for_seconds = stale_for e t,
       blocker_age_seconds = map_option (\<lambda>_. stale_for e t) (TaskState.blocker t),
       unresolved_dependencies = unresolved, missing_dependencies = missing,
       on_critical_path = (task_key t \<in> env_critical e),
       diagnostic_ids = sort_by cmp (map Diagnostic.diagnostic_id (task_diagnostics e t)),
       source_event_ids = task_sources e t, source_events_retained = (task_sources e t \<noteq> [])\<rparr>)"

definition diagnostic_cmp :: "Diagnostic \<Rightarrow> Diagnostic \<Rightarrow> ordering" where
  "diagnostic_cmp l r =
     then_with (cmp (severity_rank (severity r)) (severity_rank (severity l)))
       (cmp (Diagnostic.diagnostic_id l) (Diagnostic.diagnostic_id r))"

section \<open>Goals and summary\<close>

definition count_if :: "('x \<Rightarrow> bool) \<Rightarrow> 'x list \<Rightarrow> nat" where
  "count_if p xs = length (filter p xs)"

definition analyze_goal ::
  "AnalysisPolicy \<Rightarrow> TaskAnalysis list \<Rightarrow> Diagnostic list \<Rightarrow> (GoalKey \<rightharpoonup> nat option) \<Rightarrow> GoalState \<Rightarrow> GoalAnalysis" where
  "analyze_goal pol analyses ds remaining g =
     (let gid = Goal.goal_id (GoalState.goal g);
          goal_tasks = filter (\<lambda>t. TaskAnalysis.agent_id t = GoalState.agent_id g \<and> TaskAnalysis.goal_id t = Some gid) analyses;
          total = length goal_tasks;
          rest = (case remaining (GoalState.agent_id g, gid) of None \<Rightarrow> None | Some d \<Rightarrow> d)
      in \<lparr>GoalAnalysis.agent_id = GoalState.agent_id g, goal_id = gid, title = Goal.title (GoalState.goal g),
          success_criteria_count = length (Goal.success_criteria (GoalState.goal g)),
          total_tasks = total,
          active_tasks = count_if (\<lambda>t. is_active (TaskAnalysis.status t)) goal_tasks,
          blocked_tasks = count_if (\<lambda>t. TaskAnalysis.status t = TaskStatus.Blocked) goal_tasks,
          completed_tasks = count_if (\<lambda>t. is_terminal (TaskAnalysis.status t)) goal_tasks,
          stalled_tasks = count_if (\<lambda>t. stale_after_seconds pol \<le> stale_for_seconds t \<and> is_active (TaskAnalysis.status t)) goal_tasks,
          self_reported_progress = mean (map TaskAnalysis.self_reported_progress goal_tasks),
          evidence_backed_progress = mean (map TaskAnalysis.evidence_backed_progress goal_tasks),
          evidence_coverage = ratio (count_if (\<lambda>t. 0 < TaskAnalysis.evidence_count t) goal_tasks) total,
          critical_path_remaining = rest,
          critical_path_task_ids = sort_by cmp (map TaskAnalysis.task_id (filter on_critical_path goal_tasks)),
          diagnostic_ids = sort_by cmp (map Diagnostic.diagnostic_id
            (filter (\<lambda>d. Diagnostic.agent_id d = GoalState.agent_id g \<and> Diagnostic.goal_id d = Some gid) ds)),
          data_quality_warnings =
            (if total = 0 then [''No retained tasks are mapped to this goal, so progress is indeterminate.''] else []) @
            (if rest = None \<and> 0 < total
             then [''Critical-path progress is unavailable because the task graph contains a cycle.''] else []) @
            (if \<exists>t \<in> set goal_tasks. missing_dependencies t \<noteq> []
             then [''At least one task references a dependency that is not retained.''] else [])\<rparr>)"

definition summarize :: "GoalAnalysis list \<Rightarrow> TaskAnalysis list \<Rightarrow> Diagnostic list \<Rightarrow> MetacognitionSummary" where
  "summarize gs analyses ds =
     \<lparr>MetacognitionSummary.total_goals = length gs, total_tasks = length analyses,
      active_tasks = count_if (\<lambda>t. is_active (TaskAnalysis.status t)) analyses,
      blocked_tasks = count_if (\<lambda>t. TaskAnalysis.status t = TaskStatus.Blocked) analyses,
      stalled_tasks = count_if (\<lambda>d. rule d = StalledTask) ds,
      retry_loops = count_if (\<lambda>d. rule d = RetryLoop) ds,
      critical_diagnostics = count_if (\<lambda>d. severity d = Critical) ds,
      warning_diagnostics = count_if (\<lambda>d. severity d = Warning) ds,
      info_diagnostics = count_if (\<lambda>d. severity d = Info) ds,
      self_reported_progress = mean (map TaskAnalysis.self_reported_progress analyses),
      evidence_backed_progress = mean (map TaskAnalysis.evidence_backed_progress analyses),
      evidence_coverage = ratio (count_if (\<lambda>t. 0 < TaskAnalysis.evidence_count t) analyses) (length analyses)\<rparr>"

section \<open>The analysis\<close>

definition task_table :: "TaskState list \<Rightarrow> TaskLookup" where
  "task_table ts = bt_collect (map (\<lambda>t. (task_key t, t)) ts) []"

definition analysis_setup ::
  "(DateTime \<Rightarrow> DateTime \<Rightarrow> int) \<Rightarrow> Snapshot \<Rightarrow> AnalysisPolicy \<Rightarrow> analysis_env \<times> (GoalKey \<rightharpoonup> nat option)" where
  "analysis_setup since snap pol =
     (let lookup = task_table (Snapshot.tasks snap);
          cycle = dependency_cycle_members lookup;
          (critical, remaining) = critical_paths (Snapshot.tasks snap) cycle (remaining_depths lookup cycle)
      in (\<lparr>env_since = since, env_now = Snapshot.generated_at snap, env_policy = pol, env_tasks = lookup,
           env_goals = (\<lambda>g. (GoalState.agent_id g, Goal.goal_id (GoalState.goal g))) ` set (Snapshot.goals snap),
           env_events = index_task_events (Snapshot.recent_events snap),
           env_cycle = cycle, env_critical = critical\<rparr>, remaining))"

definition goal_cmp :: "GoalState \<Rightarrow> GoalState \<Rightarrow> ordering" where
  "goal_cmp l r = cmp (GoalState.agent_id l, Goal.goal_id (GoalState.goal l)) (GoalState.agent_id r, Goal.goal_id (GoalState.goal r))"

definition task_cmp :: "TaskState \<Rightarrow> TaskState \<Rightarrow> ordering" where
  "task_cmp l r = cmp (task_key l) (task_key r)"

definition analyze_with_policy ::
  "(DateTime \<Rightarrow> DateTime \<Rightarrow> int) \<Rightarrow> Snapshot \<Rightarrow> AnalysisPolicy \<Rightarrow> MetacognitionSnapshot" where
  "analyze_with_policy since snap pol0 =
     (let pol = policy_normalized pol0;
          (e, remaining) = analysis_setup since snap pol;
          ts = sort_by task_cmp (Snapshot.tasks snap);
          analyses = map (analyze_task e) ts;
          ds = sort_by diagnostic_cmp (concat (map (task_diagnostics e) ts));
          gs = map (analyze_goal pol analyses ds remaining) (sort_by goal_cmp (Snapshot.goals snap))
      in \<lparr>MetacognitionSnapshot.generated_at = Snapshot.generated_at snap, revision = Snapshot.revision snap,
          policy = pol, summary = summarize gs analyses ds, goals = gs, tasks = analyses, diagnostics = ds\<rparr>)"

definition analyze :: "(DateTime \<Rightarrow> DateTime \<Rightarrow> int) \<Rightarrow> Snapshot \<Rightarrow> MetacognitionSnapshot" where
  "analyze since snap = analyze_with_policy since snap analysis_policy_default"

section \<open>The rules\<close>

text \<open>Which rules fire for a task, in order, with their severities.\<close>

lemma finding_if: "r \<in> fst ` set (if c then [(q, x)] else []) \<longleftrightarrow> r = q \<and> c"
  by (cases c) simp_all

lemma finding_opt:
  "r \<in> fst ` set (case v of None \<Rightarrow> [] | Some c \<Rightarrow> if P c then [(q, x c)] else []) \<longleftrightarrow> r = q \<and> (\<exists>c. v = Some c \<and> P c)"
  by (cases "\<exists>c. v = Some c \<and> P c") (auto split: option.splits)

lemma finding_mem:
  "r \<in> fst ` set (stalled_finding e t) \<longleftrightarrow>
     r = StalledTask \<and> is_active (TaskState.status t) \<and> stale_after_seconds (env_policy e) \<le> stale_for e t"
  "r \<in> fst ` set (retry_finding e t) \<longleftrightarrow>
     r = RetryLoop \<and> retry_loop_attempts (env_policy e) \<le> TaskState.attempt t \<and>
     TaskState.status t \<notin> {TaskStatus.Succeeded, TaskStatus.Canceled}"
  "r \<in> fst ` set (blocked_dependency_finding u t) \<longleftrightarrow>
     r = BlockedDependency \<and> TaskState.status t = TaskStatus.Running \<and> u \<noteq> []"
  "r \<in> fst ` set (orphan_dependency_finding m t) \<longleftrightarrow> r = OrphanDependency \<and> m \<noteq> []"
  "r \<in> fst ` set (cycle_finding e t) \<longleftrightarrow> r = DependencyCycle \<and> task_key t \<in> env_cycle e"
  "r \<in> fst ` set (orphan_goal_finding e t) \<longleftrightarrow>
     r = OrphanGoal \<and> (\<exists>g. TaskSpec.goal_id (TaskState.task t) = Some g \<and> (TaskState.agent_id t, g) \<notin> env_goals e)"
  "r \<in> fst ` set (evidence_finding t) \<longleftrightarrow>
     r = MissingEvidence \<and> (f32_lt f32_zero (TaskState.progress t) \<or> is_terminal (TaskState.status t)) \<and> evidence_count_of t = 0"
  "r \<in> fst ` set (confidence_finding e t) \<longleftrightarrow>
     r = LowConfidence \<and> (\<exists>c. confidence_of t = Some c \<and> f32_lt c (low_confidence_threshold (env_policy e)))"
  "r \<in> fst ` set (next_action_finding t) \<longleftrightarrow>
     r = MissingNextAction \<and> is_active (TaskState.status t) \<and> TaskState.next_action t = None"
  "r \<in> fst ` set (mismatch_finding t) \<longleftrightarrow> r = CompletionMismatch \<and> completion_mismatch t"
  unfolding stalled_finding_def retry_finding_def blocked_dependency_finding_def orphan_dependency_finding_def
    cycle_finding_def orphan_goal_finding_def evidence_finding_def confidence_finding_def next_action_finding_def
    mismatch_finding_def Let_def finding_if finding_opt
  by (simp_all only: conj_assoc simp_thms)

lemma findings_rules:
  "r \<in> fst ` set (task_findings e t) \<longleftrightarrow>
     (case r of
        StalledTask \<Rightarrow> is_active (TaskState.status t) \<and> stale_after_seconds (env_policy e) \<le> stale_for e t
      | RetryLoop \<Rightarrow> retry_loop_attempts (env_policy e) \<le> TaskState.attempt t \<and>
          TaskState.status t \<notin> {TaskStatus.Succeeded, TaskStatus.Canceled}
      | BlockedDependency \<Rightarrow> TaskState.status t = TaskStatus.Running \<and> fst (dependency_state t (env_tasks e)) \<noteq> []
      | OrphanDependency \<Rightarrow> snd (dependency_state t (env_tasks e)) \<noteq> []
      | DependencyCycle \<Rightarrow> task_key t \<in> env_cycle e
      | OrphanGoal \<Rightarrow> (\<exists>g. TaskSpec.goal_id (TaskState.task t) = Some g \<and> (TaskState.agent_id t, g) \<notin> env_goals e)
      | MissingEvidence \<Rightarrow> (f32_lt f32_zero (TaskState.progress t) \<or> is_terminal (TaskState.status t)) \<and> evidence_count_of t = 0
      | LowConfidence \<Rightarrow> (\<exists>c. confidence_of t = Some c \<and> f32_lt c (low_confidence_threshold (env_policy e)))
      | MissingNextAction \<Rightarrow> is_active (TaskState.status t) \<and> TaskState.next_action t = None
      | CompletionMismatch \<Rightarrow> completion_mismatch t)"
proof -
  obtain u m where d: "dependency_state t (env_tasks e) = (u, m)" by fastforce
  show ?thesis
    unfolding task_findings_def d Let_def prod.case set_append image_Un Un_iff finding_mem fst_conv snd_conv
    by (cases r) simp_all
qed

lemma total_cmp_tasks: "total_cmp task_cmp"
  unfolding task_cmp_def [abs_def] by (rule total_cmp_key [OF total_cmp_linorder])

lemma total_cmp_goals: "total_cmp goal_cmp"
  unfolding goal_cmp_def [abs_def] by (rule total_cmp_key [OF total_cmp_linorder])

lemma total_cmp_diagnostics: "total_cmp diagnostic_cmp"
  unfolding diagnostic_cmp_def [abs_def] by (rule total_cmp_intros)+

interpretation task_order: total_cmp task_cmp
  by (rule total_cmp_tasks)

interpretation diagnostic_order: total_cmp diagnostic_cmp
  by (rule total_cmp_diagnostics)

end
