(* ===== verification/MetaSpec.thy ===== *)
theory MetaSpec
  imports Depths Analysis StoreIngest
begin

text \<open>
  The properties of the metacognition engine: what the cycle search finds and what it misses, the
  recursion equation of the memoized depths, which diagnostics are reported, and how the reports
  add up.
\<close>

lemma task_table_wf: "bt_wf (task_table ts)"
  by (simp add: task_table_def bt_wf_collect)

section \<open>Dependency cycles\<close>

text \<open>
  C9: every task that is flagged as a member of a dependency cycle does lie on a cycle of retained
  dependencies of its own agent.
\<close>

theorem cycle_members_are_on_cycles:
  assumes "k \<in> dependency_cycle_members (task_table ts)"
  shows "(dep_edge (task_table ts))\<^sup>+\<^sup>+ k k"
  using task_table_wf assms by (rule cycle_member_on_cycle)

definition demo_task :: "string \<Rightarrow> string list \<Rightarrow> TaskState" where
  "demo_task tid deps = task_from_spec
     \<lparr>TaskSpec.task_id = tid, title = tid, goal_id = None, depends_on = deps, tags = [], expected_outcome = None\<rparr>
     ''a'' (0, 0) False"

definition demo_cycle :: "TaskState list" where
  "demo_cycle = [demo_task ''1'' [''2'', ''3''], demo_task ''2'' [''1''], demo_task ''3'' [''2'']]"

lemma demo_cycle_members: "dependency_cycle_members (task_table demo_cycle) = {(''a'', ''1''), (''a'', ''2'')}"
  by code_simp

theorem cycle_members_are_on_cycles_witness:
  "(dep_edge (task_table demo_cycle))\<^sup>+\<^sup>+ (''a'', ''2'') (''a'', ''2'')"
  by (rule cycle_members_are_on_cycles) (simp add: demo_cycle_members)

text \<open>
  C10: every set of tasks in which each task depends on a task of the set, in particular every
  dependency cycle, contains a dependency both ends of which are flagged. So no cycle goes
  unreported.
\<close>

theorem every_cycle_is_reported:
  assumes "C \<noteq> {}" and "\<forall>k \<in> C. \<exists>k' \<in> C. dep_edge (task_table ts) k k'"
  shows "\<exists>k \<in> C. \<exists>k' \<in> C. dep_edge (task_table ts) k k' \<and>
    k \<in> dependency_cycle_members (task_table ts) \<and> k' \<in> dependency_cycle_members (task_table ts)"
proof -
  obtain r :: "TaskKey \<Rightarrow> nat" where r: "\<forall>k k'. dep_edge (task_table ts) k k' \<longrightarrow> r k' < r k \<or>
      (k \<in> dependency_cycle_members (task_table ts) \<and> k' \<in> dependency_cycle_members (task_table ts))"
    using cycle_members_ranked [OF task_table_wf] by metis
  obtain k where k: "k \<in> C" "\<And>j. j \<in> C \<Longrightarrow> r k \<le> r j"
    using assms(1) ex_has_least_nat [of "\<lambda>k. k \<in> C" _ r] by blast
  from assms(2) k(1) obtain k' where k': "k' \<in> C" "dep_edge (task_table ts) k k'" by blast
  with r k show ?thesis by (metis linorder_not_less)
qed

lemma demo_edges: "dep_edge (task_table demo_cycle) (''a'', ''1'') (''a'', ''2'')"
  "dep_edge (task_table demo_cycle) (''a'', ''2'') (''a'', ''1'')"
  "dep_edge (task_table demo_cycle) (''a'', ''1'') (''a'', ''3'')"
  "dep_edge (task_table demo_cycle) (''a'', ''3'') (''a'', ''2'')"
  by (simp_all add: dep_edge_def demo_cycle_def task_table_def demo_task_def task_from_spec_def task_key_def cmp_def bt_get_def)

theorem every_cycle_is_reported_witness:
  "\<exists>k \<in> {(''a'', ''1''), (''a'', ''3''), (''a'', ''2'')}. k \<in> dependency_cycle_members (task_table demo_cycle)"
  using every_cycle_is_reported [of "{(''a'', ''1''), (''a'', ''3''), (''a'', ''2'')}" demo_cycle] demo_edges by blast

text \<open>
  The members are empty exactly when the retained dependency graph has no cycle.
\<close>

theorem no_members_iff_acyclic:
  "dependency_cycle_members (task_table ts) = {} \<longleftrightarrow> (\<forall>k. \<not> (dep_edge (task_table ts))\<^sup>+\<^sup>+ k k)"
proof
  assume none: "dependency_cycle_members (task_table ts) = {}"
  obtain r :: "TaskKey \<Rightarrow> nat" where r: "\<And>k k'. dep_edge (task_table ts) k k' \<Longrightarrow> r k' < r k"
    using cycle_members_ranked [OF task_table_wf, of ts] none by auto
  have "(dep_edge (task_table ts))\<^sup>+\<^sup>+ k k' \<Longrightarrow> r k' < r k" for k k'
    by (induction rule: tranclp_induct) (auto dest: r)
  then show "\<forall>k. \<not> (dep_edge (task_table ts))\<^sup>+\<^sup>+ k k" by blast
next
  assume "\<forall>k. \<not> (dep_edge (task_table ts))\<^sup>+\<^sup>+ k k"
  then show "dependency_cycle_members (task_table ts) = {}"
    using cycle_member_on_cycle [OF task_table_wf] by blast
qed

text \<open>
  The search does not flag every task on a cycle. With the dependencies 1 on 2 and 3, 2 on 1,
  and 3 on 2, task 3 lies on the cycle 3, 2, 1 but is not a member, because the search reaches it
  after task 2 was finished.
\<close>

theorem cycle_search_misses_a_task:
  "\<exists>ts k. (dep_edge (task_table ts))\<^sup>+\<^sup>+ k k \<and> k \<notin> dependency_cycle_members (task_table ts)"
proof (intro exI conjI)
  show "(dep_edge (task_table demo_cycle))\<^sup>+\<^sup>+ (''a'', ''3'') (''a'', ''3'')"
    using demo_edges by (meson tranclp.r_into_trancl tranclp.trancl_into_trancl)
  show "(''a'', ''3'') \<notin> dependency_cycle_members (task_table demo_cycle)"
    by (simp add: demo_cycle_members)
qed

section \<open>Remaining depths\<close>

text \<open>
  The memo table holds, for every retained task, zero if it succeeded, one if it is flagged as
  a member of a cycle, and otherwise one more than the largest depth of its retained dependencies,
  saturating at the width of the machine word. The placeholders the code writes before it descends
  never leak into the result.
\<close>

theorem remaining_depths_equation:
  assumes "bt_get (task_table ts) k = Some t"
  defines "M \<equiv> dependency_cycle_members (task_table ts)" and "D \<equiv> remaining_depths (task_table ts) (dependency_cycle_members (task_table ts))"
  shows "D k = Some
    (if TaskState.status t = TaskStatus.Succeeded then 0
     else if k \<in> M then 1
     else usize_sat_add
       (fold max (map (\<lambda>d. the (D (fst k, d))) (retained_dependencies (task_table ts) (fst k) t)) 0) 1)"
proof -
  have "k \<in> dom D" using remaining_depths_ok(2) [OF task_table_wf, of ts] assms(1) by (auto simp: D_def)
  then obtain d where d: "D k = Some d" by blast
  with remaining_depths_ok(1) [OF task_table_wf, of ts] have "entry_ok (task_table ts) M {} D k d"
    unfolding memo_ok_def D_def M_def by blast
  with d assms(1) show ?thesis
    by (auto simp: entry_ok_def dependency_keys_def comp_def)
qed

definition demo_chain :: "TaskState list" where
  "demo_chain = [demo_task ''1'' [''2'', ''9''], demo_task ''2'' [''3''], demo_task ''3'' []]"

theorem remaining_depths_equation_witness:
  "remaining_depths (task_table demo_chain) (dependency_cycle_members (task_table demo_chain)) (''a'', ''1'') =
   Some (usize_sat_add
     (fold max (map (\<lambda>d. the (remaining_depths (task_table demo_chain) (dependency_cycle_members (task_table demo_chain)) (''a'', d))) [''2'']) 0) 1)"
proof -
  have get: "bt_get (task_table demo_chain) (''a'', ''1'') = Some (demo_task ''1'' [''2'', ''9''])" by code_simp
  have "TaskState.status (demo_task ''1'' [''2'', ''9'']) \<noteq> TaskStatus.Succeeded"
    "(''a'', ''1'') \<notin> dependency_cycle_members (task_table demo_chain)"
    "retained_dependencies (task_table demo_chain) ''a'' (demo_task ''1'' [''2'', ''9'']) = [''2'']"
    by code_simp+
  with remaining_depths_equation [OF get] show ?thesis by simp
qed

section \<open>Diagnostics\<close>

definition demo_store_snapshot :: "TaskState list \<Rightarrow> Snapshot" where
  "demo_store_snapshot ts =
     (let z = \<lparr>CacheStats.len = 0, capacity = 1, evictions = 0, pressure = 0\<rparr> in
      \<lparr>Snapshot.generated_at = (0, 0), started_at = (0, 0), revision = 3, agents = [], goals = [], tasks = ts, lessons = [],
       recent_events = [],
       caches = \<lparr>CacheSnapshot.agents = z, goals = z, tasks = z, lessons = z, events = z, idempotency = z\<rparr>,
       counters = counters_default\<rparr>)"

text \<open>The environment in which the tasks of a snapshot are analysed.\<close>

definition env_of :: "(DateTime \<Rightarrow> DateTime \<Rightarrow> int) \<Rightarrow> Snapshot \<Rightarrow> AnalysisPolicy \<Rightarrow> analysis_env" where
  "env_of since snap pol = fst (analysis_setup since snap (policy_normalized pol))"

lemma analysis_diagnostics_set:
  "set (diagnostics (analyze_with_policy since snap pol)) =
     (\<Union>t \<in> set (Snapshot.tasks snap). set (task_diagnostics (env_of since snap pol) t))"
  by (simp add: analyze_with_policy_def env_of_def Let_def prod.case_eq_if diagnostic_order.set_sort_by task_order.set_sort_by)

lemma analysis_tasks:
  "MetacognitionSnapshot.tasks (analyze_with_policy since snap pol) =
     map (analyze_task (env_of since snap pol)) (sort_by task_cmp (Snapshot.tasks snap))"
  by (simp add: analyze_with_policy_def env_of_def Let_def prod.case_eq_if)

lemma env_of_sel [simp]:
  "env_policy (env_of since snap pol) = policy_normalized pol"
  "env_tasks (env_of since snap pol) = task_table (Snapshot.tasks snap)"
  "env_cycle (env_of since snap pol) = dependency_cycle_members (task_table (Snapshot.tasks snap))"
  "env_now (env_of since snap pol) = Snapshot.generated_at snap"
  "env_since (env_of since snap pol) = since"
  "env_goals (env_of since snap pol) = (\<lambda>g. (GoalState.agent_id g, Goal.goal_id (GoalState.goal g))) ` set (Snapshot.goals snap)"
  by (simp_all add: env_of_def analysis_setup_def Let_def prod.case_eq_if)

lemma task_diagnostic_rules:
  "(\<exists>d \<in> set (task_diagnostics e t). rule d = r) \<longleftrightarrow> r \<in> fst ` set (task_findings e t)"
  by (force simp: task_diagnostics_def make_diagnostic_def)

lemma reported_rule_iff:
  assumes "distinct (map task_key (Snapshot.tasks snap))" and "t \<in> set (Snapshot.tasks snap)"
  shows "(\<exists>d \<in> set (diagnostics (analyze_with_policy since snap pol)).
      rule d = r \<and> Diagnostic.agent_id d = TaskState.agent_id t \<and> Diagnostic.task_id d = Some (spec_id t)) \<longleftrightarrow>
    r \<in> fst ` set (task_findings (env_of since snap pol) t)"
proof -
  let ?e = "env_of since snap pol"
  have own: "task_key t' = task_key t \<longleftrightarrow> t' = t" if "t' \<in> set (Snapshot.tasks snap)" for t'
    using assms that by (auto simp: distinct_map inj_on_def)
  have "(\<exists>d \<in> set (diagnostics (analyze_with_policy since snap pol)).
      rule d = r \<and> Diagnostic.agent_id d = TaskState.agent_id t \<and> Diagnostic.task_id d = Some (spec_id t)) \<longleftrightarrow>
    (\<exists>t' \<in> set (Snapshot.tasks snap). task_key t' = task_key t \<and> (\<exists>d \<in> set (task_diagnostics ?e t'). rule d = r))"
    unfolding analysis_diagnostics_set
    by (force simp: task_diagnostics_def make_diagnostic_def task_key_def split: prod.splits)
  also have "\<dots> \<longleftrightarrow> r \<in> fst ` set (task_findings ?e t)"
    using own assms(2) by (auto simp: task_diagnostic_rules)
  finally show ?thesis .
qed

lemma unknown_goal:
  "x \<notin> env_goals (env_of since snap pol) \<longleftrightarrow>
     (\<forall>s \<in> set (Snapshot.goals snap). (GoalState.agent_id s, Goal.goal_id (GoalState.goal s)) \<noteq> x)"
  by force

text \<open>
  The rules, stated on the snapshot alone. A task waits for another retained task of its agent that it lists as a
  dependency; a completion is consistent if status, outcome and progress agree.
\<close>

definition waits_for :: "TaskState list \<Rightarrow> TaskKey \<Rightarrow> TaskKey \<Rightarrow> bool" where
  "waits_for ts k k' \<longleftrightarrow> fst k' = fst k \<and> k' \<in> task_key ` set ts \<and>
     (\<exists>t \<in> set ts. task_key t = k \<and> snd k' \<in> set (TaskSpec.depends_on (TaskState.task t)))"

text \<open>A non-empty set of tasks in which each task waits for one of the set: every dependency cycle is one.\<close>

definition deadlocked :: "TaskState list \<Rightarrow> TaskKey set \<Rightarrow> bool" where
  "deadlocked ts C \<longleftrightarrow> C \<noteq> {} \<and> (\<forall>k \<in> C. \<exists>k' \<in> C. waits_for ts k k')"

definition consistent_completion :: "TaskState \<Rightarrow> bool" where
  "consistent_completion t \<longleftrightarrow>
     TaskState.status t \<in> {TaskStatus.Pending, TaskStatus.Running, TaskStatus.Blocked} \<and> TaskState.outcome t = None \<or>
     TaskState.status t = TaskStatus.Failed \<and> TaskState.outcome t = Some TaskOutcome.Failed \<or>
     TaskState.status t = TaskStatus.Canceled \<and> TaskState.outcome t = Some TaskOutcome.Canceled \<or>
     TaskState.status t = TaskStatus.Partial \<and> TaskState.outcome t = Some TaskOutcome.Partial \<or>
     TaskState.status t = TaskStatus.Succeeded \<and> TaskState.outcome t = Some TaskOutcome.Succeeded \<and>
       \<not> f32_lt (TaskState.progress t) f32_one"

definition declared_goal :: "Snapshot \<Rightarrow> string \<Rightarrow> string \<Rightarrow> bool" where
  "declared_goal snap a g \<longleftrightarrow> (\<exists>s \<in> set (Snapshot.goals snap). GoalState.agent_id s = a \<and> Goal.goal_id (GoalState.goal s) = g)"

fun rule_holds :: "(DateTime \<Rightarrow> DateTime \<Rightarrow> int) \<Rightarrow> Snapshot \<Rightarrow> AnalysisPolicy \<Rightarrow> TaskState \<Rightarrow> DiagnosticRule \<Rightarrow> bool" where
  "rule_holds since snap pol t StalledTask \<longleftrightarrow>
     TaskState.status t \<in> {TaskStatus.Pending, TaskStatus.Running, TaskStatus.Blocked} \<and>
     max (stale_after_seconds pol) 1 \<le> since (Snapshot.generated_at snap) (updated_at t)"
| "rule_holds since snap pol t RetryLoop \<longleftrightarrow>
     retry_loop_attempts pol \<le> TaskState.attempt t \<and> 2 \<le> TaskState.attempt t \<and>
     TaskState.status t \<notin> {TaskStatus.Succeeded, TaskStatus.Canceled}"
| "rule_holds since snap pol t BlockedDependency \<longleftrightarrow>
     TaskState.status t = TaskStatus.Running \<and>
     (\<exists>t' \<in> set (Snapshot.tasks snap). waits_for (Snapshot.tasks snap) (task_key t) (task_key t') \<and> TaskState.status t' \<noteq> TaskStatus.Succeeded)"
| "rule_holds since snap pol t OrphanDependency \<longleftrightarrow>
     (\<exists>d \<in> set (TaskSpec.depends_on (TaskState.task t)). (TaskState.agent_id t, d) \<notin> task_key ` set (Snapshot.tasks snap))"
| "rule_holds since snap pol t DependencyCycle \<longleftrightarrow> (waits_for (Snapshot.tasks snap))\<^sup>+\<^sup>+ (task_key t) (task_key t)"
| "rule_holds since snap pol t OrphanGoal \<longleftrightarrow>
     (\<exists>g. TaskSpec.goal_id (TaskState.task t) = Some g \<and> \<not> declared_goal snap (TaskState.agent_id t) g)"
| "rule_holds since snap pol t MissingEvidence \<longleftrightarrow>
     (f32_lt f32_zero (TaskState.progress t) \<or>
      TaskState.status t \<in> {TaskStatus.Succeeded, TaskStatus.Failed, TaskStatus.Canceled, TaskStatus.Partial}) \<and>
     TaskState.artifacts t = [] \<and> (\<forall>r. TaskState.latest_reflection t = Some r \<longrightarrow> Reflection.evidence r = [])"
| "rule_holds since snap pol t LowConfidence \<longleftrightarrow>
     (\<exists>r. TaskState.latest_reflection t = Some r \<and>
        f32_lt (Reflection.confidence r)
          (if f32_is_finite (low_confidence_threshold pol) then f32_clamp (low_confidence_threshold pol) f32_zero f32_one
           else low_confidence_threshold analysis_policy_default))"
| "rule_holds since snap pol t MissingNextAction \<longleftrightarrow>
     TaskState.status t \<in> {TaskStatus.Pending, TaskStatus.Running, TaskStatus.Blocked} \<and> TaskState.next_action t = None"
| "rule_holds since snap pol t CompletionMismatch \<longleftrightarrow> \<not> consistent_completion t"

definition reported :: "MetacognitionSnapshot \<Rightarrow> DiagnosticRule \<Rightarrow> TaskKey \<Rightarrow> bool" where
  "reported an r k \<longleftrightarrow> (\<exists>d \<in> set (diagnostics an). rule d = r \<and> Diagnostic.agent_id d = fst k \<and> Diagnostic.task_id d = Some (snd k))"

text \<open>The tables of the analysis against the snapshot.\<close>

lemma task_table_get:
  assumes "distinct (map task_key ts)"
  shows "bt_get (task_table ts) k = Some t \<longleftrightarrow> t \<in> set ts \<and> task_key t = k"
proof -
  have "distinct (map fst (rev (map (\<lambda>t. (task_key t, t)) ts)))" using assms by (simp add: rev_map [symmetric] comp_def)
  then show ?thesis unfolding task_table_def bt_get_collect by (auto simp: map_of_eq_Some_iff)
qed

lemma task_table_none: "distinct (map task_key ts) \<Longrightarrow> bt_get (task_table ts) k = None \<longleftrightarrow> k \<notin> task_key ` set ts"
  by (metis (no_types, lifting) image_iff not_None_eq task_table_get)

lemma dep_edge_waits:
  assumes "distinct (map task_key ts)"
  shows "dep_edge (task_table ts) k k' \<longleftrightarrow> waits_for ts k k'"
  unfolding dep_edge_def waits_for_def task_table_none [OF assms] task_table_get [OF assms] by blast

lemma dep_edge_waits_abs: "distinct (map task_key ts) \<Longrightarrow> dep_edge (task_table ts) = waits_for ts"
  by (intro ext) (simp add: dep_edge_waits)

lemma completion_mismatch_iff: "completion_mismatch t \<longleftrightarrow> \<not> consistent_completion t"
  by (cases "TaskState.status t"; cases "TaskState.outcome t" rule: option.exhaust; (cases "the (TaskState.outcome t)")?)
    (simp_all add: completion_mismatch_def consistent_completion_def is_terminal_def)

lemma unresolved_iff:
  assumes "distinct (map task_key ts)" and "t \<in> set ts"
  shows "fst (dependency_state t (task_table ts)) \<noteq> [] \<longleftrightarrow>
    (\<exists>t' \<in> set ts. waits_for ts (task_key t) (task_key t') \<and> TaskState.status t' \<noteq> TaskStatus.Succeeded)"
proof -
  have own: "t' = t" if "t' \<in> set ts" "task_key t' = task_key t" for t'
    using assms that by (auto simp: distinct_map inj_on_def)
  have key: "task_key t' = (TaskState.agent_id t, d) \<longleftrightarrow> fst (task_key t') = fst (task_key t) \<and> snd (task_key t') = d" for t' d
    by (auto simp: task_key_def)
  have "fst (dependency_state t (task_table ts)) \<noteq> [] \<longleftrightarrow>
      (\<exists>d \<in> set (TaskSpec.depends_on (TaskState.task t)). \<exists>t' \<in> set ts. task_key t' = (TaskState.agent_id t, d) \<and>
        TaskState.status t' \<noteq> TaskStatus.Succeeded)"
    unfolding set_empty [symmetric] dependency_state_sets task_table_get [OF assms(1)] by auto
  also have "\<dots> \<longleftrightarrow> (\<exists>t' \<in> set ts. waits_for ts (task_key t) (task_key t') \<and> TaskState.status t' \<noteq> TaskStatus.Succeeded)"
    unfolding waits_for_def key using assms(2) own by (metis (no_types, lifting) imageI)
  finally show ?thesis .
qed

lemma missing_iff:
  assumes "distinct (map task_key ts)"
  shows "snd (dependency_state t (task_table ts)) \<noteq> [] \<longleftrightarrow>
    (\<exists>d \<in> set (TaskSpec.depends_on (TaskState.task t)). (TaskState.agent_id t, d) \<notin> task_key ` set ts)"
  unfolding set_empty [symmetric] dependency_state_sets task_table_none [OF assms] by blast

lemma no_evidence_iff:
  "evidence_count_of t = 0 \<longleftrightarrow>
     TaskState.artifacts t = [] \<and> (\<forall>r. TaskState.latest_reflection t = Some r \<longrightarrow> Reflection.evidence r = [])"
  by (auto simp: evidence_count_of_def usize_sat_add_def usize_max_def min_def split: option.splits if_splits)

lemma max_le_split: "max a b \<le> (c :: 'x :: linorder) \<longleftrightarrow> a \<le> c \<and> b \<le> c"
  by simp

lemma age_at_least: "max limit 1 \<le> age_seconds since now past \<longleftrightarrow> max limit 1 \<le> since now past"
  by (auto simp: age_seconds_def)

lemma reported_iff:
  assumes "distinct (map task_key (Snapshot.tasks snap))" and "t \<in> set (Snapshot.tasks snap)" and "r \<noteq> DependencyCycle"
  shows "reported (analyze_with_policy since snap pol) r (task_key t) \<longleftrightarrow> rule_holds since snap pol t r"
proof -
  have "reported (analyze_with_policy since snap pol) r (task_key t) \<longleftrightarrow> r \<in> fst ` set (task_findings (env_of since snap pol) t)"
    using reported_rule_iff [OF assms(1,2), of since pol r] by (simp add: reported_def task_key_def)
  also have "\<dots> \<longleftrightarrow> rule_holds since snap pol t r"
    unfolding findings_rules using assms(3)
    by (cases r) (auto simp: unknown_goal declared_goal_def stale_for_def age_at_least policy_normalized_def is_active_def is_terminal_def
        unresolved_iff [OF assms(1,2)] missing_iff [OF assms(1)] no_evidence_iff confidence_of_def completion_mismatch_iff
        max_le_split [where 'x = u32] simp del: env_of_sel(6) max.bounded_iff)
  finally show ?thesis .
qed

lemma reported_cycle:
  assumes "distinct (map task_key (Snapshot.tasks snap))" and "t \<in> set (Snapshot.tasks snap)"
  shows "reported (analyze_with_policy since snap pol) DependencyCycle (task_key t) \<longleftrightarrow>
    task_key t \<in> dependency_cycle_members (task_table (Snapshot.tasks snap))"
  using reported_rule_iff [OF assms, of since pol DependencyCycle] by (simp add: reported_def task_key_def findings_rules)

text \<open>The neighbours in a deadlocked set that the cycle search flags.\<close>

lemma deadlock_flagged:
  assumes "distinct (map task_key ts)" and "deadlocked ts C"
  shows "\<exists>k \<in> C. \<exists>k' \<in> C. waits_for ts k k' \<and>
    k \<in> dependency_cycle_members (task_table ts) \<and> k' \<in> dependency_cycle_members (task_table ts)"
proof -
  obtain r :: "TaskKey \<Rightarrow> nat" where r: "\<forall>k k'. waits_for ts k k' \<longrightarrow> r k' < r k \<or>
      (k \<in> dependency_cycle_members (task_table ts) \<and> k' \<in> dependency_cycle_members (task_table ts))"
    using cycle_members_ranked [OF task_table_wf, of ts] unfolding dep_edge_waits_abs [OF assms(1)] by metis
  obtain k where k: "k \<in> C" "\<And>j. j \<in> C \<Longrightarrow> r k \<le> r j"
    using assms(2) ex_has_least_nat [of "\<lambda>k. k \<in> C" _ r] unfolding deadlocked_def by blast
  from assms(2) k(1) obtain k' where "k' \<in> C" "waits_for ts k k'" unfolding deadlocked_def by blast
  with r k show ?thesis by (metis linorder_not_less)
qed

text \<open>
  C11: the diagnostics of an analysis follow the rules, stated on the snapshot alone. Of every rule but that of the dependency
  cycles, a diagnostic is reported for a retained task exactly when the rule holds for it. A dependency cycle is reported only
  for tasks that lie on one, and of every dependency cycle at least two neighbours are reported; the search may miss the others.
\<close>

theorem diagnostics_follow_the_rules:
  fixes pol :: AnalysisPolicy and snap :: Snapshot and since :: "DateTime \<Rightarrow> DateTime \<Rightarrow> int"
  assumes "distinct (map task_key (Snapshot.tasks snap))" and "t \<in> set (Snapshot.tasks snap)"
  defines "an \<equiv> analyze_with_policy since snap pol"
  shows "(r \<noteq> DependencyCycle \<longrightarrow> (reported an r (task_key t) \<longleftrightarrow> rule_holds since snap pol t r)) \<and>
    (reported an DependencyCycle (task_key t) \<longrightarrow> rule_holds since snap pol t DependencyCycle) \<and>
    (\<forall>C. deadlocked (Snapshot.tasks snap) C \<longrightarrow>
      (\<exists>k \<in> C. \<exists>k' \<in> C. waits_for (Snapshot.tasks snap) k k' \<and> reported an DependencyCycle k \<and> reported an DependencyCycle k'))"
proof (intro conjI impI allI)
  show "reported an r (task_key t) \<longleftrightarrow> rule_holds since snap pol t r" if "r \<noteq> DependencyCycle"
    unfolding an_def by (rule reported_iff [OF assms(1,2) that])
  show "rule_holds since snap pol t DependencyCycle" if "reported an DependencyCycle (task_key t)"
    using that cycle_member_on_cycle [OF task_table_wf, of "task_key t" "Snapshot.tasks snap"]
    unfolding an_def reported_cycle [OF assms(1,2)] dep_edge_waits_abs [OF assms(1)] by simp
  fix C assume "deadlocked (Snapshot.tasks snap) C"
  from deadlock_flagged [OF assms(1) this] obtain k k' where k: "k \<in> C" "k' \<in> C" "waits_for (Snapshot.tasks snap) k k'"
    "k \<in> dependency_cycle_members (task_table (Snapshot.tasks snap))" "k' \<in> dependency_cycle_members (task_table (Snapshot.tasks snap))"
    by blast
  then obtain t1 t2 where "t1 \<in> set (Snapshot.tasks snap)" "task_key t1 = k" "t2 \<in> set (Snapshot.tasks snap)" "task_key t2 = k'"
    by (auto simp: waits_for_def)
  with k reported_cycle [OF assms(1), of _ since pol]
  show "\<exists>k \<in> C. \<exists>k' \<in> C. waits_for (Snapshot.tasks snap) k k' \<and> reported an DependencyCycle k \<and> reported an DependencyCycle k'"
    unfolding an_def by metis
qed

theorem diagnostics_follow_the_rules_witness:
  "reported (analyze_with_policy (\<lambda>_ _. 0) (demo_store_snapshot demo_cycle) analysis_policy_default) MissingNextAction (''a'', ''1'')"
proof -
  have tasks: "Snapshot.tasks (demo_store_snapshot demo_cycle) = demo_cycle"
    by (simp add: demo_store_snapshot_def Let_def)
  have d: "distinct (map task_key demo_cycle)" and m: "demo_task ''1'' [''2'', ''3''] \<in> set demo_cycle"
    by (simp_all add: demo_cycle_def demo_task_def task_from_spec_def task_key_def)
  from diagnostics_follow_the_rules [of "demo_store_snapshot demo_cycle", unfolded tasks, OF d m, of MissingNextAction "\<lambda>_ _. 0"
      analysis_policy_default]
  show ?thesis by (simp add: demo_task_def task_from_spec_def task_key_def)
qed

lemma count_if_split: "count_if p xs + count_if (\<lambda>x. \<not> p x) xs = length xs"
  by (simp add: count_if_def sum_length_filter_compl)

lemma count_if_mono: "(\<And>x. p x \<Longrightarrow> q x) \<Longrightarrow> count_if p xs \<le> count_if q xs"
  by (induction xs) (auto simp: count_if_def)

lemma severity_counts:
  "count_if (\<lambda>d. severity d = Critical) ds + count_if (\<lambda>d. severity d = Warning) ds + count_if (\<lambda>d. severity d = Info) ds = length ds"
proof (induction ds)
  case (Cons d ds)
  then show ?case by (cases "severity d") (simp_all add: count_if_def)
qed (simp add: count_if_def)

text \<open>
  The reports add up. The diagnostics are ordered by falling severity and are counted once each
  by severity in the summary; in every goal report active and completed tasks make up all tasks, and
  blocked and stalled tasks are active.
\<close>

theorem analysis_reports_add_up:
  "let an = analyze_with_policy since snap pol; s = MetacognitionSnapshot.summary an in
     sorted_wrt (\<lambda>l r. severity_rank (severity r) \<le> severity_rank (severity l)) (diagnostics an) \<and>
     critical_diagnostics s + warning_diagnostics s + info_diagnostics s = length (diagnostics an) \<and>
     MetacognitionSummary.total_tasks s = length (Snapshot.tasks snap) \<and>
     length (MetacognitionSnapshot.tasks an) = length (Snapshot.tasks snap) \<and>
     list_all (\<lambda>g. GoalAnalysis.active_tasks g + GoalAnalysis.completed_tasks g = GoalAnalysis.total_tasks g \<and>
       GoalAnalysis.blocked_tasks g \<le> GoalAnalysis.active_tasks g \<and>
       GoalAnalysis.stalled_tasks g \<le> GoalAnalysis.active_tasks g) (MetacognitionSnapshot.goals an)"
proof -
  have goal: "GoalAnalysis.active_tasks (analyze_goal p ts ds rem g) + GoalAnalysis.completed_tasks (analyze_goal p ts ds rem g) =
      GoalAnalysis.total_tasks (analyze_goal p ts ds rem g) \<and>
      GoalAnalysis.blocked_tasks (analyze_goal p ts ds rem g) \<le> GoalAnalysis.active_tasks (analyze_goal p ts ds rem g) \<and>
      GoalAnalysis.stalled_tasks (analyze_goal p ts ds rem g) \<le> GoalAnalysis.active_tasks (analyze_goal p ts ds rem g)" for p ts ds rem g
    unfolding analyze_goal_def Let_def
    by (simp add: count_if_mono active_xor_terminal count_if_split [where p = "\<lambda>t. is_terminal (TaskAnalysis.status t)", symmetric])
      (auto intro!: count_if_mono simp: active_xor_terminal [symmetric] is_active_def)
  have "sorted_wrt (\<lambda>l r. severity_rank (severity r) \<le> severity_rank (severity l)) (sort_by diagnostic_cmp ds)" for ds
    by (rule sorted_wrt_mono_rel [OF _ diagnostic_order.sorted_sort_by])
      (auto simp: diagnostic_cmp_def then_with_not_greater)
  then show ?thesis
    using goal
    by (simp add: analyze_with_policy_def Let_def prod.case_eq_if summarize_def severity_counts task_order.length_sort_by list_all_iff)
qed

end
