(* ===== verification/Coordination.thy ===== *)
theory Coordination
  imports Analysis
begin

text \<open>
  The coordination planner (\<open>src/coordination.rs\<close>): every analysed task is placed as an
  intervention, a hold or an assignment candidate, the candidates are selected in fair rounds over
  the agents, and the lists are ordered and truncated by the planning policy.
\<close>

section \<open>Types\<close>

definition COORDINATION_MAX_SOURCE_EVENT_IDS :: nat where
  "COORDINATION_MAX_SOURCE_EVENT_IDS = 16"

record PlanningPolicy =
  max_assignments :: nat
  max_assignments_per_agent :: nat
  max_interventions :: nat
  max_holds :: nat

definition planning_policy_default :: PlanningPolicy where
  "planning_policy_default =
     \<lparr>max_assignments = 16, max_assignments_per_agent = 2, max_interventions = 32, max_holds = 64\<rparr>"

datatype PlanningError = InvalidPolicy string

definition validate_planning_policy :: "PlanningPolicy \<Rightarrow> PlanningError check" where
  "validate_planning_policy p = run_checks (
     map (\<lambda>(name, value). guard_err (value = 0) (InvalidPolicy name))
       [(''maximum assignments'', max_assignments p),
        (''maximum assignments per agent'', max_assignments_per_agent p),
        (''maximum interventions'', max_interventions p),
        (''maximum holds'', max_holds p)])"

datatype AssignmentAction =
    StartTask | ContinueTask | ResolveBlocker | RequestCheckpoint | ChangeStrategy | GatherEvidence | DefineNextAction

fun action_as_str :: "AssignmentAction \<Rightarrow> string" where
  "action_as_str StartTask = ''start_task''"
| "action_as_str ContinueTask = ''continue_task''"
| "action_as_str ResolveBlocker = ''resolve_blocker''"
| "action_as_str RequestCheckpoint = ''request_checkpoint''"
| "action_as_str ChangeStrategy = ''change_strategy''"
| "action_as_str GatherEvidence = ''gather_evidence''"
| "action_as_str DefineNextAction = ''define_next_action''"

fun action_base_priority :: "AssignmentAction \<Rightarrow> u32" where
  "action_base_priority ChangeStrategy = 900"
| "action_base_priority RequestCheckpoint = 850"
| "action_base_priority ResolveBlocker = 800"
| "action_base_priority GatherEvidence = 700"
| "action_base_priority DefineNextAction = 650"
| "action_base_priority StartTask = 600"
| "action_base_priority ContinueTask = 500"

datatype InterventionKind = RepairDependencyGraph | DeclareMissingGoal | ReconcileCompletion

fun intervention_as_str :: "InterventionKind \<Rightarrow> string" where
  "intervention_as_str RepairDependencyGraph = ''repair_dependency_graph''"
| "intervention_as_str DeclareMissingGoal = ''declare_missing_goal''"
| "intervention_as_str ReconcileCompletion = ''reconcile_completion''"

fun intervention_base_priority :: "InterventionKind \<Rightarrow> u32" where
  "intervention_base_priority ReconcileCompletion = 1200"
| "intervention_base_priority RepairDependencyGraph = 1100"
| "intervention_base_priority DeclareMissingGoal = 1000"

datatype HoldReason = AgentOffline | WaitingOnDependencies | Terminal | AssignmentLimit

record Assignment =
  assignment_id :: string
  agent_id :: string
  task_id :: string
  goal_id :: "string option"
  action :: AssignmentAction
  priority :: u32
  rationale :: string
  recommended_action :: string
  on_critical_path :: bool
  diagnostic_ids :: "string list"
  source_event_ids :: "Uuid list"
  source_events_retained :: bool

record Intervention =
  intervention_id :: string
  agent_id :: string
  task_id :: string
  goal_id :: "string option"
  kind :: InterventionKind
  priority :: u32
  rationale :: string
  recommended_action :: string
  diagnostic_ids :: "string list"
  source_event_ids :: "Uuid list"
  source_events_retained :: bool

record HeldTask =
  agent_id :: string
  task_id :: string
  goal_id :: "string option"
  reason :: HoldReason
  explanation :: string
  unresolved_dependencies :: "string list"
  diagnostic_ids :: "string list"
  source_event_ids :: "Uuid list"
  source_events_retained :: bool

record CoordinationSummary =
  total_tasks :: nat
  assignment_candidates :: nat
  assignments :: nat
  agents_with_assignments :: nat
  interventions :: nat
  held_tasks :: nat
  suppressed_by_assignment_limits :: nat
  omitted_interventions :: nat
  omitted_holds :: nat

record CoordinationPlan =
  generated_at :: DateTime
  revision :: u64
  planning_policy :: PlanningPolicy
  analysis_policy :: AnalysisPolicy
  summary :: CoordinationSummary
  assignments :: "Assignment list"
  interventions :: "Intervention list"
  held_tasks :: "HeldTask list"

section \<open>Reading the diagnostics of a task\<close>

definition file_diagnostic :: "Diagnostic \<Rightarrow> (TaskKey, Diagnostic list) BTreeMap \<Rightarrow> (TaskKey, Diagnostic list) BTreeMap" where
  "file_diagnostic d m =
     (case Diagnostic.task_id d of
        None \<Rightarrow> m
      | Some tid \<Rightarrow> bt_update (Diagnostic.agent_id d, tid) [] (\<lambda>ds. ds @ [d]) m)"

definition diagnostics_by_task :: "Diagnostic list \<Rightarrow> (TaskKey, Diagnostic list) BTreeMap" where
  "diagnostics_by_task ds =
     map (\<lambda>(k, vs). (k, sort_by (\<lambda>l r. cmp (Diagnostic.diagnostic_id l) (Diagnostic.diagnostic_id r)) vs))
       (fold file_diagnostic ds [])"

definition has_rule :: "Diagnostic list \<Rightarrow> DiagnosticRule \<Rightarrow> bool" where
  "has_rule ds r = list_ex (\<lambda>d. rule d = r) ds"

fun severity_bonus :: "DiagnosticSeverity \<Rightarrow> u32" where
  "severity_bonus Critical = 80"
| "severity_bonus Warning = 40"
| "severity_bonus Info = 10"

definition max_severity_bonus :: "Diagnostic list \<Rightarrow> u32" where
  "max_severity_bonus ds = fold (\<lambda>d m. max m (severity_bonus (severity d))) ds 0"

definition ids_of_diagnostics :: "Diagnostic list \<Rightarrow> string list" where
  "ids_of_diagnostics ds = map Diagnostic.diagnostic_id ds"

definition plan_source_event_ids :: "TaskAnalysis \<Rightarrow> Diagnostic list \<Rightarrow> Uuid list" where
  "plan_source_event_ids t ds =
     take COORDINATION_MAX_SOURCE_EVENT_IDS
       (remdups_adj (sort_by cmp (TaskAnalysis.source_event_ids t @ concat (map Diagnostic.source_event_ids ds))))"

definition diagnostic_rationale :: "Diagnostic list \<Rightarrow> string" where
  "diagnostic_rationale ds =
     (if ds = [] then ''No retained diagnostic was attached.''
      else str_join '' '' (map Diagnostic.summary (take 3 ds)))"

fun first_recommended_action :: "Diagnostic list \<Rightarrow> string option" where
  "first_recommended_action [] = None"
| "first_recommended_action (d # ds) =
     (case Diagnostic.recommended_action d of Some a \<Rightarrow> Some a | None \<Rightarrow> first_recommended_action ds)"

fun default_action :: "AssignmentAction \<Rightarrow> string" where
  "default_action StartTask = ''Start the task and publish an observable plan summary.''"
| "default_action ContinueTask = ''Execute the next observable step and publish progress with evidence.''"
| "default_action ResolveBlocker = ''Test the blocker, record the result, and either clear it or revise the plan.''"
| "default_action RequestCheckpoint =
     ''Publish a checkpoint with current state, blocker, evidence, and one next action.''"
| "default_action ChangeStrategy = ''Change a causal variable before another attempt and record the comparison.''"
| "default_action GatherEvidence = ''Attach a test, artifact, measurement, or independent evidence reference.''"
| "default_action DefineNextAction = ''Record one concrete, observable, and testable next action.''"

fun default_intervention :: "InterventionKind \<Rightarrow> string" where
  "default_intervention RepairDependencyGraph = ''Repair the dependency graph before dispatching this task.''"
| "default_intervention DeclareMissingGoal = ''Declare the referenced goal or explicitly reassign the task.''"
| "default_intervention ReconcileCompletion =
     ''Replay the visible lifecycle events and publish one consistent terminal state.''"

section \<open>Placing a task\<close>

definition intervention_kind :: "Diagnostic list \<Rightarrow> InterventionKind option" where
  "intervention_kind ds =
     (if has_rule ds CompletionMismatch then Some ReconcileCompletion
      else if has_rule ds DependencyCycle \<or> has_rule ds OrphanDependency then Some RepairDependencyGraph
      else if has_rule ds OrphanGoal then Some DeclareMissingGoal
      else None)"

definition intervention_for :: "TaskAnalysis \<Rightarrow> Diagnostic list \<Rightarrow> Intervention option" where
  "intervention_for t ds =
     (case intervention_kind ds of
        None \<Rightarrow> None
      | Some k \<Rightarrow> Some
          \<lparr>intervention_id = intervention_as_str k @ '':'' @ TaskAnalysis.agent_id t @ '':'' @ TaskAnalysis.task_id t,
           agent_id = TaskAnalysis.agent_id t, task_id = TaskAnalysis.task_id t, goal_id = TaskAnalysis.goal_id t,
           kind = k,
           priority = sat_add (sat_add (intervention_base_priority k) (if TaskAnalysis.on_critical_path t then 100 else 0))
             (max_severity_bonus ds),
           rationale = diagnostic_rationale ds,
           recommended_action = (case first_recommended_action ds of Some a \<Rightarrow> a | None \<Rightarrow> default_intervention k),
           diagnostic_ids = ids_of_diagnostics ds, source_event_ids = plan_source_event_ids t ds,
           source_events_retained = TaskAnalysis.source_events_retained t\<rparr>)"

definition assignment_action :: "TaskAnalysis \<Rightarrow> Diagnostic list \<Rightarrow> AssignmentAction option" where
  "assignment_action t ds =
     (if has_rule ds RetryLoop then Some ChangeStrategy
      else if has_rule ds StalledTask then Some RequestCheckpoint
      else if TaskAnalysis.status t = TaskStatus.Blocked then Some ResolveBlocker
      else if has_rule ds LowConfidence \<or> has_rule ds MissingEvidence then Some GatherEvidence
      else if has_rule ds MissingNextAction then Some DefineNextAction
      else (case TaskAnalysis.status t of
          TaskStatus.Pending \<Rightarrow> Some StartTask
        | TaskStatus.Running \<Rightarrow> Some ContinueTask
        | TaskStatus.Blocked \<Rightarrow> Some ResolveBlocker
        | _ \<Rightarrow> None))"

text \<open>The cast \<open>as u32\<close> keeps the low 32 bits of the number of seconds.\<close>

definition staleness_bonus :: "int \<Rightarrow> u32" where
  "staleness_bonus seconds = min (word_of_int (max seconds 0) div 60) 100"

definition assignment_priority :: "TaskAnalysis \<Rightarrow> Diagnostic list \<Rightarrow> AssignmentAction \<Rightarrow> u32" where
  "assignment_priority t ds a =
     sat_add (sat_add (sat_add (sat_add (action_base_priority a) (if TaskAnalysis.on_critical_path t then 100 else 0))
       (max_severity_bonus ds)) (sat_mul (min (TaskAnalysis.attempt t) 10) 5))
       (staleness_bonus (stale_for_seconds t))"

definition make_assignment :: "TaskAnalysis \<Rightarrow> TaskState option \<Rightarrow> Diagnostic list \<Rightarrow> AssignmentAction \<Rightarrow> Assignment" where
  "make_assignment t st ds a =
     \<lparr>assignment_id = action_as_str a @ '':'' @ TaskAnalysis.agent_id t @ '':'' @ TaskAnalysis.task_id t,
      agent_id = TaskAnalysis.agent_id t, task_id = TaskAnalysis.task_id t, goal_id = TaskAnalysis.goal_id t,
      action = a, priority = assignment_priority t ds a,
      rationale =
        (if ds = [] then
           (case a of
              StartTask \<Rightarrow> ''The task is pending and all retained dependencies are complete.''
            | ContinueTask \<Rightarrow>
                ''The task is active, dependency-safe, and has no higher-severity retained diagnostic.''
            | _ \<Rightarrow> ''The retained task state requires an explicit next step.'')
         else diagnostic_rationale ds),
      recommended_action =
        (case (case st of None \<Rightarrow> None | Some s \<Rightarrow> TaskState.next_action s) of
           Some n \<Rightarrow> n
         | None \<Rightarrow> (case first_recommended_action ds of Some n \<Rightarrow> n | None \<Rightarrow> default_action a)),
      on_critical_path = TaskAnalysis.on_critical_path t, diagnostic_ids = ids_of_diagnostics ds,
      source_event_ids = plan_source_event_ids t ds,
      source_events_retained = TaskAnalysis.source_events_retained t\<rparr>"

definition make_hold :: "TaskAnalysis \<Rightarrow> HoldReason \<Rightarrow> string \<Rightarrow> Diagnostic list \<Rightarrow> HeldTask" where
  "make_hold t r x ds =
     \<lparr>HeldTask.agent_id = TaskAnalysis.agent_id t, task_id = TaskAnalysis.task_id t, goal_id = TaskAnalysis.goal_id t,
      reason = r, explanation = x,
      unresolved_dependencies = TaskAnalysis.unresolved_dependencies t @ TaskAnalysis.missing_dependencies t,
      diagnostic_ids = ids_of_diagnostics ds, source_event_ids = plan_source_event_ids t ds,
      source_events_retained = TaskAnalysis.source_events_retained t\<rparr>"

text \<open>One iteration of the loop over the tasks: the list that the task is pushed to, with the element.\<close>

datatype placement = Intervene Intervention | Hold HeldTask | Candidate Assignment

definition place_task ::
  "TaskLookup \<Rightarrow> (string, AgentStatus) BTreeMap \<Rightarrow> (TaskKey, Diagnostic list) BTreeMap \<Rightarrow> TaskAnalysis \<Rightarrow> placement" where
  "place_task lookup statuses by_task t =
     (let key = (TaskAnalysis.agent_id t, TaskAnalysis.task_id t);
          ds = (case bt_get by_task key of None \<Rightarrow> [] | Some vs \<Rightarrow> vs)
      in case intervention_for t ds of
           Some i \<Rightarrow> Intervene i
         | None \<Rightarrow>
           if bt_get statuses (TaskAnalysis.agent_id t) = Some AgentStatus.Offline then
             Hold (make_hold t AgentOffline
               ''The owning agent is currently offline, so no executable assignment is emitted.'' ds)
           else if TaskAnalysis.missing_dependencies t \<noteq> [] \<or> TaskAnalysis.unresolved_dependencies t \<noteq> [] then
             Hold (make_hold t WaitingOnDependencies
               (''The task is waiting on unresolved dependencies: '' @
                str_join '', '' (TaskAnalysis.unresolved_dependencies t @ TaskAnalysis.missing_dependencies t) @ ''.'') ds)
           else
             (case assignment_action t ds of
                Some a \<Rightarrow> Candidate (make_assignment t (bt_get lookup key) ds a)
              | None \<Rightarrow> Hold (make_hold t Terminal
                  ''The task is terminal and has no retained diagnostic requiring follow-up.'' ds)))"

section \<open>Orders\<close>

definition assignment_order :: "Assignment \<Rightarrow> Assignment \<Rightarrow> ordering" where
  "assignment_order l r =
     then_with (cmp (Assignment.priority r) (Assignment.priority l))
       (then_with (cmp (Assignment.agent_id l) (Assignment.agent_id r))
         (then_with (cmp (Assignment.task_id l) (Assignment.task_id r))
           (cmp (assignment_id l) (assignment_id r))))"

definition intervention_order :: "Intervention \<Rightarrow> Intervention \<Rightarrow> ordering" where
  "intervention_order l r =
     then_with (cmp (Intervention.priority r) (Intervention.priority l))
       (then_with (cmp (Intervention.agent_id l) (Intervention.agent_id r))
         (then_with (cmp (Intervention.task_id l) (Intervention.task_id r))
           (cmp (intervention_id l) (intervention_id r))))"

fun hold_rank :: "HoldReason \<Rightarrow> nat" where
  "hold_rank AgentOffline = 1"
| "hold_rank WaitingOnDependencies = 2"
| "hold_rank AssignmentLimit = 3"
| "hold_rank Terminal = 4"

definition hold_order :: "HeldTask \<Rightarrow> HeldTask \<Rightarrow> ordering" where
  "hold_order l r =
     then_with (cmp (HeldTask.agent_id l) (HeldTask.agent_id r))
       (then_with (cmp (HeldTask.task_id l) (HeldTask.task_id r))
         (cmp (hold_rank (reason l)) (hold_rank (reason r))))"

section \<open>Fair selection\<close>

type_synonym queues = "(string, Assignment list) BTreeMap"
type_synonym selection = "Assignment list \<times> (string \<Rightarrow> nat) \<times> queues"

definition group_by_agent :: "Assignment list \<Rightarrow> queues" where
  "group_by_agent cs = fold (\<lambda>c m. bt_update (Assignment.agent_id c) [] (\<lambda>q. q @ [c]) m) cs []"

definition front_priority :: "queues \<Rightarrow> string \<Rightarrow> u32" where
  "front_priority m a = (case bt_get m a of Some (c # _) \<Rightarrow> Assignment.priority c | _ \<Rightarrow> 0)"

definition agent_cmp :: "queues \<Rightarrow> string \<Rightarrow> string \<Rightarrow> ordering" where
  "agent_cmp m l r = then_with (cmp (front_priority m r) (front_priority m l)) (cmp l r)"

text \<open>One agent in a round; the flag tells whether a candidate was taken.\<close>

definition take_turn :: "nat \<Rightarrow> nat \<Rightarrow> string \<Rightarrow> selection \<times> bool \<Rightarrow> selection \<times> bool" where
  "take_turn maximum per_agent a st =
     (case st of ((selected, counts, queues), took) \<Rightarrow>
        if maximum \<le> length selected \<or> per_agent \<le> counts a then st
        else (case bt_get queues a of
                Some (c # q) \<Rightarrow> ((selected @ [c], counts(a := counts a + 1), bt_insert a q queues), True)
              | _ \<Rightarrow> st))"

definition select_round :: "nat \<Rightarrow> nat \<Rightarrow> string list \<Rightarrow> selection \<Rightarrow> selection \<times> bool" where
  "select_round maximum per_agent order st = fold (take_turn maximum per_agent) order (st, False)"

definition queued :: "queues \<Rightarrow> nat" where
  "queued m = (\<Sum>a \<in> set (bt_keys m). length (the (bt_get m a)))"

lemma queued_pop:
  assumes "bt_get m a = Some (c # q)" shows "queued (bt_insert a q m) < queued m"
proof -
  have mem: "a \<in> set (bt_keys m)"
    using assms by (auto simp: bt_get_def bt_keys_def dest: map_of_SomeD intro: rev_image_eqI)
  then have keys: "set (bt_keys (bt_insert a q m)) = set (bt_keys m)"
    using bt_insert_keys [of a q m] by (auto simp: bt_keys_def)
  show ?thesis
    unfolding queued_def keys by (rule sum_strict_mono_ex1) (use mem assms in \<open>auto simp: bt_get_insert\<close>)
qed

lemma take_turn_queued:
  "queued (snd (snd (fst (take_turn n k a st)))) \<le> queued (snd (snd (fst st))) \<and>
   (snd (take_turn n k a st) \<longrightarrow> snd st \<or> queued (snd (snd (fst (take_turn n k a st)))) < queued (snd (snd (fst st))))"
  by (auto simp: take_turn_def queued_pop less_imp_le split: prod.splits option.splits list.splits)

lemma select_round_queued:
  "queued (snd (snd (fst (fold (take_turn n k) order st)))) \<le> queued (snd (snd (fst st))) \<and>
   (snd (fold (take_turn n k) order st) \<longrightarrow> snd st \<or>
      queued (snd (snd (fst (fold (take_turn n k) order st)))) < queued (snd (snd (fst st))))"
proof (induction order arbitrary: st)
  case Nil
  then show ?case by simp
next
  case (Cons a order)
  from Cons.IH [of "take_turn n k a st"] take_turn_queued [of n k a st] show ?case by auto
qed

function select_rounds :: "nat \<Rightarrow> nat \<Rightarrow> string list \<Rightarrow> selection \<Rightarrow> selection" where
  "select_rounds maximum per_agent order st =
     (let (st', took) = select_round maximum per_agent order st
      in if maximum \<le> length (fst st') \<or> \<not> took then st' else select_rounds maximum per_agent order st')"
  by pat_completeness auto
termination
proof (relation "measure (\<lambda>(n, k, order, st). queued (snd (snd st)))")
  fix n k order st x st' took
  assume "x = select_round n k order st" "(st', took) = x" "\<not> (n \<le> length (fst st') \<or> \<not> took)"
  then have "select_round n k order st = (st', True)" by auto
  with select_round_queued [of n k order "(st, False)"]
  show "((n, k, order, st'), n, k, order, st) \<in> measure (\<lambda>(n, k, order, st). queued (snd (snd st)))"
    by (auto simp: select_round_def)
qed simp

declare select_rounds.simps [simp del]

definition select_assignments :: "Assignment list \<Rightarrow> nat \<Rightarrow> nat \<Rightarrow> Assignment list \<times> Assignment list" where
  "select_assignments candidates maximum per_agent =
     (let grouped = group_by_agent candidates;
          order = sort_by (agent_cmp grouped) (bt_keys grouped);
          (selected, counts, queues) = select_rounds maximum per_agent order ([], (\<lambda>_. 0), grouped)
      in (selected, sort_by assignment_order (concat (bt_values queues))))"

section \<open>The plan\<close>

definition suppressed_hold :: "Assignment \<Rightarrow> HeldTask" where
  "suppressed_hold a =
     \<lparr>HeldTask.agent_id = Assignment.agent_id a, task_id = Assignment.task_id a, goal_id = Assignment.goal_id a,
      reason = AssignmentLimit,
      explanation = ''A higher-priority fair-share assignment consumed the configured planning capacity.'',
      unresolved_dependencies = [], diagnostic_ids = Assignment.diagnostic_ids a,
      source_event_ids = Assignment.source_event_ids a, source_events_retained = Assignment.source_events_retained a\<rparr>"

definition placed_interventions :: "placement list \<Rightarrow> Intervention list" where
  "placed_interventions ps = concat (map (\<lambda>p. case p of Intervene i \<Rightarrow> [i] | _ \<Rightarrow> []) ps)"

definition placed_holds :: "placement list \<Rightarrow> HeldTask list" where
  "placed_holds ps = concat (map (\<lambda>p. case p of Hold h \<Rightarrow> [h] | _ \<Rightarrow> []) ps)"

definition placed_candidates :: "placement list \<Rightarrow> Assignment list" where
  "placed_candidates ps = concat (map (\<lambda>p. case p of Candidate c \<Rightarrow> [c] | _ \<Rightarrow> []) ps)"

definition analysis_cmp :: "TaskAnalysis \<Rightarrow> TaskAnalysis \<Rightarrow> ordering" where
  "analysis_cmp l r = cmp (TaskAnalysis.agent_id l, TaskAnalysis.task_id l) (TaskAnalysis.agent_id r, TaskAnalysis.task_id r)"

definition plan_placements :: "Snapshot \<Rightarrow> MetacognitionSnapshot \<Rightarrow> placement list" where
  "plan_placements snap an =
     (let lookup = task_table (Snapshot.tasks snap);
          statuses = bt_collect (map (\<lambda>a. (AgentRef.agent_id (AgentState.agent a), AgentState.status a)) (Snapshot.agents snap)) [];
          by_task = diagnostics_by_task (diagnostics an)
      in map (place_task lookup statuses by_task) (sort_by analysis_cmp (MetacognitionSnapshot.tasks an)))"

definition plan_from_analysis :: "Snapshot \<Rightarrow> MetacognitionSnapshot \<Rightarrow> PlanningPolicy \<Rightarrow> CoordinationPlan" where
  "plan_from_analysis snap an pol =
     (let ps = plan_placements snap an;
          candidates = sort_by assignment_order (placed_candidates ps);
          all_interventions = sort_by intervention_order (placed_interventions ps);
          held = sort_by hold_order (placed_holds ps);
          (selected, suppressed) = select_assignments candidates (max_assignments pol) (max_assignments_per_agent pol);
          all_held = sort_by hold_order (held @ map suppressed_hold suppressed);
          kept_interventions = take (max_interventions pol) all_interventions;
          kept_held = take (max_holds pol) all_held
      in \<lparr>CoordinationPlan.generated_at = MetacognitionSnapshot.generated_at an,
          revision = MetacognitionSnapshot.revision an, planning_policy = pol,
          analysis_policy = MetacognitionSnapshot.policy an,
          summary = \<lparr>CoordinationSummary.total_tasks = length (MetacognitionSnapshot.tasks an),
            assignment_candidates = length candidates, assignments = length selected,
            agents_with_assignments = card (set (map Assignment.agent_id selected)),
            interventions = length kept_interventions, held_tasks = length kept_held,
            suppressed_by_assignment_limits = length suppressed,
            omitted_interventions = length all_interventions - max_interventions pol,
            omitted_holds = length all_held - max_holds pol\<rparr>,
          assignments = selected, interventions = kept_interventions, held_tasks = kept_held\<rparr>)"

definition build_plan_with_policy ::
  "(DateTime \<Rightarrow> DateTime \<Rightarrow> int) \<Rightarrow> Snapshot \<Rightarrow> AnalysisPolicy \<Rightarrow> PlanningPolicy \<Rightarrow> PlanningError + CoordinationPlan" where
  "build_plan_with_policy since snap apol ppol =
     (case validate_planning_policy ppol of
        Inl err \<Rightarrow> Inl err
      | Inr _ \<Rightarrow> Inr (plan_from_analysis snap (analyze_with_policy since snap apol) ppol))"

definition build_plan :: "(DateTime \<Rightarrow> DateTime \<Rightarrow> int) \<Rightarrow> Snapshot \<Rightarrow> PlanningError + CoordinationPlan" where
  "build_plan since snap = build_plan_with_policy since snap analysis_policy_default planning_policy_default"

end
