(* ===== verification/Selection.thy ===== *)
theory Selection
  imports Coordination
begin

text \<open>
  The fair selection of assignments (\<open>select_assignments\<close> in \<open>src/coordination.rs\<close>): the loop of
  rounds over the agents computes a prefix of the round-robin listing of the queues, and what it
  leaves in the queues is exactly the rest of the candidates.
\<close>

section \<open>Queues\<close>

text \<open>The candidates of one agent, and how many of them the limit per agent admits.\<close>

definition queue_of :: "Assignment list \<Rightarrow> string \<Rightarrow> Assignment list" where
  "queue_of cs a = filter (\<lambda>c. Assignment.agent_id c = a) cs"

definition admitted :: "Assignment list \<Rightarrow> nat \<Rightarrow> string \<Rightarrow> nat" where
  "admitted cs k a = min k (length (queue_of cs a))"

definition agent_order :: "Assignment list \<Rightarrow> string list" where
  "agent_order cs = sort_by (agent_cmp (group_by_agent cs)) (bt_keys (group_by_agent cs))"

lemma total_cmp_agents: "total_cmp (agent_cmp m)"
  unfolding agent_cmp_def [abs_def] by (rule total_cmp_intros)+

lemma group_by_agent_get:
  "bt_wf (group_by_agent cs) \<and>
   bt_get (group_by_agent cs) a = (if queue_of cs a = [] then None else Some (queue_of cs a))"
  using bt_group_empty [where h = "\<lambda>c m. bt_update (Assignment.agent_id c) [] (\<lambda>q. q @ [c]) m"
      and f = "\<lambda>c. Some (Assignment.agent_id c)" and g = "\<lambda>c. c" and xs = cs and k = a]
  by (simp add: group_by_agent_def queue_of_def)

lemma agent_order_set: "distinct (agent_order cs) \<and> set (agent_order cs) = {a. queue_of cs a \<noteq> []}"
proof -
  have wf: "bt_wf (group_by_agent cs)" using group_by_agent_get by blast
  have "set (bt_keys (group_by_agent cs)) = {a. queue_of cs a \<noteq> []}"
    using group_by_agent_get [of cs] by (auto simp: bt.keys_get [OF wf])
  moreover have "mset (agent_order cs) = mset (bt_keys (group_by_agent cs))"
    unfolding agent_order_def by (rule total_cmp.mset_sort_by [OF total_cmp_agents])
  ultimately show ?thesis
    using bt.distinct_keys [OF wf] mset_eq_imp_distinct_iff mset_eq_setD by metis
qed

section \<open>The state of the loop\<close>

text \<open>
  What every step keeps: each queue has lost the prefix that the agent has taken, and the taken
  candidates of an agent stand in the selection in their order.
\<close>

definition selection_inv :: "Assignment list \<Rightarrow> nat \<Rightarrow> nat \<Rightarrow> selection \<Rightarrow> bool" where
  "selection_inv cs n k st \<longleftrightarrow>
     (case st of (selected, counts, queues) \<Rightarrow>
        bt_wf queues \<and> length selected \<le> n \<and>
        (\<forall>a. bt_get queues a = (if queue_of cs a = [] then None else Some (drop (counts a) (queue_of cs a)))) \<and>
        (\<forall>a. counts a \<le> admitted cs k a \<and> queue_of selected a = take (counts a) (queue_of cs a)) \<and>
        mset selected + mset (concat (bt_values queues)) = mset cs)"

lemma mset_bt_values_insert:
  "bt_wf m \<Longrightarrow> mset (concat (bt_values (bt_insert a w m))) + mset (case bt_get m a of None \<Rightarrow> [] | Some v \<Rightarrow> v) =
     mset (concat (bt_values m)) + mset w"
proof (induction m)
  case Nil
  then show ?case by (simp add: bt_values_def bt_get_def)
next
  case (Cons e m)
  obtain j v where e: "e = (j, v)" by fastforce
  from Cons.prems have wf: "bt_wf m" and "\<forall>x \<in> set m. j < fst x" by (auto simp: bt_wf_def e)
  show ?case
  proof (cases a j rule: linorder_cases)
    case less
    moreover from less have "map_of m a = None" using \<open>\<forall>x \<in> set m. j < fst x\<close> by (force simp: map_of_eq_None_iff)
    ultimately show ?thesis by (auto simp: e bt_values_def bt_get_def cmp_def)
  next
    case equal
    then show ?thesis by (simp add: e bt_values_def bt_get_def cmp_def ac_simps)
  next
    case greater
    with Cons.IH [OF wf] show ?thesis by (auto simp: e bt_values_def bt_get_def cmp_def ac_simps)
  qed
qed

lemma selection_start: "selection_inv cs n k ([], \<lambda>_. 0, group_by_agent cs)"
proof -
  have "mset (concat (bt_values (fold (\<lambda>c m. bt_update (Assignment.agent_id c) [] (\<lambda>q. q @ [c]) m) xs m))) =
      mset xs + mset (concat (bt_values m))" if "bt_wf m" for xs m
    using that
  proof (induction xs arbitrary: m)
    case (Cons x xs)
    let ?a = "Assignment.agent_id x"
    have "mset (concat (bt_values (bt_update ?a [] (\<lambda>q. q @ [x]) m))) = add_mset x (mset (concat (bt_values m)))"
      using mset_bt_values_insert [OF Cons.prems, of ?a "(case bt_get m ?a of None \<Rightarrow> [] | Some q \<Rightarrow> q) @ [x]"]
      by (simp add: bt_update_def split: option.splits)
    with Cons.IH [OF bt_wf_update [OF Cons.prems]] show ?case by simp
  qed simp
  from this [of "[]" cs] show ?thesis
    using group_by_agent_get [of cs]
    by (simp add: selection_inv_def queue_of_def group_by_agent_def bt.wf_empty bt_values_def)
qed

text \<open>A turn does nothing, or moves the next candidate of the agent to the selection.\<close>

lemma take_turn_cases:
  assumes "selection_inv cs n k (sel, counts, qs)"
  shows "take_turn n k a ((sel, counts, qs), took) =
    (if length sel < n \<and> counts a < admitted cs k a
     then ((sel @ [queue_of cs a ! counts a], counts(a := counts a + 1), bt_insert a (drop (Suc (counts a)) (queue_of cs a)) qs), True)
     else ((sel, counts, qs), took))"
proof -
  have get: "bt_get qs a = (if queue_of cs a = [] then None else Some (drop (counts a) (queue_of cs a)))"
    and le: "counts a \<le> admitted cs k a"
    using assms by (auto simp: selection_inv_def)
  show ?thesis
  proof (cases "counts a < length (queue_of cs a)")
    case True
    then have "drop (counts a) (queue_of cs a) = queue_of cs a ! counts a # drop (Suc (counts a)) (queue_of cs a)"
      by (simp add: Cons_nth_drop_Suc)
    with True get show ?thesis by (auto simp: take_turn_def admitted_def)
  next
    case False
    with get show ?thesis by (auto simp: take_turn_def admitted_def)
  qed
qed

lemma take_turn_inv:
  assumes "selection_inv cs n k st"
  shows "selection_inv cs n k (fst (take_turn n k a (st, took)))"
proof -
  obtain sel counts qs where st: "st = (sel, counts, qs)" by (cases st)
  let ?q = "queue_of cs a"
  show ?thesis
  proof (cases "length sel < n \<and> counts a < admitted cs k a")
    case True
    then have lt: "counts a < length ?q" by (simp add: admitted_def)
    have agent: "Assignment.agent_id (?q ! counts a) = a"
      using nth_mem [OF lt] by (simp add: queue_of_def)
    have get: "bt_get qs a = Some (?q ! counts a # drop (Suc (counts a)) ?q)" and wf: "bt_wf qs"
      using assms lt by (auto simp: selection_inv_def st Cons_nth_drop_Suc)
    have "queue_of (sel @ [?q ! counts a]) b = take ((counts(a := counts a + 1)) b) (queue_of cs b)" for b
      using assms lt agent by (auto simp: selection_inv_def st queue_of_def take_Suc_conv_app_nth)
    moreover have "mset (sel @ [?q ! counts a]) + mset (concat (bt_values (bt_insert a (drop (Suc (counts a)) ?q) qs))) = mset cs"
    proof -
      have "mset (concat (bt_values qs)) =
          add_mset (?q ! counts a) (mset (concat (bt_values (bt_insert a (drop (Suc (counts a)) ?q) qs))))"
        using mset_bt_values_insert [OF wf, of a "drop (Suc (counts a)) ?q"] get by simp
      moreover have "mset cs = mset sel + mset (concat (bt_values qs))" using assms by (simp add: selection_inv_def st)
      ultimately show ?thesis by simp
    qed
    ultimately show ?thesis
      using assms True lt take_turn_cases [OF assms [unfolded st], of a took]
      by (auto simp: st selection_inv_def bt_wf_insert bt_get_insert)
  next
    case False
    with assms take_turn_cases [OF assms [unfolded st], of a took] show ?thesis by (simp add: st)
  qed
qed

lemma fold_turns_inv:
  "selection_inv cs n k (fst st) \<Longrightarrow> selection_inv cs n k (fst (fold (take_turn n k) order st))"
proof (induction order arbitrary: st)
  case (Cons a order)
  from Cons.IH [of "take_turn n k a st"] take_turn_inv [OF Cons.prems, of a "snd st"] show ?case by simp
qed simp

lemma select_rounds_inv: "selection_inv cs n k st \<Longrightarrow> selection_inv cs n k (select_rounds n k order st)"
proof (induction n k order st rule: select_rounds.induct)
  case (1 n k order st)
  obtain st' took where r: "select_round n k order st = (st', took)" by fastforce
  with fold_turns_inv [of cs n k "(st, False)" order] 1(2) have "selection_inv cs n k st'"
    by (simp add: select_round_def)
  with 1(1) [OF r [symmetric] refl] show ?case by (subst select_rounds.simps) (simp add: r)
qed

section \<open>Rounds\<close>

text \<open>The candidates that round \<open>r\<close> takes from the agents, in their order.\<close>

definition round_takes :: "Assignment list \<Rightarrow> nat \<Rightarrow> string list \<Rightarrow> nat \<Rightarrow> Assignment list" where
  "round_takes cs k order r =
     concat (map (\<lambda>a. if r < admitted cs k a then [queue_of cs a ! r] else []) order)"

lemma fold_turns:
  assumes "selection_inv cs n k (sel, counts, qs)" and "distinct order"
    and "\<forall>a \<in> set order. counts a = min r (admitted cs k a)"
  shows "\<exists>counts' qs'. fold (take_turn n k) order ((sel, counts, qs), took) =
      ((take n (sel @ round_takes cs k order r), counts', qs'), took \<or> length sel < n \<and> round_takes cs k order r \<noteq> []) \<and>
    (\<forall>a. counts a \<le> counts' a \<and> (counts' a \<noteq> counts a \<longrightarrow> a \<in> set order \<and> counts' a = Suc (counts a))) \<and>
    (length (sel @ round_takes cs k order r) \<le> n \<longrightarrow> (\<forall>a \<in> set order. counts' a = min (Suc r) (admitted cs k a)))"
  using assms
proof (induction order arbitrary: sel counts qs took)
  case Nil
  then have "length sel \<le> n" by (simp add: selection_inv_def)
  then show ?case by (simp add: round_takes_def)
next
  case (Cons a order)
  have len: "length sel \<le> n" using Cons.prems(1) by (simp add: selection_inv_def)
  have count: "counts a = min r (admitted cs k a)" using Cons.prems(3) by simp
  show ?case
  proof (cases "length sel < n \<and> r < admitted cs k a")
    case True
    let ?sel = "sel @ [queue_of cs a ! r]" and ?counts = "counts(a := Suc (counts a))"
      and ?qs = "bt_insert a (drop (Suc r) (queue_of cs a)) qs"
    have turn: "take_turn n k a ((sel, counts, qs), took) = ((?sel, ?counts, ?qs), True)"
      using take_turn_cases [OF Cons.prems(1), of a took] True count by simp
    have inv: "selection_inv cs n k (?sel, ?counts, ?qs)"
      using take_turn_inv [OF Cons.prems(1), of a took] turn by simp
    have cnt: "\<forall>b \<in> set order. ?counts b = min r (admitted cs k b)" and d: "distinct order"
      using Cons.prems(2,3) by auto
    from Cons.IH [OF inv d cnt, of True]
    obtain counts' qs' where ih: "fold (take_turn n k) order ((?sel, ?counts, ?qs), True) =
        ((take n (?sel @ round_takes cs k order r), counts', qs'), True)"
      "\<forall>b. ?counts b \<le> counts' b \<and> (counts' b \<noteq> ?counts b \<longrightarrow> b \<in> set order \<and> counts' b = Suc (?counts b))"
      "length (?sel @ round_takes cs k order r) \<le> n \<longrightarrow> (\<forall>b \<in> set order. counts' b = min (Suc r) (admitted cs k b))"
      unfolding simp_thms by blast
    have own: "counts' a = Suc (counts a)" using ih(2) Cons.prems(2) by (metis distinct.simps(2) fun_upd_same)
    have takes: "round_takes cs k (a # order) r = queue_of cs a ! r # round_takes cs k order r"
      using True by (simp add: round_takes_def)
    have "counts b \<le> counts' b \<and> (counts' b \<noteq> counts b \<longrightarrow> b \<in> set (a # order) \<and> counts' b = Suc (counts b))" for b
      using spec [OF ih(2), of b] own by (cases "b = a") auto
    then show ?thesis
      using ih(1,3) own True count by (intro exI [of _ counts'] exI [of _ qs']) (auto simp: takes turn)
  next
    case False
    then have turn: "take_turn n k a ((sel, counts, qs), took) = ((sel, counts, qs), took)"
      using take_turn_cases [OF Cons.prems(1), of a took] count by auto
    from Cons.IH [OF Cons.prems(1), of took] Cons.prems(2,3)
    obtain counts' qs' where ih: "fold (take_turn n k) order ((sel, counts, qs), took) =
        ((take n (sel @ round_takes cs k order r), counts', qs'), took \<or> length sel < n \<and> round_takes cs k order r \<noteq> [])"
      "\<forall>b. counts b \<le> counts' b \<and> (counts' b \<noteq> counts b \<longrightarrow> b \<in> set order \<and> counts' b = Suc (counts b))"
      "length (sel @ round_takes cs k order r) \<le> n \<longrightarrow> (\<forall>b \<in> set order. counts' b = min (Suc r) (admitted cs k b))"
      by auto
    have own: "counts' a = counts a" using ih(2) Cons.prems(2) by (metis distinct.simps(2))
    show ?thesis
    proof (cases "r < admitted cs k a")
      case True
      with False len have full: "length sel = n" by simp
      from True have takes: "round_takes cs k (a # order) r = queue_of cs a ! r # round_takes cs k order r"
        by (simp add: round_takes_def)
      have "counts b \<le> counts' b \<and> (counts' b \<noteq> counts b \<longrightarrow> b \<in> set (a # order) \<and> counts' b = Suc (counts b))" for b
        using spec [OF ih(2), of b] by auto
      then show ?thesis
        using ih(1) full by (intro exI [of _ counts'] exI [of _ qs']) (simp add: turn takes)
    next
      case False
      then have takes: "round_takes cs k (a # order) r = round_takes cs k order r" by (simp add: round_takes_def)
      have "counts b \<le> counts' b \<and> (counts' b \<noteq> counts b \<longrightarrow> b \<in> set (a # order) \<and> counts' b = Suc (counts b))" for b
        using spec [OF ih(2), of b] by auto
      then show ?thesis
        using ih(1,3) own count False by (intro exI [of _ counts'] exI [of _ qs']) (simp add: turn takes)
    qed
  qed
qed

lemma round_takes_Nil: "round_takes cs k order r = [] \<longleftrightarrow> (\<forall>a \<in> set order. admitted cs k a \<le> r)"
  by (induction order) (auto simp: round_takes_def)

lemma later_rounds_Nil:
  assumes "round_takes cs k order r = []"
  shows "concat (map (round_takes cs k order) [r..<k]) = []"
  using assms by (auto simp: round_takes_Nil intro: order.trans)

lemma admitted_outside: "set order = {a. queue_of cs a \<noteq> []} \<Longrightarrow> a \<notin> set order \<Longrightarrow> admitted cs k a = 0"
  by (auto simp: admitted_def)

lemma count_bounds:
  "c' = c \<or> c' = Suc c \<Longrightarrow> c' \<le> m \<Longrightarrow> c = min r m \<Longrightarrow> min r m \<le> c' \<and> c' \<le> min (Suc r) m"
  by (auto simp: min_def split: if_splits)

lemma select_round_takes:
  assumes inv: "selection_inv cs n k (sel, counts, qs)" and order: "distinct order" "set order = {a. queue_of cs a \<noteq> []}"
    and counts: "\<forall>a. counts a = min r (admitted cs k a)"
  obtains counts' qs' where
    "select_round n k order (sel, counts, qs) =
      ((take n (sel @ round_takes cs k order r), counts', qs'), length sel < n \<and> round_takes cs k order r \<noteq> [])"
    and "selection_inv cs n k (take n (sel @ round_takes cs k order r), counts', qs')"
    and "\<And>a. min r (admitted cs k a) \<le> counts' a \<and> counts' a \<le> min (Suc r) (admitted cs k a)"
    and "\<And>a. length (sel @ round_takes cs k order r) \<le> n \<Longrightarrow> counts' a = min (Suc r) (admitted cs k a)"
proof -
  let ?T = "round_takes cs k order"
  have "\<forall>a \<in> set order. counts a = min r (admitted cs k a)" using counts by blast
  from fold_turns [OF inv order(1) this, of False] obtain counts' qs' where
    round: "select_round n k order (sel, counts, qs) = ((take n (sel @ ?T r), counts', qs'), length sel < n \<and> ?T r \<noteq> [])"
    and step: "\<And>a. counts a \<le> counts' a \<and> (counts' a \<noteq> counts a \<longrightarrow> a \<in> set order \<and> counts' a = Suc (counts a))"
    and filled: "length (sel @ ?T r) \<le> n \<Longrightarrow> \<forall>a \<in> set order. counts' a = min (Suc r) (admitted cs k a)"
    unfolding select_round_def simp_thms by blast
  have inv': "selection_inv cs n k (take n (sel @ ?T r), counts', qs')"
    using fold_turns_inv [of cs n k "((sel, counts, qs), False)" order] inv round by (simp add: select_round_def)
  have bounds: "min r (admitted cs k a) \<le> counts' a \<and> counts' a \<le> min (Suc r) (admitted cs k a)" for a
  proof -
    have "counts' a = counts a \<or> counts' a = Suc (counts a)" using step by blast
    moreover have "counts' a \<le> admitted cs k a" using inv' by (simp add: selection_inv_def)
    ultimately show ?thesis using spec [OF counts, of a] by (rule count_bounds)
  qed
  have "counts' a = min (Suc r) (admitted cs k a)" if "length (sel @ ?T r) \<le> n" for a
  proof (cases "a \<in> set order")
    case False
    then have "counts' a = counts a" using step by blast
    with admitted_outside [OF order(2) False, of k] spec [OF counts, of a] show ?thesis by simp
  qed (use filled [OF that] in blast)
  with round inv' bounds that show thesis by blast
qed

lemma select_rounds_takes:
  assumes "selection_inv cs n k (sel, counts, qs)" and "distinct order" and "set order = {a. queue_of cs a \<noteq> []}"
    and "\<forall>a. counts a = min r (admitted cs k a)"
  shows "\<exists>counts' qs' R. select_rounds n k order (sel, counts, qs) =
      (take n (sel @ concat (map (round_takes cs k order) [r..<k])), counts', qs') \<and>
    (\<forall>a. min R (admitted cs k a) \<le> counts' a \<and> counts' a \<le> min (Suc R) (admitted cs k a)) \<and>
    (length sel + length (concat (map (round_takes cs k order) [r..<k])) < n \<longrightarrow> (\<forall>a. counts' a = admitted cs k a))"
  using assms
proof (induction "queued qs" arbitrary: sel counts qs r rule: less_induct)
  case less
  let ?T = "round_takes cs k order"
  obtain counts' qs' where round: "select_round n k order (sel, counts, qs) =
      ((take n (sel @ ?T r), counts', qs'), length sel < n \<and> ?T r \<noteq> [])"
    and inv: "selection_inv cs n k (take n (sel @ ?T r), counts', qs')"
    and bounds: "\<And>a. min r (admitted cs k a) \<le> counts' a \<and> counts' a \<le> min (Suc r) (admitted cs k a)"
    and counted: "\<And>a. length (sel @ ?T r) \<le> n \<Longrightarrow> counts' a = min (Suc r) (admitted cs k a)"
    using select_round_takes [OF less.prems] by blast
  have len: "length sel \<le> n" using less.prems(1) by (simp add: selection_inv_def)
  consider (full) "n \<le> length sel + length (?T r)" | (empty) "length sel < n" "?T r = []"
    | (more) "length sel + length (?T r) < n" "?T r \<noteq> []"
    by linarith
  then show ?case
  proof cases
    case full
    have rounds: "concat (map ?T [r..<k]) = ?T r @ concat (map ?T [Suc r..<k]) \<or> ?T r = [] \<and> [r..<k] = []"
      by (cases "r < k") (auto simp: upt_conv_Cons round_takes_Nil admitted_def)
    with full have "take n (sel @ concat (map ?T [r..<k])) = take n (sel @ ?T r)" by auto
    moreover have "\<not> length sel + length (concat (map ?T [r..<k])) < n" using rounds full by auto
    moreover have "select_rounds n k order (sel, counts, qs) = (take n (sel @ ?T r), counts', qs')"
      using full by (subst select_rounds.simps) (simp add: round)
    ultimately show ?thesis using bounds by auto
  next
    case empty
    then have "select_rounds n k order (sel, counts, qs) = (sel, counts', qs')"
      using len by (subst select_rounds.simps) (simp add: round)
    moreover have "counts' a = admitted cs k a" for a
    proof -
      have "admitted cs k a \<le> r"
        using empty(2) admitted_outside [OF less.prems(3), of a k] by (cases "a \<in> set order") (auto simp: round_takes_Nil)
      with counted [of a] empty show ?thesis by simp
    qed
    ultimately show ?thesis
      using later_rounds_Nil [OF empty(2)] bounds len by (intro exI [of _ counts'] exI [of _ qs'] exI [of _ r]) auto
  next
    case more
    then obtain a where "a \<in> set order" "r < admitted cs k a" by (auto simp: round_takes_Nil not_le)
    then have rk: "r < k" by (simp add: admitted_def)
    have "queued qs' < queued qs"
      using select_round_queued [of n k order "((sel, counts, qs), False)"] round more by (auto simp: select_round_def)
    moreover have "take n (sel @ ?T r) = sel @ ?T r" using more by simp
    ultimately obtain counts'' qs'' R where ih: "select_rounds n k order (sel @ ?T r, counts', qs') =
        (take n ((sel @ ?T r) @ concat (map ?T [Suc r..<k])), counts'', qs'')"
      "\<forall>a. min R (admitted cs k a) \<le> counts'' a \<and> counts'' a \<le> min (Suc R) (admitted cs k a)"
      "length (sel @ ?T r) + length (concat (map ?T [Suc r..<k])) < n \<longrightarrow> (\<forall>a. counts'' a = admitted cs k a)"
      using less.hyps [of qs' "sel @ ?T r" counts' "Suc r"] inv less.prems(2,3) counted more by auto
    have "select_rounds n k order (sel, counts, qs) = select_rounds n k order (sel @ ?T r, counts', qs')"
      using more by (subst select_rounds.simps) (simp add: round)
    with ih rk show ?thesis
      by (intro exI [of _ counts''] exI [of _ qs''] exI [of _ R]) (simp add: upt_conv_Cons)
  qed
qed

section \<open>The selection\<close>

definition round_robin :: "Assignment list \<Rightarrow> nat \<Rightarrow> nat \<Rightarrow> Assignment list" where
  "round_robin cs n k = take n (concat (map (round_takes cs k (agent_order cs)) [0..<k]))"

lemma total_cmp_assignments: "total_cmp assignment_order"
  unfolding assignment_order_def [abs_def] by (rule total_cmp_intros)+

interpretation assignment_sort: total_cmp assignment_order
  by (rule total_cmp_assignments)

text \<open>The result of the loop: the reference listing, the rest, and how the agents were served.\<close>

lemma select_assignments_result:
  obtains counts qs R where
    "select_assignments cs n k = (round_robin cs n k, sort_by assignment_order (concat (bt_values qs)))"
    and "selection_inv cs n k (round_robin cs n k, counts, qs)"
    and "\<And>a. min R (admitted cs k a) \<le> counts a \<and> counts a \<le> min (Suc R) (admitted cs k a)"
    and "\<And>a. length (round_robin cs n k) < n \<Longrightarrow> counts a = admitted cs k a"
proof -
  have order: "distinct (agent_order cs)" "set (agent_order cs) = {a. queue_of cs a \<noteq> []}"
    using agent_order_set by blast+
  from select_rounds_takes [OF selection_start [of cs n k] order, of 0]
  obtain counts qs R where r: "select_rounds n k (agent_order cs) ([], \<lambda>_. 0, group_by_agent cs) = (round_robin cs n k, counts, qs)"
    and bounds: "\<And>a. min R (admitted cs k a) \<le> counts a \<and> counts a \<le> min (Suc R) (admitted cs k a)"
    and all: "\<And>a. length (concat (map (round_takes cs k (agent_order cs)) [0..<k])) < n \<Longrightarrow> counts a = admitted cs k a"
    unfolding round_robin_def by (simp del: length_concat) blast
  have inv: "selection_inv cs n k (round_robin cs n k, counts, qs)"
    using select_rounds_inv [OF selection_start, of cs n k "agent_order cs"] r by simp
  have "counts a = admitted cs k a" if "length (round_robin cs n k) < n" for a
    using that by (intro all) (auto simp: round_robin_def)
  moreover have "select_assignments cs n k = (round_robin cs n k, sort_by assignment_order (concat (bt_values qs)))"
    using r by (simp add: select_assignments_def agent_order_def)
  ultimately show thesis using that inv bounds by blast
qed

end
