(* ===== verification/Determinism.thy ===== *)
theory Determinism
  imports Coordination StoreIngest
begin

text \<open>
  The analysis and the plan depend on the retained tasks, goals, agents and events as sets, not on
  the order in which the caches list them: every table is ordered by its keys, and every list is
  sorted by keys that are distinct.
\<close>

section \<open>Tables of permuted lists\<close>

lemma map_of_perm: "distinct (map fst xs) \<Longrightarrow> mset xs = mset ys \<Longrightarrow> map_of xs = map_of ys"
proof -
  assume d: "distinct (map fst xs)" and m: "mset xs = mset ys"
  then have "distinct (map fst ys)" using mset_eq_imp_distinct_iff [of "map fst xs" "map fst ys"] by simp
  with d mset_eq_setD [OF m] show ?thesis by (simp add: map_of_inject_set)
qed

lemma bt_collect_perm:
  assumes "distinct (map f xs)" and "mset xs = mset ys"
  shows "bt_collect (map (\<lambda>x. (f x, g x)) xs) [] = bt_collect (map (\<lambda>x. (f x, g x)) ys) []"
proof (rule bt_ext)
  fix k
  have "distinct (map fst (rev (map (\<lambda>x. (f x, g x)) xs)))"
    using assms(1) by (simp add: rev_map [symmetric] comp_def)
  moreover have "mset (rev (map (\<lambda>x. (f x, g x)) xs)) = mset (rev (map (\<lambda>x. (f x, g x)) ys))"
    using assms(2) by (simp add: mset_map)
  ultimately show "bt_get (bt_collect (map (\<lambda>x. (f x, g x)) xs) []) k = bt_get (bt_collect (map (\<lambda>x. (f x, g x)) ys) []) k"
    unfolding bt_get_collect by (metis map_of_perm)
qed (rule bt_wf_collect)+

lemma task_table_perm:
  "distinct (map task_key ts) \<Longrightarrow> mset ts = mset ts' \<Longrightarrow> task_table ts = task_table ts'"
  unfolding task_table_def by (rule bt_collect_perm)

lemma sort_by_key_perm:
  assumes "distinct (map f xs)" and "mset xs = mset ys" and "total_cmp c"
    and "\<And>x y. c x y = Equal \<Longrightarrow> f x = f y"
  shows "sort_by c xs = sort_by c ys"
  using assms(1,2,4) by (intro total_cmp.sort_by_perm [OF assms(3)]) (auto simp: distinct_map inj_on_def)

section \<open>Critical paths\<close>

lemma group_by_goal_get:
  "bt_wf (fold group_by_goal ts []) \<and>
   bt_get (fold group_by_goal ts []) gk =
     (let ks = map task_key (filter (\<lambda>t. map_option (Pair (TaskState.agent_id t)) (TaskSpec.goal_id (TaskState.task t)) = Some gk) ts)
      in if ks = [] then None else Some ks)"
  using bt_group_empty [where h = group_by_goal and g = task_key and xs = ts and k = gk
      and f = "\<lambda>t. map_option (Pair (TaskState.agent_id t)) (TaskSpec.goal_id (TaskState.task t))"]
  by (simp add: group_by_goal_def Let_def split: option.split)

lemma max_remaining_Max: "max_remaining depths ks = Max (insert 0 {d. \<exists>k \<in> set ks. depths k = Some d})"
proof -
  have fin: "finite {d. \<exists>k \<in> set xs. depths k = Some d}" for xs
    by (rule finite_subset [of _ "(\<lambda>k. the (depths k)) ` set xs"]) force+
  have "fold (\<lambda>k m. case depths k of None \<Rightarrow> m | Some d \<Rightarrow> max m d) xs m = Max (insert m {d. \<exists>k \<in> set xs. depths k = Some d})" for xs m
  proof (induction xs arbitrary: m)
    case Nil
    then show ?case by simp
  next
    case (Cons x xs)
    show ?case
    proof (cases "depths x")
      case None
      then have "{d. \<exists>k \<in> set (x # xs). depths k = Some d} = {d. \<exists>k \<in> set xs. depths k = Some d}" by auto
      with None Cons.IH show ?thesis by simp
    next
      case (Some d)
      then have "{d. \<exists>k \<in> set (x # xs). depths k = Some d} = insert d {d. \<exists>k \<in> set xs. depths k = Some d}" by auto
      with Some Cons.IH [of "max m d"] fin [of xs] show ?thesis
        by (cases "{d. \<exists>k \<in> set xs. depths k = Some d} = {}") (simp_all add: max.assoc)
    qed
  qed
  then show ?thesis by (simp add: max_remaining_def)
qed

lemma critical_step_set:
  "set ks = set ks' \<Longrightarrow> critical_step c depths (gk, ks) acc = critical_step c depths (gk, ks') acc"
  by (simp add: critical_step_def max_remaining_Max split: prod.split)

lemma fold_same_keys:
  assumes "bt_wf m" "bt_wf m'"
    and "\<And>k. rel_option (\<lambda>v v'. \<forall>acc. h (k, v) acc = h (k, v') acc) (bt_get m k) (bt_get m' k)"
  shows "fold h m acc = fold h m' acc"
proof -
  have "bt_get m k = None \<longleftrightarrow> bt_get m' k = None" for k
    using assms(3) [of k] by (cases "bt_get m k"; cases "bt_get m' k") auto
  then have "set (bt_keys m) = set (bt_keys m')" by (simp only: bt.keys_get [OF assms(1)] bt.keys_get [OF assms(2)])
  then have keys: "bt_keys m = bt_keys m'"
    using bt.keys_sorted assms(1,2) by (intro strict_sorted_equal) simp_all
  have entries: "n = map (\<lambda>k. (k, the (bt_get n k))) (bt_keys n)" if "bt_wf n" for n :: "('a, 'b) BTreeMap"
    unfolding bt_keys_def map_map by (rule map_idI [symmetric]) (metis bt_get_mem comp_apply option.sel prod.collapse that)
  have same: "h (k, the (bt_get m k)) = h (k, the (bt_get m' k))" if "k \<in> set (bt_keys m)" for k
    using assms(3) [of k] that bt.keys_get [OF assms(1)] by (auto simp: option_rel_Some1 fun_eq_iff)
  have "fold h m acc = fold (\<lambda>k. h (k, the (bt_get m k))) (bt_keys m) acc"
    by (subst entries [OF assms(1)]) (simp add: fold_map comp_def)
  also have "\<dots> = fold (\<lambda>k. h (k, the (bt_get m' k))) (bt_keys m') acc"
    using same keys by (intro fold_cong) simp_all
  also have "\<dots> = fold h m' acc"
    by (subst (3) entries [OF assms(2)]) (simp add: fold_map comp_def)
  finally show ?thesis .
qed

lemma critical_paths_perm:
  assumes "mset ts = mset ts'"
  shows "critical_paths ts c depths = critical_paths ts' c depths"
  unfolding critical_paths_def
proof (rule fold_same_keys)
  fix gk
  let ?p = "\<lambda>t. map_option (Pair (TaskState.agent_id t)) (TaskSpec.goal_id (TaskState.task t)) = Some gk"
  have sets: "set (map task_key (filter ?p ts)) = set (map task_key (filter ?p ts'))"
    using mset_eq_setD [OF assms] by simp
  have ks: "filter ?p ts = [] \<longleftrightarrow> filter ?p ts' = []"
    and step: "\<And>acc. critical_step c depths (gk, map task_key (filter ?p ts)) acc = critical_step c depths (gk, map task_key (filter ?p ts')) acc"
    using arg_cong [OF sets, of "\<lambda>S. S = {}"] critical_step_set [OF sets] by (simp_all del: map_option_eq_Some set_map set_filter)
  show "rel_option (\<lambda>v v'. \<forall>acc. critical_step c depths (gk, v) acc = critical_step c depths (gk, v') acc)
      (bt_get (fold group_by_goal ts []) gk) (bt_get (fold group_by_goal ts' []) gk)"
    using group_by_goal_get [of ts gk] group_by_goal_get [of ts' gk] ks step
    by (simp add: Let_def del: map_option_eq_Some)
qed (use group_by_goal_get in blast)+

section \<open>The event index\<close>

lemma bt_get_map_values: "bt_get (map (\<lambda>(k, v). (k, f v)) m) k = map_option f (bt_get m k)"
  by (simp add: bt_get_def map_of_map)

lemma bt_wf_map_values: "bt_wf m \<Longrightarrow> bt_wf (map (\<lambda>(k, v). (k, f v)) m)"
  by (simp add: bt_wf_def comp_def case_prod_unfold)

definition record_task :: "EventRecord \<Rightarrow> TaskKey option" where
  "record_task rec = map_option (Pair (AgentRef.agent_id (EventEnvelope.agent (EventRecord.event rec))))
     (event_task_id (EventEnvelope.event (EventRecord.event rec)))"

lemma index_task_events_get:
  "bt_wf (index_task_events evs) \<and>
   bt_get (index_task_events evs) k =
     (if filter (\<lambda>rec. record_task rec = Some k) evs = [] then None
      else Some (sort_by record_cmp (filter (\<lambda>rec. record_task rec = Some k) evs)))"
  using bt_group_empty [where h = index_record and g = "\<lambda>x. x" and xs = evs and k = k and f = record_task]
  by (simp add: index_task_events_def index_record_def record_task_def bt_get_map_values bt_wf_map_values split: option.split)

lemma total_cmp_records: "total_cmp record_cmp"
  unfolding record_cmp_def [abs_def] by (rule total_cmp_key [OF total_cmp_linorder])

abbreviation event_key :: "EventRecord \<Rightarrow> Uuid" where
  "event_key rec \<equiv> EventEnvelope.event_id (EventRecord.event rec)"

lemma index_task_events_perm:
  assumes "distinct (map event_key evs)" and "mset evs = mset evs'"
  shows "index_task_events evs = index_task_events evs'"
proof (rule bt_ext)
  fix k
  let ?p = "\<lambda>rec. record_task rec = Some k"
  have "filter ?p evs = [] \<longleftrightarrow> filter ?p evs' = []"
    using mset_eq_setD [OF assms(2)] by (simp add: filter_empty_conv)
  moreover have "sort_by record_cmp (filter ?p evs) = sort_by record_cmp (filter ?p evs')"
  proof (rule sort_by_key_perm [where f = event_key])
    show "distinct (map event_key (filter ?p evs))" using assms(1) by (rule distinct_map_filter)
    show "mset (filter ?p evs) = mset (filter ?p evs')" using assms(2) by simp
  qed (auto simp: total_cmp_records record_cmp_def)
  ultimately show "bt_get (index_task_events evs) k = bt_get (index_task_events evs') k"
    using index_task_events_get [of evs k] index_task_events_get [of evs' k] by simp
qed (use index_task_events_get in blast)+

section \<open>Analysis and plan\<close>

definition goal_key :: "GoalState \<Rightarrow> GoalKey" where
  "goal_key g = (GoalState.agent_id g, Goal.goal_id (GoalState.goal g))"

definition agent_key :: "AgentState \<Rightarrow> string" where
  "agent_key a = AgentRef.agent_id (AgentState.agent a)"

text \<open>Two snapshots that list the same retained values, with distinct keys, in any order.\<close>

definition same_content :: "Snapshot \<Rightarrow> Snapshot \<Rightarrow> bool" where
  "same_content s s' \<longleftrightarrow>
     Snapshot.generated_at s = Snapshot.generated_at s' \<and> Snapshot.revision s = Snapshot.revision s' \<and>
     mset (Snapshot.tasks s) = mset (Snapshot.tasks s') \<and> mset (Snapshot.goals s) = mset (Snapshot.goals s') \<and>
     mset (Snapshot.agents s) = mset (Snapshot.agents s') \<and> mset (Snapshot.recent_events s) = mset (Snapshot.recent_events s') \<and>
     distinct (map task_key (Snapshot.tasks s)) \<and> distinct (map goal_key (Snapshot.goals s)) \<and>
     distinct (map agent_key (Snapshot.agents s)) \<and> distinct (map event_key (Snapshot.recent_events s))"

lemma analysis_same_content:
  assumes "same_content s s'"
  shows "analyze_with_policy since s pol = analyze_with_policy since s' pol"
proof -
  have "task_table (Snapshot.tasks s) = task_table (Snapshot.tasks s')"
    using assms by (intro task_table_perm) (simp_all add: same_content_def)
  moreover have "critical_paths (Snapshot.tasks s) c d = critical_paths (Snapshot.tasks s') c d" for c d
    using assms by (intro critical_paths_perm) (simp add: same_content_def)
  moreover have "index_task_events (Snapshot.recent_events s) = index_task_events (Snapshot.recent_events s')"
    using assms by (intro index_task_events_perm) (simp_all add: same_content_def)
  moreover have "set (Snapshot.goals s) = set (Snapshot.goals s')"
    using assms by (intro mset_eq_setD) (simp add: same_content_def)
  ultimately have same_env: "analysis_setup since s p = analysis_setup since s' p" for p
    using assms by (simp add: analysis_setup_def same_content_def)
  have "sort_by task_cmp (Snapshot.tasks s) = sort_by task_cmp (Snapshot.tasks s')"
    using assms by (intro sort_by_key_perm [where f = task_key]) (auto simp: same_content_def total_cmp_tasks task_cmp_def)
  moreover have "sort_by goal_cmp (Snapshot.goals s) = sort_by goal_cmp (Snapshot.goals s')"
    using assms by (intro sort_by_key_perm [where f = goal_key])
      (auto simp: same_content_def total_cmp_goals goal_cmp_def goal_key_def)
  ultimately show ?thesis
    using assms by (simp add: analyze_with_policy_def same_env same_content_def)
qed

lemma placements_same_content:
  assumes "same_content s s'"
  shows "plan_placements s an = plan_placements s' an"
proof -
  have "task_table (Snapshot.tasks s) = task_table (Snapshot.tasks s')"
    using assms by (intro task_table_perm) (simp_all add: same_content_def)
  moreover have "bt_collect (map (\<lambda>a. (agent_key a, AgentState.status a)) (Snapshot.agents s)) [] =
      bt_collect (map (\<lambda>a. (agent_key a, AgentState.status a)) (Snapshot.agents s')) []"
    using assms by (intro bt_collect_perm) (simp_all add: same_content_def)
  ultimately show ?thesis by (simp add: plan_placements_def agent_key_def)
qed

end
