(* ===== verification/CoordSpec.thy ===== *)
theory CoordSpec
  imports Selection Determinism MetaSpec
begin

text \<open>
  The properties of the coordination planner: the fair selection, what an assignment guarantees,
  the accounting and the limits of a plan, its errors, its independence of the order of the
  snapshot, and the width of its priorities.
\<close>

section \<open>Fair selection\<close>

text \<open>
  C12: the loop of rounds computes the reference listing: round by round, each agent in the order of
  its best candidate contributes its next candidate while the limit per agent admits it, cut at the
  total limit.
\<close>

theorem selection_is_round_robin:
  "fst (select_assignments candidates maximum per_agent) = round_robin candidates maximum per_agent"
  by (rule select_assignments_result [of candidates maximum per_agent]) simp

text \<open>
  C13: the selection is a partition that respects its limits and is fair. Selected and suppressed
  candidates are together the candidates; at most \<open>maximum\<close> are selected, and of each agent the
  first ones, at most \<open>per_agent\<close>; no agent is served two candidates more than another one unless the
  other one has received all it may; and capacity is left over only if every agent has.
\<close>

theorem selection_is_fair:
  "let (selected, suppressed) = select_assignments candidates maximum per_agent;
       served = (\<lambda>a. length (queue_of selected a))
   in mset selected + mset suppressed = mset candidates \<and> length selected \<le> maximum \<and>
     (\<forall>a. queue_of selected a = take (served a) (queue_of candidates a) \<and> served a \<le> admitted candidates per_agent a) \<and>
     (\<forall>a b. served a \<le> served b + 1 \<or> served b = admitted candidates per_agent b) \<and>
     (length selected = maximum \<or> (\<forall>a. served a = admitted candidates per_agent a))"
proof (rule select_assignments_result [of candidates maximum per_agent])
  fix counts qs R
  let ?sel = "round_robin candidates maximum per_agent"
  assume eq: "select_assignments candidates maximum per_agent = (?sel, sort_by assignment_order (concat (bt_values qs)))"
    and inv: "selection_inv candidates maximum per_agent (?sel, counts, qs)"
    and bounds: "\<And>a. min R (admitted candidates per_agent a) \<le> counts a \<and> counts a \<le> min (Suc R) (admitted candidates per_agent a)"
    and all: "\<And>a. length ?sel < maximum \<Longrightarrow> counts a = admitted candidates per_agent a"
  have served: "length (queue_of ?sel a) = counts a" and prefix: "queue_of ?sel a = take (counts a) (queue_of candidates a)"
    and le: "counts a \<le> admitted candidates per_agent a" for a
    using inv by (auto simp: selection_inv_def admitted_def)
  have "counts a \<le> counts b + 1 \<or> counts b = admitted candidates per_agent b" for a b
    using bounds [of a] bounds [of b] by linarith
  moreover have "mset ?sel + mset (sort_by assignment_order (concat (bt_values qs))) = mset candidates" "length ?sel \<le> maximum"
    using inv by (simp_all add: selection_inv_def assignment_sort.mset_sort_by)
  moreover have "length ?sel = maximum \<or> (\<forall>a. counts a = admitted candidates per_agent a)"
    using all calculation(3) le_neq_implies_less by blast
  ultimately show ?thesis using prefix le unfolding eq Let_def prod.case served by blast
qed

section \<open>Placements\<close>

lemma placed_counts:
  "length (placed_interventions ps) + length (placed_holds ps) + length (placed_candidates ps) = length ps"
proof (induction ps)
  case (Cons p ps)
  then show ?case by (cases p) (simp_all add: placed_interventions_def placed_holds_def placed_candidates_def)
qed (simp add: placed_interventions_def placed_holds_def placed_candidates_def)

lemma total_cmp_interventions: "total_cmp intervention_order"
  unfolding intervention_order_def [abs_def] by (rule total_cmp_intros)+

lemma total_cmp_holds: "total_cmp hold_order"
  unfolding hold_order_def [abs_def] by (rule total_cmp_intros)+

lemma total_cmp_analyses: "total_cmp analysis_cmp"
  unfolding analysis_cmp_def [abs_def] by (rule total_cmp_key [OF total_cmp_linorder])

interpretation intervention_sort: total_cmp intervention_order
  by (rule total_cmp_interventions)

interpretation hold_sort: total_cmp hold_order
  by (rule total_cmp_holds)

interpretation analysis_sort: total_cmp analysis_cmp
  by (rule total_cmp_analyses)

text \<open>The key of the task that a placement is about.\<close>

fun placement_key :: "placement \<Rightarrow> TaskKey" where
  "placement_key (Intervene i) = (Intervention.agent_id i, Intervention.task_id i)"
| "placement_key (Hold h) = (HeldTask.agent_id h, HeldTask.task_id h)"
| "placement_key (Candidate c) = (Assignment.agent_id c, Assignment.task_id c)"

abbreviation assignment_key :: "Assignment \<Rightarrow> TaskKey" where
  "assignment_key c \<equiv> placement_key (Candidate c)"

abbreviation intervention_key :: "Intervention \<Rightarrow> TaskKey" where
  "intervention_key i \<equiv> placement_key (Intervene i)"

abbreviation hold_key :: "HeldTask \<Rightarrow> TaskKey" where
  "hold_key h \<equiv> placement_key (Hold h)"

lemma place_task_key: "placement_key (place_task lookup statuses by_task t) = (TaskAnalysis.agent_id t, TaskAnalysis.task_id t)"
  by (auto simp: place_task_def Let_def intervention_for_def make_assignment_def make_hold_def split: option.splits)

lemma placed_keys:
  "mset (map intervention_key (placed_interventions ps)) + mset (map hold_key (placed_holds ps)) +
   mset (map assignment_key (placed_candidates ps)) = mset (map placement_key ps)"
proof (induction ps)
  case (Cons p ps)
  then show ?case
    by (cases p) (simp_all add: placed_interventions_def placed_holds_def placed_candidates_def ac_simps)
qed (simp add: placed_interventions_def placed_holds_def placed_candidates_def)

lemma plan_placement_keys:
  "mset (map placement_key (plan_placements snap (analyze_with_policy since snap pol))) = mset (map task_key (Snapshot.tasks snap))"
proof -
  have "map placement_key (plan_placements snap an) =
      map (\<lambda>t. (TaskAnalysis.agent_id t, TaskAnalysis.task_id t)) (sort_by analysis_cmp (MetacognitionSnapshot.tasks an))" for an
    by (simp add: plan_placements_def Let_def comp_def place_task_key)
  moreover have "(TaskAnalysis.agent_id (analyze_task e t), TaskAnalysis.task_id (analyze_task e t)) = task_key t" for e t
    by (simp add: analyze_task_def Let_def prod.case_eq_if task_key_def)
  ultimately show ?thesis
    by (simp add: analysis_sort.mset_sort_by analysis_tasks task_order.mset_sort_by multiset.map_comp comp_def)
qed

lemma suppressed_hold_key: "hold_key (suppressed_hold c) = assignment_key c"
  by (simp add: suppressed_hold_def)

section \<open>Plans\<close>

lemma mset_map_take: "mset (map f (take n xs)) \<subseteq># mset (map f xs)"
  by (metis append_take_drop_id map_append mset_append mset_subset_eq_add_left)

definition held_list :: "placement list \<Rightarrow> Assignment list \<Rightarrow> HeldTask list" where
  "held_list ps rest = sort_by hold_order (sort_by hold_order (placed_holds ps) @ map suppressed_hold rest)"

lemma plan_lists:
  assumes "build_plan_with_policy since snap apol ppol = Inr plan"
  obtains ps sel rest where
    "ps = plan_placements snap (analyze_with_policy since snap apol)"
    and "select_assignments (sort_by assignment_order (placed_candidates ps)) (max_assignments ppol) (max_assignments_per_agent ppol) = (sel, rest)"
    and "CoordinationPlan.assignments plan = sel"
    and "CoordinationPlan.interventions plan = take (max_interventions ppol) (sort_by intervention_order (placed_interventions ps))"
    and "CoordinationPlan.held_tasks plan = take (max_holds ppol) (held_list ps rest)"
    and "CoordinationPlan.summary plan = \<lparr>CoordinationSummary.total_tasks = length (Snapshot.tasks snap),
      assignment_candidates = length (placed_candidates ps), assignments = length sel,
      agents_with_assignments = card (set (map Assignment.agent_id sel)),
      interventions = length (CoordinationPlan.interventions plan), held_tasks = length (CoordinationPlan.held_tasks plan),
      suppressed_by_assignment_limits = length rest,
      omitted_interventions = length (placed_interventions ps) - max_interventions ppol,
      omitted_holds = length (held_list ps rest) - max_holds ppol\<rparr>"
proof -
  let ?an = "analyze_with_policy since snap apol"
  let ?ps = "plan_placements snap ?an"
  obtain sel rest where sel: "select_assignments (sort_by assignment_order (placed_candidates ?ps)) (max_assignments ppol)
      (max_assignments_per_agent ppol) = (sel, rest)" by fastforce
  have plan: "plan = plan_from_analysis snap ?an ppol"
    using assms by (auto simp: build_plan_with_policy_def split: sum.splits)
  have total: "length (MetacognitionSnapshot.tasks ?an) = length (Snapshot.tasks snap)"
    by (simp add: analysis_tasks task_order.length_sort_by)
  show thesis
    by (rule that [of ?ps sel rest])
      (simp_all add: plan plan_from_analysis_def Let_def sel held_list_def total assignment_sort.length_sort_by
        intervention_sort.length_sort_by)
qed

lemma selection_parts:
  assumes "select_assignments cs n k = (sel, rest)"
  shows "mset sel + mset rest = mset cs" and "length sel + length rest = length cs" and "length sel \<le> n"
    and "length (queue_of sel a) \<le> k" and "set sel \<subseteq> set cs"
proof -
  obtain counts qs where inv: "selection_inv cs n k (sel, counts, qs)" and rest: "rest = sort_by assignment_order (concat (bt_values qs))"
    by (rule select_assignments_result [of cs n k]) (use assms in auto)
  then show m: "mset sel + mset rest = mset cs" and "length sel \<le> n" and "length (queue_of sel a) \<le> k"
    by (auto simp: selection_inv_def assignment_sort.mset_sort_by admitted_def)
  from arg_cong [OF m, of size] show "length sel + length rest = length cs" by simp
  from m show "set sel \<subseteq> set cs" by (metis mset_append mset_eq_setD set_append Un_upper1)
qed

lemma selection_nonempty:
  assumes "select_assignments cs n k = (sel, rest)" and "cs \<noteq> []" "0 < n" "0 < k"
  shows "sel \<noteq> []"
proof
  assume "sel = []"
  obtain counts qs where inv: "selection_inv cs n k (sel, counts, qs)"
    and all: "\<And>a. length sel < n \<Longrightarrow> counts a = admitted cs k a"
    by (rule select_assignments_result [of cs n k]) (use assms(1) in auto)
  have "queue_of cs (Assignment.agent_id (hd cs)) \<noteq> []" using assms(2) by (cases cs) (auto simp: queue_of_def)
  then have "admitted cs k (Assignment.agent_id (hd cs)) > 0" using assms(4) by (simp add: admitted_def)
  moreover have "counts a = 0" for a
    using inv \<open>sel = []\<close> by (auto simp: selection_inv_def queue_of_def admitted_def filter_empty_conv)
  ultimately show False using all assms(3) \<open>sel = []\<close> by fastforce
qed

text \<open>
  C14: a plan accounts for every retained task exactly once. Assignments, interventions and holds,
  with the omitted ones, add up to the tasks of the snapshot, no task appears twice, and the counts
  of the summary are the lengths of the lists.
\<close>

theorem plan_accounts_for_every_task:
  assumes "build_plan_with_policy since snap apol ppol = Inr plan"
  defines "S \<equiv> CoordinationPlan.summary plan"
  shows "length (CoordinationPlan.assignments plan) +
      (length (CoordinationPlan.interventions plan) + omitted_interventions S) +
      (length (CoordinationPlan.held_tasks plan) + omitted_holds S) = length (Snapshot.tasks snap) \<and>
    mset (map assignment_key (CoordinationPlan.assignments plan)) +
      mset (map intervention_key (CoordinationPlan.interventions plan)) +
      mset (map hold_key (CoordinationPlan.held_tasks plan)) \<subseteq># mset (map task_key (Snapshot.tasks snap)) \<and>
    assignment_candidates S = CoordinationSummary.assignments S + suppressed_by_assignment_limits S \<and>
    CoordinationSummary.total_tasks S = length (Snapshot.tasks snap) \<and>
    CoordinationSummary.assignments S = length (CoordinationPlan.assignments plan) \<and>
    CoordinationSummary.interventions S = length (CoordinationPlan.interventions plan) \<and>
    CoordinationSummary.held_tasks S = length (CoordinationPlan.held_tasks plan)"
proof (rule plan_lists [OF assms(1)], goal_cases)
  case (1 ps sel rest)
  note parts = selection_parts [OF 1(2), unfolded assignment_sort.mset_sort_by assignment_sort.length_sort_by]
  have keys: "mset (map placement_key ps) = mset (map task_key (Snapshot.tasks snap))"
    unfolding 1(1) by (rule plan_placement_keys)
  from arg_cong [OF this, of size] have total: "length ps = length (Snapshot.tasks snap)" by simp
  have held: "length (held_list ps rest) = length (placed_holds ps) + length rest"
    by (simp add: held_list_def hold_sort.length_sort_by)
  have held_keys: "mset (map hold_key (held_list ps rest)) = mset (map hold_key (placed_holds ps)) + mset (map assignment_key rest)"
    by (simp add: held_list_def hold_sort.mset_sort_by suppressed_hold_def multiset.map_comp comp_def)
  have candidates: "mset (map assignment_key (placed_candidates ps)) = mset (map assignment_key sel) + mset (map assignment_key rest)"
    using arg_cong [OF parts(1), of "image_mset assignment_key"] by simp
  have all_keys: "mset (map assignment_key sel) + mset (map intervention_key (placed_interventions ps)) +
      mset (map hold_key (held_list ps rest)) = mset (map task_key (Snapshot.tasks snap))"
    using placed_keys [of ps] unfolding held_keys keys [symmetric] candidates by (simp add: ac_simps)
  have "mset (map assignment_key (CoordinationPlan.assignments plan)) +
      mset (map intervention_key (CoordinationPlan.interventions plan)) +
      mset (map hold_key (CoordinationPlan.held_tasks plan)) \<subseteq># mset (map task_key (Snapshot.tasks snap))"
    unfolding 1(3-5) all_keys [symmetric]
    by (intro subset_mset.add_mono mset_map_take subset_mset.order_refl
        subset_mset.order_trans [OF mset_map_take]) (simp_all add: intervention_sort.mset_sort_by)
  then show ?thesis
    using placed_counts [of ps] parts(2) total held
    by (simp add: S_def 1(3-6) intervention_sort.length_sort_by)
qed

section \<open>What the planner knows of a task\<close>

lemma total_cmp_diagnostic_ids: "total_cmp (\<lambda>l r. cmp (Diagnostic.diagnostic_id l) (Diagnostic.diagnostic_id r))"
  by (rule total_cmp_key [OF total_cmp_linorder])

lemma diagnostics_by_task_rules:
  "has_rule (case bt_get (diagnostics_by_task ds) (a, tid) of None \<Rightarrow> [] | Some v \<Rightarrow> v) r \<longleftrightarrow>
     (\<exists>d \<in> set ds. rule d = r \<and> Diagnostic.agent_id d = a \<and> Diagnostic.task_id d = Some tid)"
proof -
  let ?of = "\<lambda>d. map_option (Pair (Diagnostic.agent_id d)) (Diagnostic.task_id d)"
  have "file_diagnostic d m = (case ?of d of None \<Rightarrow> m | Some k \<Rightarrow> bt_update k [] (\<lambda>l. l @ [d]) m)" for d m
    by (simp add: file_diagnostic_def split: option.split)
  from bt_group_empty [where h = file_diagnostic and f = ?of and g = "\<lambda>d. d" and xs = ds and k = "(a, tid)", OF this]
  have "bt_get (fold file_diagnostic ds []) (a, tid) =
      (if filter (\<lambda>d. ?of d = Some (a, tid)) ds = [] then None else Some (filter (\<lambda>d. ?of d = Some (a, tid)) ds))"
    by simp
  then have "set (case bt_get (diagnostics_by_task ds) (a, tid) of None \<Rightarrow> [] | Some v \<Rightarrow> v) = {d \<in> set ds. ?of d = Some (a, tid)}"
    by (auto simp: diagnostics_by_task_def bt_get_map_values filter_empty_conv
        total_cmp.set_sort_by [OF total_cmp_diagnostic_ids])
  then show ?thesis by (auto simp: has_rule_def list_ex_iff)
qed

definition agent_statuses :: "Snapshot \<Rightarrow> (string, AgentStatus) BTreeMap" where
  "agent_statuses snap = bt_collect (map (\<lambda>a. (agent_key a, AgentState.status a)) (Snapshot.agents snap)) []"

lemma agent_offline_iff:
  assumes "distinct (map agent_key (Snapshot.agents snap))"
  shows "bt_get (agent_statuses snap) a = Some st \<longleftrightarrow> (\<exists>g \<in> set (Snapshot.agents snap). agent_key g = a \<and> AgentState.status g = st)"
proof -
  have "distinct (map fst (rev (map (\<lambda>a. (agent_key a, AgentState.status a)) (Snapshot.agents snap))))"
    using assms by (simp add: rev_map [symmetric] comp_def)
  then show ?thesis unfolding agent_statuses_def bt_get_collect by (auto simp: map_of_eq_Some_iff)
qed

definition placement_of :: "(DateTime \<Rightarrow> DateTime \<Rightarrow> int) \<Rightarrow> Snapshot \<Rightarrow> AnalysisPolicy \<Rightarrow> TaskState \<Rightarrow> placement" where
  "placement_of since snap pol t = place_task (task_table (Snapshot.tasks snap)) (agent_statuses snap)
     (diagnostics_by_task (diagnostics (analyze_with_policy since snap pol))) (analyze_task (env_of since snap pol) t)"

lemma plan_placements_set:
  "set (plan_placements snap (analyze_with_policy since snap pol)) = placement_of since snap pol ` set (Snapshot.tasks snap)"
  by (simp add: plan_placements_def placement_of_def [abs_def] Let_def agent_statuses_def agent_key_def analysis_sort.set_sort_by analysis_tasks
      task_order.set_sort_by image_image)

lemma analyze_task_sel [simp]:
  "TaskAnalysis.agent_id (analyze_task e t) = TaskState.agent_id t" "TaskAnalysis.task_id (analyze_task e t) = spec_id t"
  "TaskAnalysis.status (analyze_task e t) = TaskState.status t" "TaskAnalysis.goal_id (analyze_task e t) = TaskSpec.goal_id (TaskState.task t)"
  "TaskAnalysis.unresolved_dependencies (analyze_task e t) = fst (dependency_state t (env_tasks e))"
  "TaskAnalysis.missing_dependencies (analyze_task e t) = snd (dependency_state t (env_tasks e))"
  by (simp_all add: analyze_task_def Let_def prod.case_eq_if)

lemma placed_candidates_set: "c \<in> set (placed_candidates ps) \<longleftrightarrow> Candidate c \<in> set ps"
  by (force simp: placed_candidates_def split: placement.splits)

text \<open>
  A task can be dispatched when its completion is consistent, the cycle search does not flag it, its dependencies are done, its goal is
  declared and its agent is not offline.
\<close>

definition dispatchable :: "Snapshot \<Rightarrow> TaskState \<Rightarrow> bool" where
  "dispatchable snap t \<longleftrightarrow>
     \<not> completion_mismatch t \<and> task_key t \<notin> dependency_cycle_members (task_table (Snapshot.tasks snap)) \<and>
     (\<forall>d \<in> set (TaskSpec.depends_on (TaskState.task t)). \<exists>dep.
        bt_get (task_table (Snapshot.tasks snap)) (TaskState.agent_id t, d) = Some dep \<and> TaskState.status dep = TaskStatus.Succeeded) \<and>
     (\<forall>g. TaskSpec.goal_id (TaskState.task t) = Some g \<longrightarrow>
        (\<exists>s \<in> set (Snapshot.goals snap). (GoalState.agent_id s, Goal.goal_id (GoalState.goal s)) = (TaskState.agent_id t, g))) \<and>
     (\<forall>s \<in> set (Snapshot.agents snap). agent_key s = TaskState.agent_id t \<longrightarrow> AgentState.status s \<noteq> AgentStatus.Offline)"

lemma placement_of_candidate:
  assumes "distinct (map task_key (Snapshot.tasks snap))" and "distinct (map agent_key (Snapshot.agents snap))"
    and "t \<in> set (Snapshot.tasks snap)"
  shows "(\<exists>c. placement_of since snap pol t = Candidate c) \<longleftrightarrow>
    dispatchable snap t \<and> (is_active (TaskState.status t) \<or>
      (\<exists>r \<in> {RetryLoop, LowConfidence, MissingEvidence}. r \<in> fst ` set (task_findings (env_of since snap pol) t)))"
proof -
  let ?e = "env_of since snap pol"
  let ?ds = "case bt_get (diagnostics_by_task (diagnostics (analyze_with_policy since snap pol))) (TaskState.agent_id t, spec_id t) of
      None \<Rightarrow> [] | Some v \<Rightarrow> v"
  have rules: "has_rule ?ds r \<longleftrightarrow> r \<in> fst ` set (task_findings ?e t)" for r
    unfolding diagnostics_by_task_rules by (rule reported_rule_iff [OF assms(1,3)])
  have no_intervention: "intervention_for (analyze_task ?e t) ?ds = None \<longleftrightarrow>
      \<not> completion_mismatch t \<and> task_key t \<notin> env_cycle ?e \<and> snd (dependency_state t (env_tasks ?e)) = [] \<and>
      \<not> (\<exists>g. TaskSpec.goal_id (TaskState.task t) = Some g \<and> (TaskState.agent_id t, g) \<notin> env_goals ?e)"
    unfolding intervention_for_def intervention_kind_def rules findings_rules by (auto split: if_splits)
  have action: "assignment_action (analyze_task ?e t) ?ds \<noteq> None \<longleftrightarrow> is_active (TaskState.status t) \<or>
      (\<exists>r \<in> {RetryLoop, LowConfidence, MissingEvidence}. r \<in> fst ` set (task_findings ?e t))"
    unfolding assignment_action_def rules findings_rules
    by (cases "TaskState.status t") (auto simp: is_active_def)
  have deps: "fst (dependency_state t (env_tasks ?e)) = [] \<and> snd (dependency_state t (env_tasks ?e)) = [] \<longleftrightarrow>
      (\<forall>d \<in> set (TaskSpec.depends_on (TaskState.task t)). \<exists>dep.
        bt_get (task_table (Snapshot.tasks snap)) (TaskState.agent_id t, d) = Some dep \<and> TaskState.status dep = TaskStatus.Succeeded)"
    using dependencies_resolved_iff [of t "env_tasks ?e"] by (simp add: prod_eq_iff)
  have goals: "(\<exists>g. TaskSpec.goal_id (TaskState.task t) = Some g \<and> (TaskState.agent_id t, g) \<notin> env_goals ?e) \<longleftrightarrow>
      \<not> (\<forall>g. TaskSpec.goal_id (TaskState.task t) = Some g \<longrightarrow>
        (\<exists>s \<in> set (Snapshot.goals snap). (GoalState.agent_id s, Goal.goal_id (GoalState.goal s)) = (TaskState.agent_id t, g)))"
    unfolding unknown_goal by blast
  have "(\<exists>c. placement_of since snap pol t = Candidate c) \<longleftrightarrow>
      intervention_for (analyze_task ?e t) ?ds = None \<and>
      bt_get (agent_statuses snap) (TaskState.agent_id t) \<noteq> Some AgentStatus.Offline \<and>
      (fst (dependency_state t (env_tasks ?e)) = [] \<and> snd (dependency_state t (env_tasks ?e)) = []) \<and>
      assignment_action (analyze_task ?e t) ?ds \<noteq> None"
    unfolding placement_of_def place_task_def Let_def by (auto split: option.splits)
  then show ?thesis
    unfolding no_intervention action dispatchable_def goals agent_offline_iff [OF assms(2)] deps [symmetric]
    by auto
qed

section \<open>A plan for tasks on a cycle\<close>

text \<open>
  Tasks 1 on 2 and 3, 2 on 1 and 3 on 2, where 2 has succeeded: the search flags 1 and 2, and 3 is
  dispatched although it lies on a cycle.
\<close>

definition demo_1 :: TaskState where
  "demo_1 = demo_task ''1'' [''2'', ''3'']"

definition demo_2 :: TaskState where
  "demo_2 = (demo_task ''2'' [''1''])\<lparr>TaskState.status := TaskStatus.Succeeded, TaskState.outcome := Some TaskOutcome.Succeeded,
     TaskState.progress := f32_one\<rparr>"

definition demo_3 :: TaskState where
  "demo_3 = demo_task ''3'' [''2'']"

abbreviation demo_missed :: "TaskState list" where
  "demo_missed \<equiv> [demo_1, demo_2, demo_3]"

lemma demo_missed_members: "dependency_cycle_members (task_table demo_missed) = {(''a'', ''1''), (''a'', ''2'')}"
  by code_simp

lemma demo_missed_sel:
  "task_key demo_1 = (''a'', ''1'')" "task_key demo_2 = (''a'', ''2'')" "task_key demo_3 = (''a'', ''3'')"
  "TaskState.agent_id demo_3 = ''a''" "TaskSpec.depends_on (TaskState.task demo_3) = [''2'']"
  "TaskSpec.goal_id (TaskState.task demo_3) = None" "TaskState.status demo_3 = TaskStatus.Pending"
  "TaskState.status demo_2 = TaskStatus.Succeeded" "TaskState.outcome demo_3 = None"
  "TaskSpec.depends_on (TaskState.task demo_1) = [''2'', ''3'']" "TaskSpec.depends_on (TaskState.task demo_2) = [''1'']"
  by (simp_all add: demo_1_def demo_2_def demo_3_def demo_task_def task_from_spec_def task_key_def)

lemma demo_snapshot_sel:
  "Snapshot.tasks (demo_store_snapshot ts) = ts" "Snapshot.agents (demo_store_snapshot ts) = []" "Snapshot.goals (demo_store_snapshot ts) = []"
  by (simp_all add: demo_store_snapshot_def Let_def)

lemma demo_missed_get:
  "bt_get (task_table demo_missed) (''a'', ''1'') = Some demo_1"
  "bt_get (task_table demo_missed) (''a'', ''2'') = Some demo_2"
  "bt_get (task_table demo_missed) (''a'', ''3'') = Some demo_3"
  unfolding task_table_def bt_get_collect by (simp_all add: demo_missed_sel)

lemma demo_missed_dispatchable:
  "\<not> dispatchable (demo_store_snapshot demo_missed) demo_1" "\<not> dispatchable (demo_store_snapshot demo_missed) demo_2"
  "dispatchable (demo_store_snapshot demo_missed) demo_3"
  unfolding dispatchable_def demo_snapshot_sel demo_missed_members
  by (simp_all add: demo_missed_sel demo_missed_get completion_mismatch_def is_terminal_def)

lemma plan_default: "\<exists>plan. build_plan since snap = Inr plan"
  by (simp add: build_plan_def build_plan_with_policy_def validate_planning_policy_def planning_policy_default_def
      guard_err_def ok_def run_checks.simps)

lemma demo_missed_plan:
  "\<exists>plan c. build_plan (\<lambda>_ _. 0) (demo_store_snapshot demo_missed) = Inr plan \<and> c \<in> set (CoordinationPlan.assignments plan) \<and>
     assignment_key c = (''a'', ''3'')"
proof -
  let ?snap = "demo_store_snapshot demo_missed"
  obtain plan where plan: "build_plan (\<lambda>_ _. 0) ?snap = Inr plan" using plan_default by blast
  have "distinct (map task_key (Snapshot.tasks ?snap))" "distinct (map agent_key (Snapshot.agents ?snap))"
    by (simp_all add: demo_snapshot_sel demo_missed_sel)
  note candidate = placement_of_candidate [OF this, unfolded demo_snapshot_sel]
  show ?thesis
  proof (rule plan_lists [OF plan [unfolded build_plan_def]], goal_cases)
    case (1 ps sel rest)
    note places = plan_placements_set [of ?snap "\<lambda>_ _. 0" analysis_policy_default, unfolded demo_snapshot_sel, folded 1(1)]
    obtain c where c: "placement_of (\<lambda>_ _. 0) ?snap analysis_policy_default demo_3 = Candidate c"
      using candidate [of demo_3] demo_missed_dispatchable(3) by (auto simp: demo_missed_sel is_active_def)
    have "Candidate c' \<noteq> placement_of (\<lambda>_ _. 0) ?snap analysis_policy_default demo_1"
      "Candidate c' \<noteq> placement_of (\<lambda>_ _. 0) ?snap analysis_policy_default demo_2" for c'
      using candidate [of demo_1 "\<lambda>_ _. 0" analysis_policy_default] candidate [of demo_2 "\<lambda>_ _. 0" analysis_policy_default]
        demo_missed_dispatchable(1,2) by (metis list.set_intros)+
    with places c have only: "set (placed_candidates ps) = {c}"
      by (auto simp: placed_candidates_set)
    moreover have "assignment_key c = (''a'', ''3'')"
      using place_task_key [of _ _ _ "analyze_task (env_of (\<lambda>_ _. 0) ?snap analysis_policy_default) demo_3"] c
        demo_missed_sel(3) unfolding placement_of_def by (metis analyze_task_sel(1,2) task_key_def)
    moreover have "sel \<noteq> []"
      by (rule selection_nonempty [OF 1(2)]) (use only assignment_sort.set_sort_by [of "placed_candidates ps"] in \<open>auto simp: planning_policy_default_def\<close>)
    moreover have "set sel \<subseteq> set (placed_candidates ps)"
      using selection_parts(5) [OF 1(2)] by (simp add: assignment_sort.set_sort_by)
    ultimately show ?thesis
      using plan 1(3) by (metis last_in_set singletonD subsetD)
  qed
qed

section \<open>Properties of plans\<close>

theorem plan_accounts_for_every_task_witness:
  "\<exists>plan. build_plan (\<lambda>_ _. 0) (demo_store_snapshot demo_missed) = Inr plan \<and>
     length (CoordinationPlan.assignments plan) +
      (length (CoordinationPlan.interventions plan) + omitted_interventions (CoordinationPlan.summary plan)) +
      (length (CoordinationPlan.held_tasks plan) + omitted_holds (CoordinationPlan.summary plan)) = 3"
proof -
  obtain plan where plan: "build_plan (\<lambda>_ _. 0) (demo_store_snapshot demo_missed) = Inr plan" using plan_default by blast
  with plan_accounts_for_every_task [OF plan [unfolded build_plan_def]] show ?thesis by (simp add: demo_snapshot_sel)
qed

text \<open>
  C15: a plan respects its policy: no more assignments in total and per agent, interventions and
  holds than configured, and assignments are emitted whenever a task can be dispatched.
\<close>

theorem plan_respects_policy:
  assumes "build_plan_with_policy since snap apol ppol = Inr plan"
  shows "length (CoordinationPlan.assignments plan) \<le> max_assignments ppol \<and>
    (\<forall>a. length (filter (\<lambda>c. Assignment.agent_id c = a) (CoordinationPlan.assignments plan)) \<le> max_assignments_per_agent ppol) \<and>
    length (CoordinationPlan.interventions plan) \<le> max_interventions ppol \<and>
    length (CoordinationPlan.held_tasks plan) \<le> max_holds ppol \<and>
    (CoordinationPlan.assignments plan = [] \<longleftrightarrow> assignment_candidates (CoordinationPlan.summary plan) = 0)"
proof (rule plan_lists [OF assms], goal_cases)
  case (1 ps sel rest)
  note parts = selection_parts [OF 1(2)]
  have "0 < max_assignments ppol" "0 < max_assignments_per_agent ppol"
    using assms by (auto simp: build_plan_with_policy_def validate_planning_policy_def run_checks_ok split: sum.splits)
  with selection_nonempty [OF 1(2)] have "sort_by assignment_order (placed_candidates ps) \<noteq> [] \<Longrightarrow> sel \<noteq> []" by blast
  with parts(2) have "sel = [] \<longleftrightarrow> length (placed_candidates ps) = 0"
    by (metis add_is_0 assignment_sort.length_sort_by length_0_conv)
  then show ?thesis
    using parts(3,4) by (simp add: 1(3-6) queue_of_def [symmetric])
qed

theorem plan_respects_policy_witness:
  "\<exists>plan. build_plan (\<lambda>_ _. 0) (demo_store_snapshot demo_missed) = Inr plan \<and>
     length (filter (\<lambda>c. Assignment.agent_id c = ''a'') (CoordinationPlan.assignments plan)) \<le> 2"
proof -
  obtain plan where plan: "build_plan (\<lambda>_ _. 0) (demo_store_snapshot demo_missed) = Inr plan" using plan_default by blast
  with plan_respects_policy [OF plan [unfolded build_plan_def]] show ?thesis by (simp add: planning_policy_default_def)
qed

lemma plan_assignment_placed:
  assumes "build_plan_with_policy since snap apol ppol = Inr plan" and "c \<in> set (CoordinationPlan.assignments plan)"
  shows "\<exists>t \<in> set (Snapshot.tasks snap). placement_of since snap apol t = Candidate c"
proof (rule plan_lists [OF assms(1)], goal_cases)
  case (1 ps sel rest)
  have "set sel \<subseteq> set (placed_candidates ps)"
    using selection_parts(5) [OF 1(2)] by (simp add: assignment_sort.set_sort_by)
  with assms(2) 1(3) have "Candidate c \<in> set ps" by (auto simp: placed_candidates_set)
  then show ?thesis unfolding 1(1) plan_placements_set by auto
qed

lemma placed_candidate_key:
  assumes "placement_of since snap apol t = Candidate c"
  shows "task_key t = assignment_key c \<and> TaskSpec.goal_id (TaskState.task t) = Assignment.goal_id c"
  using assms unfolding placement_of_def
  by (auto simp: place_task_def Let_def make_assignment_def task_key_def split: option.splits if_splits)

lemma plan_assigns_something:
  assumes "distinct (map task_key (Snapshot.tasks snap))" and "distinct (map agent_key (Snapshot.agents snap))"
    and plan: "build_plan_with_policy since snap apol ppol = Inr plan"
    and t: "t \<in> set (Snapshot.tasks snap)" "dispatchable snap t" "is_active (TaskState.status t)"
  shows "CoordinationPlan.assignments plan \<noteq> []"
proof (rule plan_lists [OF plan], goal_cases)
  case (1 ps sel rest)
  obtain c where "placement_of since snap apol t = Candidate c"
    using placement_of_candidate [OF assms(1,2) t(1)] t(2,3) by blast
  then have "Candidate c \<in> set ps" unfolding 1(1) plan_placements_set using t(1) by force
  then have "sort_by assignment_order (placed_candidates ps) \<noteq> []"
    by (metis assignment_sort.set_sort_by empty_iff empty_set placed_candidates_set)
  moreover have "0 < max_assignments ppol" "0 < max_assignments_per_agent ppol"
    using plan by (auto simp: build_plan_with_policy_def validate_planning_policy_def run_checks_ok split: sum.splits)
  ultimately have "sel \<noteq> []" by (rule selection_nonempty [OF 1(2)])
  with 1(3) show ?thesis by simp
qed

text \<open>What an assignment needs, stated on the snapshot alone.\<close>

definition ready :: "Snapshot \<Rightarrow> TaskState \<Rightarrow> bool" where
  "ready snap t \<longleftrightarrow>
     (\<forall>d \<in> set (TaskSpec.depends_on (TaskState.task t)).
        \<exists>t' \<in> set (Snapshot.tasks snap). task_key t' = (TaskState.agent_id t, d) \<and> TaskState.status t' = TaskStatus.Succeeded) \<and>
     consistent_completion t \<and>
     (\<forall>g. TaskSpec.goal_id (TaskState.task t) = Some g \<longrightarrow> declared_goal snap (TaskState.agent_id t) g) \<and>
     (\<forall>s \<in> set (Snapshot.agents snap). agent_key s = TaskState.agent_id t \<longrightarrow> AgentState.status s \<noteq> AgentStatus.Offline)"

lemma dispatchable_iff:
  assumes "distinct (map task_key (Snapshot.tasks snap))"
  shows "dispatchable snap t \<longleftrightarrow> ready snap t \<and> task_key t \<notin> dependency_cycle_members (task_table (Snapshot.tasks snap))"
  unfolding dispatchable_def ready_def task_table_get [OF assms] completion_mismatch_iff declared_goal_def prod.inject by blast

lemma assigned_dispatchable:
  assumes "distinct (map task_key (Snapshot.tasks snap))" and "distinct (map agent_key (Snapshot.agents snap))"
    and "build_plan_with_policy since snap apol ppol = Inr plan" and "c \<in> set (CoordinationPlan.assignments plan)"
  shows "\<exists>t \<in> set (Snapshot.tasks snap).
    task_key t = assignment_key c \<and> TaskSpec.goal_id (TaskState.task t) = Assignment.goal_id c \<and> dispatchable snap t"
proof -
  obtain t where t: "t \<in> set (Snapshot.tasks snap)" "placement_of since snap apol t = Candidate c"
    using plan_assignment_placed [OF assms(3,4)] by blast
  then have "dispatchable snap t" using placement_of_candidate [OF assms(1,2) t(1)] by blast
  with t(1) placed_candidate_key [OF t(2)] show ?thesis by blast
qed

text \<open>A task of a deadlocked set that is ready waits for a finished one.\<close>

lemma ready_waits_for_finished:
  assumes "distinct (map task_key (Snapshot.tasks snap))" and "t \<in> set (Snapshot.tasks snap)" "ready snap t"
    and "deadlocked (Snapshot.tasks snap) C" "task_key t \<in> C"
  shows "\<exists>t' \<in> set (Snapshot.tasks snap). task_key t' \<in> C \<and> TaskState.status t' = TaskStatus.Succeeded"
proof -
  obtain k where k: "k \<in> C" "waits_for (Snapshot.tasks snap) (task_key t) k"
    using assms(4,5) unfolding deadlocked_def by blast
  have own: "t' = t" if "t' \<in> set (Snapshot.tasks snap)" "task_key t' = task_key t" for t'
    using assms(1,2) that by (auto simp: distinct_map inj_on_def)
  have "fst k = TaskState.agent_id t" "snd k \<in> set (TaskSpec.depends_on (TaskState.task t))"
    using k(2) own by (auto simp: waits_for_def task_key_def)
  then have "\<exists>t' \<in> set (Snapshot.tasks snap). task_key t' = k \<and> TaskState.status t' = TaskStatus.Succeeded"
    using assms(3) by (metis prod.collapse ready_def)
  with k(1) show ?thesis by blast
qed

text \<open>
  C16: every assignment is safe, stated on the snapshot alone. It names a retained task whose dependencies are all retained and
  have succeeded, whose status, outcome and progress agree, whose goal is declared, and whose agent is not offline. No task
  of a cycle of unfinished tasks is assigned, and of every dependency cycle at least two neighbours are not assigned. A task on a
  cycle that the cycle search misses is assigned once the tasks it waits for have succeeded, as \<open>plan_dispatches_task_on_cycle\<close> shows.
\<close>

theorem assignments_are_safe:
  assumes "distinct (map task_key (Snapshot.tasks snap))" and "distinct (map agent_key (Snapshot.agents snap))"
    and "build_plan_with_policy since snap apol ppol = Inr plan"
  shows "(\<forall>c \<in> set (CoordinationPlan.assignments plan). \<exists>t \<in> set (Snapshot.tasks snap).
      task_key t = assignment_key c \<and> TaskSpec.goal_id (TaskState.task t) = Assignment.goal_id c \<and> ready snap t) \<and>
    (\<forall>C. deadlocked (Snapshot.tasks snap) C \<longrightarrow>
      ((\<forall>t \<in> set (Snapshot.tasks snap). task_key t \<in> C \<longrightarrow> TaskState.status t \<noteq> TaskStatus.Succeeded) \<longrightarrow>
        C \<inter> assignment_key ` set (CoordinationPlan.assignments plan) = {}) \<and>
      (\<exists>k \<in> C. \<exists>k' \<in> C. waits_for (Snapshot.tasks snap) k k' \<and>
        {k, k'} \<inter> assignment_key ` set (CoordinationPlan.assignments plan) = {}))"
proof (intro conjI allI impI ballI)
  note assigned = assigned_dispatchable [OF assms]
  show "\<exists>t \<in> set (Snapshot.tasks snap).
      task_key t = assignment_key c \<and> TaskSpec.goal_id (TaskState.task t) = Assignment.goal_id c \<and> ready snap t"
    if "c \<in> set (CoordinationPlan.assignments plan)" for c
    using assigned [OF that] dispatchable_iff [OF assms(1)] by blast
  fix C assume C: "deadlocked (Snapshot.tasks snap) C"
  show "C \<inter> assignment_key ` set (CoordinationPlan.assignments plan) = {}"
    if unfinished: "\<forall>t \<in> set (Snapshot.tasks snap). task_key t \<in> C \<longrightarrow> TaskState.status t \<noteq> TaskStatus.Succeeded"
  proof (rule ccontr)
    assume "C \<inter> assignment_key ` set (CoordinationPlan.assignments plan) \<noteq> {}"
    then obtain c where c: "c \<in> set (CoordinationPlan.assignments plan)" "assignment_key c \<in> C" by blast
    with assigned [OF c(1)] obtain t where "t \<in> set (Snapshot.tasks snap)" "ready snap t" "task_key t \<in> C"
      using dispatchable_iff [OF assms(1)] by metis
    from ready_waits_for_finished [OF assms(1) this(1,2) C this(3)] unfinished show False by blast
  qed
  have flagged: "k \<notin> assignment_key ` set (CoordinationPlan.assignments plan)"
    if "k \<in> dependency_cycle_members (task_table (Snapshot.tasks snap))" for k
    using that assigned dispatchable_iff [OF assms(1)] by fastforce
  from deadlock_flagged [OF assms(1) C] flagged
  show "\<exists>k \<in> C. \<exists>k' \<in> C. waits_for (Snapshot.tasks snap) k k' \<and>
        {k, k'} \<inter> assignment_key ` set (CoordinationPlan.assignments plan) = {}" by blast
qed

text \<open>Two tasks, of which the first has succeeded and the second waits for it.\<close>

definition demo_ready :: "TaskState list" where
  "demo_ready = [(demo_task ''2'' [])\<lparr>TaskState.status := TaskStatus.Succeeded, TaskState.outcome := Some TaskOutcome.Succeeded,
     TaskState.progress := f32_one\<rparr>, demo_3]"

lemma demo_ready_facts:
  "distinct (map task_key demo_ready)" "demo_3 \<in> set demo_ready" "dispatchable (demo_store_snapshot demo_ready) demo_3"
proof -
  show d: "distinct (map task_key demo_ready)" and "demo_3 \<in> set demo_ready"
    by (simp_all add: demo_ready_def demo_3_def demo_task_def task_from_spec_def task_key_def)
  have "dependency_cycle_members (task_table demo_ready) = {}" by code_simp
  moreover have "ready (demo_store_snapshot demo_ready) demo_3"
    by (simp add: ready_def demo_snapshot_sel demo_missed_sel consistent_completion_def)
      (simp add: demo_ready_def demo_task_def task_from_spec_def task_key_def)
  ultimately show "dispatchable (demo_store_snapshot demo_ready) demo_3"
    using dispatchable_iff [of "demo_store_snapshot demo_ready"] d by (simp add: demo_snapshot_sel)
qed

theorem assignments_are_safe_witness:
  "\<exists>plan. build_plan (\<lambda>_ _. 0) (demo_store_snapshot demo_ready) = Inr plan \<and> CoordinationPlan.assignments plan \<noteq> [] \<and>
     (\<forall>c \<in> set (CoordinationPlan.assignments plan). \<exists>t \<in> set demo_ready. task_key t = assignment_key c \<and>
        ready (demo_store_snapshot demo_ready) t)"
proof -
  let ?snap = "demo_store_snapshot demo_ready"
  obtain plan where plan: "build_plan (\<lambda>_ _. 0) ?snap = Inr plan" using plan_default by blast
  have keys: "distinct (map task_key (Snapshot.tasks ?snap))" "distinct (map agent_key (Snapshot.agents ?snap))"
    using demo_ready_facts(1) by (simp_all add: demo_snapshot_sel)
  have "CoordinationPlan.assignments plan \<noteq> []"
    using plan_assigns_something [OF keys plan [unfolded build_plan_def], of demo_3] demo_ready_facts(2,3)
    by (simp add: demo_snapshot_sel demo_missed_sel is_active_def)
  with assignments_are_safe [OF keys plan [unfolded build_plan_def], THEN conjunct1] plan show ?thesis
    unfolding demo_snapshot_sel by blast
qed

text \<open>
  Every active task that can be dispatched is a candidate, so only the limits of the policy can
  hold it back; a finished task is a candidate only for a retry, evidence or confidence follow-up.
\<close>

theorem candidates_are_the_dispatchable_tasks:
  assumes "distinct (map task_key (Snapshot.tasks snap))" and "distinct (map agent_key (Snapshot.agents snap))"
    and "t \<in> set (Snapshot.tasks snap)"
  shows "(\<exists>c \<in> set (placed_candidates (plan_placements snap (analyze_with_policy since snap pol))). assignment_key c = task_key t) \<longleftrightarrow>
    dispatchable snap t \<and> (is_active (TaskState.status t) \<or>
      retry_loop_attempts (policy_normalized pol) \<le> TaskState.attempt t \<and> TaskState.status t \<notin> {TaskStatus.Succeeded, TaskStatus.Canceled} \<or>
      (\<exists>f. confidence_of t = Some f \<and> f32_lt f (low_confidence_threshold (policy_normalized pol))) \<or>
      (f32_lt f32_zero (TaskState.progress t) \<or> is_terminal (TaskState.status t)) \<and> evidence_count_of t = 0)"
proof -
  have own: "t' = t" if "t' \<in> set (Snapshot.tasks snap)" "task_key t' = task_key t" for t'
    using assms(1,3) that by (auto simp: distinct_map inj_on_def)
  have key: "assignment_key c = task_key t'" if "placement_of since snap pol t' = Candidate c" for t' c
    using that place_task_key [of _ _ _ "analyze_task (env_of since snap pol) t'"]
    unfolding placement_of_def by (metis analyze_task_sel(1,2) task_key_def)
  have "(\<exists>c \<in> set (placed_candidates (plan_placements snap (analyze_with_policy since snap pol))). assignment_key c = task_key t) \<longleftrightarrow>
      (\<exists>c. placement_of since snap pol t = Candidate c)"
    unfolding placed_candidates_set plan_placements_set Bex_def image_iff using assms(3) own key by metis
  then show ?thesis
    unfolding placement_of_candidate [OF assms] findings_rules by simp
qed

theorem candidates_are_the_dispatchable_tasks_witness:
  "\<exists>c \<in> set (placed_candidates (plan_placements (demo_store_snapshot demo_missed)
       (analyze_with_policy (\<lambda>_ _. 0) (demo_store_snapshot demo_missed) analysis_policy_default))). assignment_key c = (''a'', ''3'')"
proof -
  have "distinct (map task_key (Snapshot.tasks (demo_store_snapshot demo_missed)))"
    "distinct (map agent_key (Snapshot.agents (demo_store_snapshot demo_missed)))"
    "demo_3 \<in> set (Snapshot.tasks (demo_store_snapshot demo_missed))"
    by (simp_all add: demo_snapshot_sel demo_missed_sel)
  from candidates_are_the_dispatchable_tasks [OF this, of "\<lambda>_ _. 0" analysis_policy_default] demo_missed_dispatchable(3)
  show ?thesis by (simp add: demo_missed_sel is_active_def del: placement_key.simps)
qed

text \<open>
  Planning fails exactly for a policy with a zero limit, and names the first one; every other
  policy, in particular the default, gives a plan.
\<close>

theorem plan_fails_exactly_for_zero_limits:
  "(case build_plan_with_policy since snap apol ppol of
      Inl err \<Rightarrow> err =
        (if max_assignments ppol = 0 then InvalidPolicy ''maximum assignments''
         else if max_assignments_per_agent ppol = 0 then InvalidPolicy ''maximum assignments per agent''
         else if max_interventions ppol = 0 then InvalidPolicy ''maximum interventions''
         else InvalidPolicy ''maximum holds'') \<and>
        0 \<in> {max_assignments ppol, max_assignments_per_agent ppol, max_interventions ppol, max_holds ppol}
    | Inr plan \<Rightarrow> 0 \<notin> {max_assignments ppol, max_assignments_per_agent ppol, max_interventions ppol, max_holds ppol} \<and>
        CoordinationPlan.planning_policy plan = ppol \<and> CoordinationPlan.revision plan = Snapshot.revision snap)"
  by (auto simp: build_plan_with_policy_def validate_planning_policy_def guard_err_def ok_def run_checks.simps
      plan_from_analysis_def Let_def analyze_with_policy_def prod.case_eq_if)

text \<open>
  C17: the plan depends on the content of the snapshot only: two snapshots that list the same tasks,
  goals, agents and events in any order give the same plan.
\<close>

theorem plan_order_independent:
  assumes "same_content s s'"
  shows "build_plan_with_policy since s apol ppol = build_plan_with_policy since s' apol ppol"
  unfolding build_plan_with_policy_def analysis_same_content [OF assms] plan_from_analysis_def placements_same_content [OF assms] ..

theorem plan_order_independent_witness:
  "build_plan (\<lambda>_ _. 0) (demo_store_snapshot [demo_1, demo_2, demo_3]) = build_plan (\<lambda>_ _. 0) (demo_store_snapshot [demo_3, demo_1, demo_2])"
  unfolding build_plan_def
  by (rule plan_order_independent)
    (simp add: same_content_def demo_store_snapshot_def Let_def demo_missed_sel add_mset_commute)

lemma unat_min: "unat (min a b) = min (unat a) (unat (b :: 'w::len word))"
  by (simp add: min_def word_le_nat_alt)

lemma staleness_bonus_seconds:
  "unat (staleness_bonus s) = min (nat (max s 0) mod 2 ^ 32 div 60) 100"
proof -
  have "unat (word_of_int (max s 0) :: u32) = nat (max s 0) mod 2 ^ 32"
    by (simp add: unat_eq_nat_uint uint_word_of_int nat_mod_distrib)
  then show ?thesis by (simp add: staleness_bonus_def unat_min unat_div)
qed

text \<open>
  The priority of an assignment is the plain sum of its parts, no addition saturates, and it is
  at most 1230. The staleness part is computed from the low 32 bits of the seconds.
\<close>

theorem assignment_priority_exact:
  "unat (assignment_priority t ds a) =
     unat (action_base_priority a) + (if TaskAnalysis.on_critical_path t then 100 else 0) + unat (max_severity_bonus ds) +
     5 * min (unat (TaskAnalysis.attempt t)) 10 + min (nat (max (stale_for_seconds t) 0) mod 2 ^ 32 div 60) 100 \<and>
   unat (max_severity_bonus ds) \<le> 80 \<and> unat (assignment_priority t ds a) \<le> 1230"
proof -
  have "unat (fold (\<lambda>d m. max m (severity_bonus (severity d))) ds m) \<le> 80" if "unat m \<le> 80" for m
    using that
  proof (induction ds arbitrary: m)
    case (Cons d ds)
    have "unat (severity_bonus (severity d)) \<le> 80" by (cases "severity d") simp_all
    with Cons.prems have "unat (max m (severity_bonus (severity d))) \<le> 80" by (simp add: max_def)
    then show ?case using Cons.IH by simp
  qed simp
  from this [of 0] have sev: "unat (max_severity_bonus ds) \<le> 80" by (simp add: max_severity_bonus_def)
  have att: "unat (sat_mul (min (TaskAnalysis.attempt t) 10) 5) = 5 * min (unat (TaskAnalysis.attempt t)) 10"
    by (simp add: unat_sat_mul min_def word_le_nat_alt)
  have base: "unat (action_base_priority a) \<le> 900" by (cases a) simp_all
  show ?thesis
    using sev base
    by (auto simp: assignment_priority_def unat_sat_add att staleness_bonus_seconds)
qed

text \<open>
  A task on a dependency cycle can be dispatched: with the dependencies 1 on 2 and 3, 2 on 1,
  and 3 on 2, and task 2 finished, the default plan assigns task 3.
\<close>

theorem plan_dispatches_task_on_cycle:
  "\<exists>snap plan c. build_plan (\<lambda>_ _. 0) snap = Inr plan \<and> c \<in> set (CoordinationPlan.assignments plan) \<and>
     (dep_edge (task_table (Snapshot.tasks snap)))\<^sup>+\<^sup>+ (assignment_key c) (assignment_key c)"
proof -
  obtain plan c where plan: "build_plan (\<lambda>_ _. 0) (demo_store_snapshot demo_missed) = Inr plan"
    and c: "c \<in> set (CoordinationPlan.assignments plan)" "assignment_key c = (''a'', ''3'')"
    using demo_missed_plan by blast
  have "dep_edge (task_table demo_missed) (''a'', ''3'') (''a'', ''2'')"
    "dep_edge (task_table demo_missed) (''a'', ''2'') (''a'', ''1'')"
    "dep_edge (task_table demo_missed) (''a'', ''1'') (''a'', ''3'')"
    by (simp_all add: dep_edge_def demo_missed_get demo_missed_sel)
  then have "(dep_edge (task_table demo_missed))\<^sup>+\<^sup>+ (''a'', ''3'') (''a'', ''3'')"
    by (meson tranclp.r_into_trancl tranclp.trancl_into_trancl)
  with plan c show ?thesis
    by (metis demo_snapshot_sel(1))
qed

end
