(* ===== verification/Explorer.thy ===== *)
theory Explorer
  imports Store
begin

text \<open>
  The explorer (\<open>src/explorer.rs\<close>): the retained agents, lessons and events in a fixed order, cut
  at the limits of the policy, and the sessions summarized from the retained events.

  The textual form of an identifier belongs to the crate \<open>uuid\<close> and the difference of two instants
  to \<open>chrono\<close>; they are the arguments \<open>uuid_str\<close> and \<open>since\<close>. A \<open>BTreeSet\<close> is a set, listed in
  increasing order when it is collected.
\<close>

section \<open>Types\<close>

definition MAX_TIMELINE_LIMIT :: nat where "MAX_TIMELINE_LIMIT = 250"
definition MAX_SESSION_LIMIT :: nat where "MAX_SESSION_LIMIT = 250"
definition MAX_LESSON_LIMIT :: nat where "MAX_LESSON_LIMIT = 1000"

record ExplorerPolicy =
  timeline_limit :: nat
  session_limit :: nat
  lesson_limit :: nat

definition explorer_policy_default :: ExplorerPolicy where
  "explorer_policy_default = \<lparr>timeline_limit = 100, session_limit = 100, lesson_limit = 250\<rparr>"

datatype ExplorerError = InvalidExplorerLimit string nat

definition validate_limit :: "string \<Rightarrow> nat \<Rightarrow> nat \<Rightarrow> ExplorerError check" where
  "validate_limit name value maximum = guard_err (value = 0 \<or> value > maximum) (InvalidExplorerLimit name maximum)"

definition validate_explorer_policy :: "ExplorerPolicy \<Rightarrow> ExplorerError check" where
  "validate_explorer_policy p = run_checks
     [validate_limit ''timeline_limit'' (timeline_limit p) MAX_TIMELINE_LIMIT,
      validate_limit ''session_limit'' (session_limit p) MAX_SESSION_LIMIT,
      validate_limit ''lesson_limit'' (lesson_limit p) MAX_LESSON_LIMIT]"

record SessionSummary =
  session_id :: string
  agent_ids :: "string list"
  task_ids :: "string list"
  event_kinds :: "(string, u64) BTreeMap"
  transports :: "(string, u64) BTreeMap"
  event_count :: u64
  first_occurred_at :: DateTime
  last_occurred_at :: DateTime
  latest_event_id :: string
  latest_event_kind :: string
  latest_task_id :: "string option"

record SystemSummary =
  uptime_seconds :: u64
  agents :: nat
  goals :: nat
  tasks :: nat
  lessons :: nat
  retained_events :: nat
  retained_sessions :: nat
  caches :: CacheSnapshot
  counters :: Counters

record RetentionSummary =
  total_timeline_events :: nat
  returned_timeline_events :: nat
  omitted_timeline_events :: nat
  total_sessions :: nat
  returned_sessions :: nat
  omitted_sessions :: nat
  total_lessons :: nat
  returned_lessons :: nat
  omitted_lessons :: nat

record ExplorerSnapshot =
  generated_at :: DateTime
  started_at :: DateTime
  revision :: u64
  agents :: "AgentState list"
  sessions :: "SessionSummary list"
  lessons :: "LessonState list"
  timeline :: "EventRecord list"
  system :: SystemSummary
  retention :: RetentionSummary
  policy :: ExplorerPolicy

section \<open>Sessions\<close>

record SessionAccumulator =
  agent_ids :: "string set"
  task_ids :: "string set"
  event_kinds :: "(string, u64) BTreeMap"
  transports :: "(string, u64) BTreeMap"
  event_count :: u64
  first_occurred_at :: DateTime
  last_occurred_at :: DateTime
  latest_event_id :: string
  latest_event_kind :: string
  latest_task_id :: "string option"

abbreviation rec_time :: "EventRecord \<Rightarrow> DateTime" where
  "rec_time rec \<equiv> EventEnvelope.occurred_at (EventRecord.event rec)"

abbreviation rec_id :: "EventRecord \<Rightarrow> Uuid" where
  "rec_id rec \<equiv> EventEnvelope.event_id (EventRecord.event rec)"

abbreviation rec_agent :: "EventRecord \<Rightarrow> string" where
  "rec_agent rec \<equiv> AgentRef.agent_id (EventEnvelope.agent (EventRecord.event rec))"

abbreviation rec_task :: "EventRecord \<Rightarrow> string option" where
  "rec_task rec \<equiv> event_task_id (EventEnvelope.event (EventRecord.event rec))"

abbreviation rec_kind :: "EventRecord \<Rightarrow> string" where
  "rec_kind rec \<equiv> event_kind (EventEnvelope.event (EventRecord.event rec))"

abbreviation rec_session :: "EventRecord \<Rightarrow> string option" where
  "rec_session rec \<equiv> EventEnvelope.session_id (EventRecord.event rec)"

definition accumulator_new :: "(Uuid \<Rightarrow> string) \<Rightarrow> EventRecord \<Rightarrow> SessionAccumulator" where
  "accumulator_new uuid_str rec =
     \<lparr>SessionAccumulator.agent_ids = {rec_agent rec}, task_ids = set_option (rec_task rec),
      event_kinds = bt_insert (rec_kind rec) 1 [],
      transports = bt_insert (transport_as_str (EventRecord.transport rec)) 1 [],
      event_count = 1, first_occurred_at = rec_time rec, last_occurred_at = rec_time rec,
      latest_event_id = uuid_str (rec_id rec), latest_event_kind = rec_kind rec, latest_task_id = rec_task rec\<rparr>"

definition accumulator_observe :: "(Uuid \<Rightarrow> string) \<Rightarrow> EventRecord \<Rightarrow> SessionAccumulator \<Rightarrow> SessionAccumulator" where
  "accumulator_observe uuid_str rec acc =
     (let acc1 = acc\<lparr>
            SessionAccumulator.agent_ids := insert (rec_agent rec) (SessionAccumulator.agent_ids acc),
            SessionAccumulator.task_ids := set_option (rec_task rec) \<union> SessionAccumulator.task_ids acc,
            SessionAccumulator.event_kinds := bt_update (rec_kind rec) 0 (\<lambda>n. n + 1) (SessionAccumulator.event_kinds acc),
            SessionAccumulator.transports :=
              bt_update (transport_as_str (EventRecord.transport rec)) 0 (\<lambda>n. n + 1) (SessionAccumulator.transports acc),
            SessionAccumulator.event_count := sat_add (SessionAccumulator.event_count acc) 1,
            SessionAccumulator.first_occurred_at := min (SessionAccumulator.first_occurred_at acc) (rec_time rec)\<rparr>
      in if rec_time rec > SessionAccumulator.last_occurred_at acc \<or>
            (rec_time rec = SessionAccumulator.last_occurred_at acc \<and> uuid_str (rec_id rec) > SessionAccumulator.latest_event_id acc)
         then acc1\<lparr>
            SessionAccumulator.last_occurred_at := rec_time rec,
            SessionAccumulator.latest_event_id := uuid_str (rec_id rec),
            SessionAccumulator.latest_event_kind := rec_kind rec,
            SessionAccumulator.latest_task_id := rec_task rec\<rparr>
         else acc1)"

definition accumulator_finish :: "string \<Rightarrow> SessionAccumulator \<Rightarrow> SessionSummary" where
  "accumulator_finish sid acc =
     \<lparr>SessionSummary.session_id = sid,
      agent_ids = sorted_list_of_set (SessionAccumulator.agent_ids acc),
      task_ids = sorted_list_of_set (SessionAccumulator.task_ids acc),
      event_kinds = SessionAccumulator.event_kinds acc, transports = SessionAccumulator.transports acc,
      event_count = SessionAccumulator.event_count acc,
      first_occurred_at = SessionAccumulator.first_occurred_at acc,
      last_occurred_at = SessionAccumulator.last_occurred_at acc,
      latest_event_id = SessionAccumulator.latest_event_id acc,
      latest_event_kind = SessionAccumulator.latest_event_kind acc,
      latest_task_id = SessionAccumulator.latest_task_id acc\<rparr>"

definition observe_record ::
  "(Uuid \<Rightarrow> string) \<Rightarrow> EventRecord \<Rightarrow> (string, SessionAccumulator) BTreeMap \<Rightarrow> (string, SessionAccumulator) BTreeMap" where
  "observe_record uuid_str rec m =
     (case rec_session rec of
        None \<Rightarrow> m
      | Some sid \<Rightarrow>
          (case bt_get m sid of
             Some acc \<Rightarrow> bt_insert sid (accumulator_observe uuid_str rec acc) m
           | None \<Rightarrow> bt_insert sid (accumulator_new uuid_str rec) m))"

definition session_summaries :: "(Uuid \<Rightarrow> string) \<Rightarrow> EventRecord list \<Rightarrow> SessionSummary list" where
  "session_summaries uuid_str recs =
     map (\<lambda>(sid, acc). accumulator_finish sid acc) (fold (observe_record uuid_str) recs [])"

section \<open>The explorer\<close>

definition agent_id_cmp :: "AgentState \<Rightarrow> AgentState \<Rightarrow> ordering" where
  "agent_id_cmp l r = cmp (AgentRef.agent_id (AgentState.agent l)) (AgentRef.agent_id (AgentState.agent r))"

definition lesson_cmp :: "LessonState \<Rightarrow> LessonState \<Rightarrow> ordering" where
  "lesson_cmp l r =
     then_with (cmp (learned_at r) (learned_at l))
       (then_with (cmp (LessonState.agent_id l) (LessonState.agent_id r))
         (cmp (Lesson.lesson_id (LessonState.lesson l)) (Lesson.lesson_id (LessonState.lesson r))))"

definition explorer_event_cmp :: "EventRecord \<Rightarrow> EventRecord \<Rightarrow> ordering" where
  "explorer_event_cmp l r = then_with (cmp (rec_time r) (rec_time l)) (cmp (rec_id r) (rec_id l))"

definition session_cmp :: "SessionSummary \<Rightarrow> SessionSummary \<Rightarrow> ordering" where
  "session_cmp l r =
     then_with (cmp (SessionSummary.last_occurred_at r) (SessionSummary.last_occurred_at l))
       (cmp (SessionSummary.session_id l) (SessionSummary.session_id r))"

definition explorer_body ::
  "(Uuid \<Rightarrow> string) \<Rightarrow> (DateTime \<Rightarrow> DateTime \<Rightarrow> int) \<Rightarrow> Snapshot \<Rightarrow> ExplorerPolicy \<Rightarrow> ExplorerSnapshot" where
  "explorer_body uuid_str since snap pol =
     (let all_lessons = sort_by lesson_cmp (Snapshot.lessons snap);
          shown_lessons = take (lesson_limit pol) all_lessons;
          all_events = sort_by explorer_event_cmp (Snapshot.recent_events snap);
          all_sessions = sort_by session_cmp (session_summaries uuid_str all_events);
          shown_events = take (timeline_limit pol) all_events;
          shown_sessions = take (session_limit pol) all_sessions
      in \<lparr>ExplorerSnapshot.generated_at = Snapshot.generated_at snap, started_at = Snapshot.started_at snap,
          revision = Snapshot.revision snap, agents = sort_by agent_id_cmp (Snapshot.agents snap),
          sessions = shown_sessions, lessons = shown_lessons, timeline = shown_events,
          system = \<lparr>SystemSummary.uptime_seconds = word_of_int (max (since (Snapshot.generated_at snap) (Snapshot.started_at snap)) 0),
            agents = length (Snapshot.agents snap), goals = length (Snapshot.goals snap), tasks = length (Snapshot.tasks snap),
            lessons = length (Snapshot.lessons snap), retained_events = length all_events,
            retained_sessions = length all_sessions, caches = Snapshot.caches snap, counters = Snapshot.counters snap\<rparr>,
          retention = \<lparr>RetentionSummary.total_timeline_events = length all_events,
            returned_timeline_events = length shown_events,
            omitted_timeline_events = length all_events - length shown_events,
            total_sessions = length all_sessions, returned_sessions = length shown_sessions,
            omitted_sessions = length all_sessions - length shown_sessions,
            total_lessons = length all_lessons, returned_lessons = length shown_lessons,
            omitted_lessons = length all_lessons - length shown_lessons\<rparr>,
          policy = pol\<rparr>)"

definition build_explorer ::
  "(Uuid \<Rightarrow> string) \<Rightarrow> (DateTime \<Rightarrow> DateTime \<Rightarrow> int) \<Rightarrow> Snapshot \<Rightarrow> ExplorerPolicy \<Rightarrow> ExplorerError + ExplorerSnapshot" where
  "build_explorer uuid_str since snap pol =
     (case validate_explorer_policy pol of
        Inl err \<Rightarrow> Inl err
      | Inr _ \<Rightarrow> Inr (explorer_body uuid_str since snap pol))"

end
