(* ===== verification/ExplorerSpec.thy ===== *)
theory ExplorerSpec
  imports Explorer
begin

text \<open>
  The properties of the explorer: the sessions are exact summaries of the retained events, and the
  lists, their limits and the omissions add up.
\<close>

section \<open>What an accumulator knows\<close>

definition session_records :: "string \<Rightarrow> EventRecord list \<Rightarrow> EventRecord list" where
  "session_records sid recs = filter (\<lambda>rec. rec_session rec = Some sid) recs"

definition tally :: "string \<Rightarrow> string list \<Rightarrow> u64 option" where
  "tally k ks = (if k \<in> set ks then Some (of_nat (count_list ks k)) else None)"

definition rec_rank :: "(Uuid \<Rightarrow> string) \<Rightarrow> EventRecord \<Rightarrow> DateTime \<times> string" where
  "rec_rank uuid_str rec = (rec_time rec, uuid_str (rec_id rec))"

text \<open>The accumulator of a list of events: the newest event, with ties by identifier, is the latest one.\<close>

definition accumulates :: "(Uuid \<Rightarrow> string) \<Rightarrow> EventRecord list \<Rightarrow> SessionAccumulator \<Rightarrow> bool" where
  "accumulates uuid_str rs acc \<longleftrightarrow>
     SessionAccumulator.agent_ids acc = rec_agent ` set rs \<and>
     SessionAccumulator.task_ids acc = (\<Union>rec \<in> set rs. set_option (rec_task rec)) \<and>
     bt_wf (SessionAccumulator.event_kinds acc) \<and>
     (\<forall>k. bt_get (SessionAccumulator.event_kinds acc) k = tally k (map rec_kind rs)) \<and>
     bt_wf (SessionAccumulator.transports acc) \<and>
     (\<forall>k. bt_get (SessionAccumulator.transports acc) k = tally k (map (\<lambda>rec. transport_as_str (EventRecord.transport rec)) rs)) \<and>
     unat (SessionAccumulator.event_count acc) = min (length rs) (2 ^ 64 - 1) \<and>
     SessionAccumulator.first_occurred_at acc \<in> rec_time ` set rs \<and>
     (\<forall>rec \<in> set rs. SessionAccumulator.first_occurred_at acc \<le> rec_time rec) \<and>
     (\<exists>latest \<in> set rs.
        (SessionAccumulator.last_occurred_at acc, SessionAccumulator.latest_event_id acc) = rec_rank uuid_str latest \<and>
        SessionAccumulator.latest_event_kind acc = rec_kind latest \<and>
        SessionAccumulator.latest_task_id acc = rec_task latest \<and>
        (\<forall>rec \<in> set rs. rec_rank uuid_str rec \<le> rec_rank uuid_str latest))"

lemma lex_less: "(a, b) < (c, d) \<longleftrightarrow> a < c \<or> (a = c \<and> b < d)" for a c :: "'a::linorder" and b d :: "'b::linorder"
  by auto

lemma tally_single: "bt_get [(k, 1)] j = tally j [k]"
  by (simp add: tally_def bt_get_def)

lemma tally_snoc:
  assumes "bt_wf m" and "\<forall>j. bt_get m j = tally j ks"
  shows "bt_wf (bt_update k 0 (\<lambda>n. n + 1) m) \<and> bt_get (bt_update k 0 (\<lambda>n. n + 1) m) j = tally j (ks @ [k])"
  using assms by (auto simp: bt_wf_update bt_get_update tally_def count_list_0_iff split: option.splits)

lemma accumulates_new: "accumulates uuid_str [rec] (accumulator_new uuid_str rec)"
  by (auto simp: accumulates_def accumulator_new_def tally_single bt_wf_def rec_rank_def)

lemma newer_iff:
  "rec_time rec > t \<or> (rec_time rec = t \<and> uuid_str (rec_id rec) > u) \<longleftrightarrow> (t, u) < rec_rank uuid_str rec"
  unfolding rec_rank_def lex_less by auto

lemma observe_newer:
  assumes "(SessionAccumulator.last_occurred_at acc, SessionAccumulator.latest_event_id acc) < rec_rank uuid_str rec"
  shows "(SessionAccumulator.last_occurred_at (accumulator_observe uuid_str rec acc),
      SessionAccumulator.latest_event_id (accumulator_observe uuid_str rec acc)) = rec_rank uuid_str rec"
    and "SessionAccumulator.latest_event_kind (accumulator_observe uuid_str rec acc) = rec_kind rec"
    and "SessionAccumulator.latest_task_id (accumulator_observe uuid_str rec acc) = rec_task rec"
  using assms unfolding accumulator_observe_def newer_iff Let_def by (simp_all add: rec_rank_def)

lemma observe_older:
  assumes "\<not> (SessionAccumulator.last_occurred_at acc, SessionAccumulator.latest_event_id acc) < rec_rank uuid_str rec"
  shows "(SessionAccumulator.last_occurred_at (accumulator_observe uuid_str rec acc),
      SessionAccumulator.latest_event_id (accumulator_observe uuid_str rec acc)) =
      (SessionAccumulator.last_occurred_at acc, SessionAccumulator.latest_event_id acc)"
    and "SessionAccumulator.latest_event_kind (accumulator_observe uuid_str rec acc) = SessionAccumulator.latest_event_kind acc"
    and "SessionAccumulator.latest_task_id (accumulator_observe uuid_str rec acc) = SessionAccumulator.latest_task_id acc"
  using assms unfolding accumulator_observe_def newer_iff Let_def by simp_all

lemma accumulates_observe:
  assumes "accumulates uuid_str rs acc"
  shows "accumulates uuid_str (rs @ [rec]) (accumulator_observe uuid_str rec acc)"
proof -
  let ?acc = "accumulator_observe uuid_str rec acc"
  from assms obtain latest where latest: "latest \<in> set rs"
    "(SessionAccumulator.last_occurred_at acc, SessionAccumulator.latest_event_id acc) = rec_rank uuid_str latest"
    "SessionAccumulator.latest_event_kind acc = rec_kind latest" "SessionAccumulator.latest_task_id acc = rec_task latest"
    "\<forall>x \<in> set rs. rec_rank uuid_str x \<le> rec_rank uuid_str latest"
    unfolding accumulates_def by blast
  have "\<exists>l \<in> set (rs @ [rec]).
      (SessionAccumulator.last_occurred_at ?acc, SessionAccumulator.latest_event_id ?acc) = rec_rank uuid_str l \<and>
      SessionAccumulator.latest_event_kind ?acc = rec_kind l \<and> SessionAccumulator.latest_task_id ?acc = rec_task l \<and>
      (\<forall>x \<in> set (rs @ [rec]). rec_rank uuid_str x \<le> rec_rank uuid_str l)"
  proof (cases "rec_rank uuid_str latest < rec_rank uuid_str rec")
    case True
    then show ?thesis
      using latest(2,5) observe_newer [of acc uuid_str rec] by (intro bexI [of _ rec]) auto
  next
    case False
    then show ?thesis
      using latest observe_older [of acc uuid_str rec] by (intro bexI [of _ latest]) auto
  qed
  moreover have "SessionAccumulator.agent_ids ?acc = rec_agent ` set (rs @ [rec])"
    "SessionAccumulator.task_ids ?acc = (\<Union>x \<in> set (rs @ [rec]). set_option (rec_task x))"
    using assms by (auto simp: accumulates_def accumulator_observe_def Let_def)
  moreover have "bt_wf (SessionAccumulator.event_kinds ?acc)"
    "\<forall>k. bt_get (SessionAccumulator.event_kinds ?acc) k = tally k (map rec_kind (rs @ [rec]))"
    using tally_snoc [of "SessionAccumulator.event_kinds acc" "map rec_kind rs" "rec_kind rec"] assms
    by (auto simp: accumulates_def accumulator_observe_def Let_def)
  moreover have "bt_wf (SessionAccumulator.transports ?acc)"
    "\<forall>k. bt_get (SessionAccumulator.transports ?acc) k = tally k (map (\<lambda>x. transport_as_str (EventRecord.transport x)) (rs @ [rec]))"
    using tally_snoc [of "SessionAccumulator.transports acc" "map (\<lambda>x. transport_as_str (EventRecord.transport x)) rs"
        "transport_as_str (EventRecord.transport rec)"] assms
    by (auto simp: accumulates_def accumulator_observe_def Let_def)
  moreover have "unat (SessionAccumulator.event_count ?acc) = min (length (rs @ [rec])) (2 ^ 64 - 1)"
    using assms by (auto simp: accumulates_def accumulator_observe_def Let_def unat_sat_add)
  moreover have "SessionAccumulator.first_occurred_at ?acc = min (SessionAccumulator.first_occurred_at acc) (rec_time rec)"
    by (simp add: accumulator_observe_def Let_def)
  ultimately show ?thesis
    using assms unfolding accumulates_def by (auto simp: min_def)
qed

section \<open>The sessions of a list of events\<close>

lemma session_records_snoc:
  "session_records sid (recs @ [rec]) = session_records sid recs @ (if rec_session rec = Some sid then [rec] else [])"
  by (simp add: session_records_def)

definition sessions_ok :: "(Uuid \<Rightarrow> string) \<Rightarrow> EventRecord list \<Rightarrow> (string, SessionAccumulator) BTreeMap \<Rightarrow> bool" where
  "sessions_ok uuid_str recs m \<longleftrightarrow> bt_wf m \<and> (\<forall>sid. bt_get m sid = None \<longleftrightarrow> session_records sid recs = []) \<and>
     (\<forall>sid acc. bt_get m sid = Some acc \<longrightarrow> accumulates uuid_str (session_records sid recs) acc)"

lemma sessions_ok_observe:
  assumes "sessions_ok uuid_str recs m"
  shows "sessions_ok uuid_str (recs @ [rec]) (observe_record uuid_str rec m)"
proof (cases "rec_session rec")
  case None
  with assms show ?thesis by (simp add: sessions_ok_def observe_record_def session_records_snoc)
next
  case (Some sid)
  show ?thesis
  proof (cases "bt_get m sid")
    case None
    with Some have "observe_record uuid_str rec m = bt_insert sid (accumulator_new uuid_str rec) m"
      by (simp add: observe_record_def)
    moreover from None assms have "session_records sid recs = []" by (simp add: sessions_ok_def)
    ultimately show ?thesis
      using assms Some accumulates_new [of uuid_str rec]
      by (simp add: sessions_ok_def session_records_snoc bt_wf_insert bt_get_insert)
  next
    case acc: (Some acc)
    with assms have "accumulates uuid_str (session_records sid recs @ [rec]) (accumulator_observe uuid_str rec acc)"
      using accumulates_observe by (simp add: sessions_ok_def)
    moreover from Some acc have "observe_record uuid_str rec m = bt_insert sid (accumulator_observe uuid_str rec acc) m"
      by (simp add: observe_record_def)
    ultimately show ?thesis
      using assms Some by (simp add: sessions_ok_def session_records_snoc bt_wf_insert bt_get_insert)
  qed
qed

lemma sessions_ok_fold: "sessions_ok uuid_str recs (fold (observe_record uuid_str) recs [])"
proof (induction recs rule: rev_induct)
  case Nil
  then show ?case by (simp add: sessions_ok_def bt_wf_def bt_get_def session_records_def)
next
  case (snoc rec recs)
  then show ?case by (simp add: sessions_ok_observe)
qed

lemma accumulates_perm:
  assumes "mset rs = mset rs'"
  shows "accumulates uuid_str rs acc = accumulates uuid_str rs' acc"
proof -
  have "count_list (map f rs) k = count_list (map f rs') k" for f :: "EventRecord \<Rightarrow> string" and k
    using assms by (simp flip: count_mset add: mset_map)
  then have "tally k (map f rs) = tally k (map f rs')" for f and k
    using mset_eq_setD [OF assms] by (simp add: tally_def)
  moreover have "length rs = length rs'" using assms by (metis size_mset)
  ultimately show ?thesis
    unfolding accumulates_def using mset_eq_setD [OF assms] by simp
qed

lemma session_records_perm: "mset recs = mset recs' \<Longrightarrow> mset (session_records sid recs) = mset (session_records sid recs')"
  by (simp add: session_records_def)

text \<open>The summary of a session is that of all its retained events.\<close>

definition session_exact :: "(Uuid \<Rightarrow> string) \<Rightarrow> EventRecord list \<Rightarrow> SessionSummary \<Rightarrow> bool" where
  "session_exact uuid_str recs ss \<longleftrightarrow>
     (let rs = session_records (SessionSummary.session_id ss) recs in
      rs \<noteq> [] \<and> unat (SessionSummary.event_count ss) = length rs \<and>
      SessionSummary.agent_ids ss = sorted_list_of_set (rec_agent ` set rs) \<and>
      SessionSummary.task_ids ss = sorted_list_of_set (\<Union>rec \<in> set rs. set_option (rec_task rec)) \<and>
      (\<forall>k. bt_get (SessionSummary.event_kinds ss) k = tally k (map rec_kind rs)) \<and>
      (\<forall>k. bt_get (SessionSummary.transports ss) k = tally k (map (\<lambda>rec. transport_as_str (EventRecord.transport rec)) rs)) \<and>
      SessionSummary.first_occurred_at ss = Min (rec_time ` set rs) \<and>
      (\<exists>latest \<in> set rs.
        (SessionSummary.last_occurred_at ss, SessionSummary.latest_event_id ss) = rec_rank uuid_str latest \<and>
        SessionSummary.latest_event_kind ss = rec_kind latest \<and> SessionSummary.latest_task_id ss = rec_task latest \<and>
        (\<forall>rec \<in> set rs. rec_rank uuid_str rec \<le> rec_rank uuid_str latest)))"

lemma accumulates_exact:
  assumes "accumulates uuid_str (session_records sid recs) acc" and "session_records sid recs \<noteq> []" and "length recs < 2 ^ 64"
  shows "session_exact uuid_str recs (accumulator_finish sid acc)"
proof -
  let ?rs = "session_records sid recs"
  have "length ?rs \<le> length recs" by (simp add: session_records_def)
  with assms(3) have small: "min (length ?rs) (2 ^ 64 - 1) = length ?rs" by simp
  have "SessionAccumulator.first_occurred_at acc \<in> rec_time ` set ?rs"
    "\<forall>rec \<in> set ?rs. SessionAccumulator.first_occurred_at acc \<le> rec_time rec"
    using assms(1) by (auto simp: accumulates_def)
  then have "Min (rec_time ` set ?rs) = SessionAccumulator.first_occurred_at acc"
    by (intro Min_eqI) auto
  then show ?thesis
    using assms(1,2) small by (simp add: session_exact_def accumulates_def accumulator_finish_def Let_def)
qed

lemma session_summaries_exact:
  assumes "mset recs = mset recs'" and "length recs < 2 ^ 64"
  shows "\<forall>ss \<in> set (session_summaries uuid_str recs'). session_exact uuid_str recs ss"
    and "distinct (map SessionSummary.session_id (session_summaries uuid_str recs'))"
    and "SessionSummary.session_id ` set (session_summaries uuid_str recs') = {sid. session_records sid recs \<noteq> []}"
proof -
  let ?m = "fold (observe_record uuid_str) recs' []"
  have ok: "sessions_ok uuid_str recs' ?m" by (rule sessions_ok_fold)
  then have wf: "bt_wf ?m" by (simp add: sessions_ok_def)
  have ids: "map SessionSummary.session_id (session_summaries uuid_str recs') = bt_keys ?m"
    by (simp add: session_summaries_def bt_keys_def accumulator_finish_def comp_def case_prod_unfold)
  show "distinct (map SessionSummary.session_id (session_summaries uuid_str recs'))"
    unfolding ids by (rule bt.distinct_keys [OF wf])
  have "session_records sid recs' \<noteq> [] \<longleftrightarrow> session_records sid recs \<noteq> []" for sid
    using session_records_perm [OF assms(1), of sid] by auto
  moreover have "sid \<in> set (bt_keys ?m) \<longleftrightarrow> session_records sid recs' \<noteq> []" for sid
    using ok unfolding bt.keys_get [OF wf] sessions_ok_def by simp
  ultimately show "SessionSummary.session_id ` set (session_summaries uuid_str recs') = {sid. session_records sid recs \<noteq> []}"
    unfolding set_map [symmetric] ids by blast
  show "\<forall>ss \<in> set (session_summaries uuid_str recs'). session_exact uuid_str recs ss"
  proof
    fix ss
    assume "ss \<in> set (session_summaries uuid_str recs')"
    then obtain sid acc where ss: "ss = accumulator_finish sid acc" and "(sid, acc) \<in> set ?m"
      by (auto simp: session_summaries_def)
    then have "bt_get ?m sid = Some acc" using bt_get_mem [OF wf] by blast
    with ok have "accumulates uuid_str (session_records sid recs') acc" "session_records sid recs' \<noteq> []"
      unfolding sessions_ok_def by (blast, metis option.distinct(1))
    moreover have m: "mset (session_records sid recs) = mset (session_records sid recs')"
      using assms(1) by (rule session_records_perm)
    ultimately have "accumulates uuid_str (session_records sid recs) acc" "session_records sid recs \<noteq> []"
      using accumulates_perm [OF m] by (blast, metis mset_zero_iff)
    then show "session_exact uuid_str recs ss" using accumulates_exact [OF _ _ assms(2)] ss by blast
  qed
qed

section \<open>The explorer\<close>

lemma total_cmp_explorer:
  "total_cmp explorer_event_cmp" "total_cmp session_cmp" "total_cmp lesson_cmp" "total_cmp agent_id_cmp"
proof -
  show "total_cmp explorer_event_cmp" unfolding explorer_event_cmp_def [abs_def] by (rule total_cmp_intros)+
  show "total_cmp session_cmp" unfolding session_cmp_def [abs_def] by (rule total_cmp_intros)+
  show "total_cmp lesson_cmp" unfolding lesson_cmp_def [abs_def] by (rule total_cmp_intros)+
  show "total_cmp agent_id_cmp" unfolding agent_id_cmp_def [abs_def] by (rule total_cmp_key [OF total_cmp_linorder])
qed

interpretation event_sort: total_cmp explorer_event_cmp by (rule total_cmp_explorer)

interpretation session_sort: total_cmp session_cmp by (rule total_cmp_explorer)

interpretation lesson_sort: total_cmp lesson_cmp by (rule total_cmp_explorer)

lemma sorted_take_drop: "sorted_wrt R xs \<Longrightarrow> x \<in> set (take n xs) \<Longrightarrow> y \<in> set (drop n xs) \<Longrightarrow> R x y"
  by (metis append_take_drop_id sorted_wrt_append)

text \<open>
  C18: the explorer summarizes the sessions of the retained events exactly, also of those events
  that the limit keeps off the timeline: each returned session is listed once with the count, the
  agents, tasks, kinds and transports, the first and the latest of all its retained events; the
  total counts all sessions; and an omitted session was not active later than a returned one.
\<close>

theorem explorer_sessions_exact:
  assumes "build_explorer uuid_str since snap pol = Inr ex" and "length (Snapshot.recent_events snap) < 2 ^ 64"
  defines "recs \<equiv> Snapshot.recent_events snap"
  shows "list_all (session_exact uuid_str recs) (sessions ex) \<and> distinct (map SessionSummary.session_id (sessions ex)) \<and>
    total_sessions (retention ex) = card {sid. session_records sid recs \<noteq> []} \<and>
    length (sessions ex) = min (session_limit pol) (total_sessions (retention ex)) \<and>
    (\<forall>ss \<in> set (sessions ex). \<forall>rec \<in> set recs. \<forall>sid. rec_session rec = Some sid \<longrightarrow>
       sid \<in> SessionSummary.session_id ` set (sessions ex) \<or> rec_time rec \<le> SessionSummary.last_occurred_at ss)"
proof -
  let ?all = "sort_by session_cmp (session_summaries uuid_str (sort_by explorer_event_cmp recs))"
  have ex: "sessions ex = take (session_limit pol) ?all" "total_sessions (retention ex) = length ?all"
    using assms(1) by (auto simp: build_explorer_def explorer_body_def Let_def recs_def split: sum.splits)
  have perm: "mset recs = mset (sort_by explorer_event_cmp recs)" by (simp add: event_sort.mset_sort_by)
  note exact = session_summaries_exact [OF perm assms(2) [folded recs_def], of uuid_str]
  have set_all: "set ?all = set (session_summaries uuid_str (sort_by explorer_event_cmp recs))" by (rule session_sort.set_sort_by)
  have dist: "distinct (map SessionSummary.session_id ?all)"
    using exact(2) by (metis mset_map session_sort.mset_sort_by mset_eq_imp_distinct_iff)
  have "length ?all = card (set (map SessionSummary.session_id ?all))" using dist by (metis distinct_card length_map)
  then have total: "length ?all = card {sid. session_records sid recs \<noteq> []}" using exact(3) set_all by simp
  have late: "sid \<in> SessionSummary.session_id ` set (sessions ex) \<or> rec_time rec \<le> SessionSummary.last_occurred_at ss"
    if ss: "ss \<in> set (sessions ex)" and rec: "rec \<in> set recs" "rec_session rec = Some sid" for ss rec sid
  proof -
    have own: "rec \<in> set (session_records sid recs)" using rec by (simp add: session_records_def)
    then have "session_records sid recs \<noteq> []" by force
    then obtain ss' where ss': "ss' \<in> set ?all" "SessionSummary.session_id ss' = sid"
      using exact(3) set_all by (metis (mono_tags, lifting) imageE mem_Collect_eq)
    have "ss' \<in> set (take (session_limit pol) ?all) \<or> ss' \<in> set (drop (session_limit pol) ?all)"
      using ss'(1) by (metis Un_iff append_take_drop_id set_append)
    moreover have "SessionSummary.last_occurred_at ss' \<le> SessionSummary.last_occurred_at ss" if "ss' \<in> set (drop (session_limit pol) ?all)"
      using sorted_take_drop [OF session_sort.sorted_sort_by ss [unfolded ex(1)] that]
      by (auto simp: session_cmp_def then_with_not_greater)
    moreover have "rec_time rec \<le> SessionSummary.last_occurred_at ss'"
      using exact(1) ss' set_all own by (fastforce simp: session_exact_def Let_def rec_rank_def)
    ultimately show ?thesis using ss'(2) ex(1) by force
  qed
  have "list_all (session_exact uuid_str recs) (sessions ex)" "distinct (map SessionSummary.session_id (sessions ex))"
    using exact(1) dist set_all by (auto simp: ex(1) list_all_iff take_map [symmetric] dest: in_set_takeD)
  then show ?thesis using late total ex(2) by (simp add: ex)
qed

definition explorer_demo_record :: "Uuid \<Rightarrow> DateTime \<Rightarrow> string option \<Rightarrow> EventRecord" where
  "explorer_demo_record u t sid =
     \<lparr>EventRecord.event = (envelope_new u t \<lparr>AgentRef.agent_id = ''a'', provider = ''p'', model = ''m'', instance_id = None\<rparr>
        (TaskStarted \<lparr>TaskStartedData.task_id = ''t'', attempt = 1, plan_summary = None\<rparr>))\<lparr>EventEnvelope.session_id := sid\<rparr>,
      transport = Http, received_at = t\<rparr>"

definition demo_events :: Snapshot where
  "demo_events =
     (let z = \<lparr>CacheStats.len = 0, capacity = 1, evictions = 0, pressure = 0\<rparr> in
      \<lparr>Snapshot.generated_at = (9, 0), started_at = (0, 0), revision = 3, agents = [], goals = [], tasks = [], lessons = [],
       recent_events = [explorer_demo_record 1 (5, 0) (Some ''s''), explorer_demo_record 2 (7, 0) None, explorer_demo_record 3 (4, 0) (Some ''s'')],
       caches = \<lparr>CacheSnapshot.agents = z, goals = z, tasks = z, lessons = z, events = z, idempotency = z\<rparr>,
       counters = counters_default\<rparr>)"

lemma demo_events_recent:
  "Snapshot.recent_events demo_events = [explorer_demo_record 1 (5, 0) (Some ''s''), explorer_demo_record 2 (7, 0) None, explorer_demo_record 3 (4, 0) (Some ''s'')]"
  by (simp add: demo_events_def Let_def)

lemma demo_session: "{sid. session_records sid (Snapshot.recent_events demo_events) \<noteq> []} = {''s''}"
  by (auto simp: demo_events_recent session_records_def explorer_demo_record_def)

theorem explorer_sessions_exact_witness:
  "\<exists>ex. build_explorer (\<lambda>u. dec_int (uint u)) (\<lambda>_ _. 9) demo_events explorer_policy_default = Inr ex \<and>
     total_sessions (retention ex) = 1 \<and> list_all (session_exact (\<lambda>u. dec_int (uint u)) (Snapshot.recent_events demo_events)) (sessions ex)"
proof -
  obtain ex where ex: "build_explorer (\<lambda>u. dec_int (uint u)) (\<lambda>_ _. 9) demo_events explorer_policy_default = Inr ex"
    by (simp add: build_explorer_def validate_explorer_policy_def explorer_policy_default_def validate_limit_def guard_err_def
        ok_def run_checks.simps MAX_TIMELINE_LIMIT_def MAX_SESSION_LIMIT_def MAX_LESSON_LIMIT_def)
  have "length (Snapshot.recent_events demo_events) < 2 ^ 64" by (simp add: demo_events_recent)
  from explorer_sessions_exact [OF ex this] ex show ?thesis by (simp add: demo_session)
qed

text \<open>
  The explorer fails exactly for a limit outside its range and names the first such limit;
  otherwise what it returns and what it omits add up to what is retained, and events and lessons are
  returned newest first, so that nothing newer than a returned event is omitted.
\<close>

theorem explorer_accounts_for_omissions:
  "case build_explorer uuid_str since snap pol of
     Inl err \<Rightarrow> err =
       (if timeline_limit pol = 0 \<or> timeline_limit pol > 250 then InvalidExplorerLimit ''timeline_limit'' 250
        else if session_limit pol = 0 \<or> session_limit pol > 250 then InvalidExplorerLimit ''session_limit'' 250
        else InvalidExplorerLimit ''lesson_limit'' 1000) \<and>
       \<not> (timeline_limit pol \<in> {1..250} \<and> session_limit pol \<in> {1..250} \<and> lesson_limit pol \<in> {1..1000})
   | Inr ex \<Rightarrow> timeline_limit pol \<in> {1..250} \<and> session_limit pol \<in> {1..250} \<and> lesson_limit pol \<in> {1..1000} \<and>
       length (timeline ex) = min (timeline_limit pol) (length (Snapshot.recent_events snap)) \<and>
       length (timeline ex) + omitted_timeline_events (retention ex) = length (Snapshot.recent_events snap) \<and>
       length (ExplorerSnapshot.lessons ex) + omitted_lessons (retention ex) = length (Snapshot.lessons snap) \<and>
       length (sessions ex) + omitted_sessions (retention ex) = total_sessions (retention ex) \<and>
       sorted_wrt (\<lambda>l r. rec_time r \<le> rec_time l) (timeline ex) \<and>
       sorted_wrt (\<lambda>l r. learned_at r \<le> learned_at l) (ExplorerSnapshot.lessons ex) \<and>
       mset (timeline ex) \<subseteq># mset (Snapshot.recent_events snap)"
proof -
  have "sorted_wrt (\<lambda>l r. rec_time r \<le> rec_time l) (take n (sort_by explorer_event_cmp xs))" for n xs
    by (rule sorted_wrt_take, rule sorted_wrt_mono_rel [OF _ event_sort.sorted_sort_by])
      (auto simp: explorer_event_cmp_def then_with_not_greater)
  moreover have "sorted_wrt (\<lambda>l r. learned_at r \<le> learned_at l) (take n (sort_by lesson_cmp xs))" for n xs
    by (rule sorted_wrt_take, rule sorted_wrt_mono_rel [OF _ lesson_sort.sorted_sort_by])
      (auto simp: lesson_cmp_def then_with_not_greater)
  moreover have "mset (take n (sort_by explorer_event_cmp xs)) \<subseteq># mset xs" for n xs
    by (metis append_take_drop_id event_sort.mset_sort_by mset_append mset_subset_eq_add_left)
  ultimately show ?thesis
    by (auto simp: build_explorer_def validate_explorer_policy_def validate_limit_def guard_err_def ok_def run_checks.simps
        MAX_TIMELINE_LIMIT_def MAX_SESSION_LIMIT_def MAX_LESSON_LIMIT_def explorer_body_def Let_def
        event_sort.length_sort_by lesson_sort.length_sort_by)
qed

end
