(* ===== verification/Utf8.thy ===== *)
theory Utf8
  imports Prelude
begin

text \<open>
  Byte strings read from the operating system: UTF-8 validation (\<open>std::str::from_utf8\<close>), the lossy
  conversion that \<open>Path::display\<close> uses, and the text operations the process collector applies
  (\<open>lines\<close>, \<open>split_whitespace\<close>, \<open>rfind\<close>, \<open>contains\<close>, \<open>strip_prefix\<close>, \<open>parse\<close>).
\<close>

section \<open>Validation\<close>

definition utf8_cont :: "int \<Rightarrow> bool" where
  "utf8_cont b = (0x80 \<le> b \<and> b \<le> 0xBF)"

text \<open>The second byte of a sequence of three or four bytes: no surrogates, no overlong forms.\<close>

definition utf8_second :: "int \<Rightarrow> int \<Rightarrow> bool" where
  "utf8_second a b =
     (if a = 0xE0 then 0xA0 \<le> b \<and> b \<le> 0xBF
      else if a = 0xED then 0x80 \<le> b \<and> b \<le> 0x9F
      else if a = 0xF0 then 0x90 \<le> b \<and> b \<le> 0xBF
      else if a = 0xF4 then 0x80 \<le> b \<and> b \<le> 0x8F
      else utf8_cont b)"

definition utf8_width :: "int \<Rightarrow> nat" where
  "utf8_width a =
     (if 0 \<le> a \<and> a < 0x80 then 1 else if 0xC2 \<le> a \<and> a \<le> 0xDF then 2
      else if 0xE0 \<le> a \<and> a \<le> 0xEF then 3 else if 0xF0 \<le> a \<and> a \<le> 0xF4 then 4 else 0)"

text \<open>
  The first step of the decoder on a non-empty byte list: whether it starts with a character, and
  the length of that character or of the longest prefix one replacement character stands for.
\<close>

definition utf8_at :: "int list \<Rightarrow> nat \<Rightarrow> int" where
  "utf8_at bs i = (if i < length bs then bs ! i else 0)"

definition utf8_step :: "int list \<Rightarrow> bool \<times> nat" where
  "utf8_step bs =
     (let a = utf8_at bs 0; w = utf8_width a in
      if w = 1 then (True, 1)
      else if w = 2 then (if utf8_cont (utf8_at bs 1) then (True, 2) else (False, 1))
      else if w = 3 then
        (if \<not> utf8_second a (utf8_at bs 1) then (False, 1)
         else if utf8_cont (utf8_at bs 2) then (True, 3) else (False, 2))
      else if w = 4 then
        (if \<not> utf8_second a (utf8_at bs 1) then (False, 1)
         else if \<not> utf8_cont (utf8_at bs 2) then (False, 2)
         else if utf8_cont (utf8_at bs 3) then (True, 4) else (False, 3))
      else (False, 1))"

fun utf8_valid_from :: "nat \<Rightarrow> int list \<Rightarrow> bool" where
  "utf8_valid_from n [] = True"
| "utf8_valid_from (Suc n) (b # bs) = utf8_valid_from n bs"
| "utf8_valid_from 0 (b # bs) =
     (case utf8_step (b # take 3 bs) of (good, k) \<Rightarrow> good \<and> utf8_valid_from (k - 1) bs)"

definition utf8_valid :: "string \<Rightarrow> bool" where
  "utf8_valid s = utf8_valid_from 0 (bytes s)"

definition replacement_character :: "int list" where
  "replacement_character = [0xEF, 0xBF, 0xBD]"

text \<open>\<open>from_utf8_lossy\<close>: the counter says how many bytes of the current step are left, the flag whether to keep them.\<close>

fun utf8_lossy_from :: "bool \<Rightarrow> nat \<Rightarrow> int list \<Rightarrow> int list" where
  "utf8_lossy_from keep n [] = []"
| "utf8_lossy_from keep (Suc n) (b # bs) = (if keep then [b] else []) @ utf8_lossy_from keep n bs"
| "utf8_lossy_from keep 0 (b # bs) =
     (case utf8_step (b # take 3 bs) of (good, k) \<Rightarrow>
        (if good then [b] else replacement_character) @ utf8_lossy_from good (k - 1) bs)"

definition utf8_lossy :: "string \<Rightarrow> string" where
  "utf8_lossy s = str_of_bytes (utf8_lossy_from True 0 (bytes s))"

section \<open>Lines and fields\<close>

fun strip_cr :: "string \<Rightarrow> string" where
  "strip_cr s = (if s \<noteq> [] \<and> last s = char_of (13 :: int) then butlast s else s)"

text \<open>\<open>str::lines\<close>: a line ends at a line feed, with the carriage return before it; the last may have none.\<close>

fun lines_from :: "string \<Rightarrow> string \<Rightarrow> string list" where
  "lines_from cur [] = (if cur = [] then [] else [rev cur])"
| "lines_from cur (c # s) =
     (if c = char_of (10 :: int) then strip_cr (rev cur) # lines_from [] s else lines_from (c # cur) s)"

definition str_lines :: "string \<Rightarrow> string list" where
  "str_lines s = lines_from [] s"

fun fields_from :: "nat \<Rightarrow> string \<Rightarrow> string \<Rightarrow> string list" where
  "fields_from n cur [] = [rev cur]"
| "fields_from (Suc n) cur (c # s) = fields_from n cur s"
| "fields_from 0 cur (c # s) =
     (let w = ws_len (bytes (c # take 2 s))
      in if w = 0 then fields_from 0 (c # cur) s else rev cur # fields_from (w - 1) [] s)"

definition split_whitespace :: "string \<Rightarrow> string list" where
  "split_whitespace s = filter (\<lambda>f. f \<noteq> []) (fields_from 0 [] s)"

definition str_starts_with :: "string \<Rightarrow> string \<Rightarrow> bool" where
  "str_starts_with s p = (take (length p) s = p)"

definition strip_prefix :: "string \<Rightarrow> string \<Rightarrow> string option" where
  "strip_prefix s p = (if str_starts_with s p then Some (drop (length p) s) else None)"

text \<open>\<open>str::contains\<close>\<close>

fun str_contains :: "string \<Rightarrow> string \<Rightarrow> bool" where
  "str_contains [] p = (p = [])"
| "str_contains (c # s) p = (take (length p) (c # s) = p \<or> str_contains s p)"

text \<open>\<open>rfind\<close> of an ASCII character: the index of its last occurrence.\<close>

fun str_rfind :: "char \<Rightarrow> string \<Rightarrow> nat option" where
  "str_rfind d [] = None"
| "str_rfind d (c # s) =
     (case str_rfind d s of Some i \<Rightarrow> Some (Suc i) | None \<Rightarrow> if c = d then Some 0 else None)"

text \<open>\<open>str::get(i..)\<close>: \<open>None\<close> past the end or inside a character.\<close>

definition str_get_from :: "nat \<Rightarrow> string \<Rightarrow> string option" where
  "str_get_from i s =
     (if i \<le> length s \<and> (i = length s \<or> \<not> utf8_cont (of_char (s ! i))) then Some (drop i s) else None)"

text \<open>\<open>str::parse\<close> for an unsigned integer of \<open>w\<close> bits: an optional plus sign and decimal digits that fit.\<close>

definition dec_value :: "char \<Rightarrow> nat option" where
  "dec_value c = (let n = of_char c :: nat in if 48 \<le> n \<and> n \<le> 57 then Some (n - 48) else None)"

fun dec_parse :: "nat \<Rightarrow> string \<Rightarrow> nat option" where
  "dec_parse acc [] = Some acc"
| "dec_parse acc (c # cs) = (case dec_value c of None \<Rightarrow> None | Some d \<Rightarrow> dec_parse (10 * acc + d) cs)"

definition parse_uint :: "nat \<Rightarrow> string \<Rightarrow> nat option" where
  "parse_uint w s =
     (let ds = (if s \<noteq> [] \<and> hd s = CHR ''+'' then tl s else s)
      in if ds = [] then None
         else case dec_parse 0 ds of None \<Rightarrow> None | Some v \<Rightarrow> if v < 2 ^ w then Some v else None)"

section \<open>Lemmas\<close>

lemma str_contains_iff: "str_contains s p \<longleftrightarrow> (\<exists>a b. s = a @ p @ b)"
proof (induction s)
  case Nil
  then show ?case by simp
next
  case (Cons c s)
  have "take (length p) (c # s) = p \<longleftrightarrow> (\<exists>b. c # s = p @ b)"
    by (metis append_eq_conv_conj append_take_drop_id)
  with Cons show ?case by (auto simp: Cons_eq_append_conv)
qed

lemma str_rfind_bound: "str_rfind d s = Some i \<Longrightarrow> i < length s \<and> s ! i = d \<and> d \<notin> set (drop (Suc i) s)"
proof (induction s arbitrary: i)
  case (Cons c s)
  have none: "str_rfind d r = None \<Longrightarrow> d \<notin> set r" for r
    by (induction r) (auto split: option.splits if_splits)
  from Cons show ?case by (auto dest: none split: option.splits if_splits)
qed simp

end
