(* ===== verification/RuntimeModel.thy ===== *)
theory RuntimeModel
  imports Model Utf8
begin

text \<open>
  The data of the runtime monitor (\<open>src/runtime/model.rs\<close>) and its configuration
  (\<open>src/runtime/mod.rs\<close>): hook envelopes with their validation, control commands, telemetry, and the
  limits read from the environment. The environment is the argument \<open>env_os\<close>, the bytes of each
  variable that is set. A path is its bytes, a duration its milliseconds.
\<close>

section \<open>f64\<close>

definition f64_is_nan :: "f64 \<Rightarrow> bool" where
  "f64_is_nan x = fl_is_nan fmt64 (f64_fl x)"

definition f64_is_finite :: "f64 \<Rightarrow> bool" where
  "f64_is_finite x = (snd (f64_fl x) < fl_inf fmt64)"

definition f64_units :: "f64 \<Rightarrow> int" where
  "f64_units x = fl_units fmt64 (f64_fl x)"

definition f64_le :: "f64 \<Rightarrow> f64 \<Rightarrow> bool" where
  "f64_le a b = (\<not> f64_is_nan a \<and> \<not> f64_is_nan b \<and> f64_units a \<le> f64_units b)"

definition f64_add :: "f64 \<Rightarrow> f64 \<Rightarrow> f64" where
  "f64_add a b = fl_f64 (fl_add fmt64 (f64_fl a) (f64_fl b))"

definition f64_mul :: "f64 \<Rightarrow> f64 \<Rightarrow> f64" where
  "f64_mul a b = fl_f64 (fl_mul fmt64 (f64_fl a) (f64_fl b))"

text \<open>\<open>(0.0..=maximum).contains(&x)\<close> for a finite \<open>x\<close>.\<close>

definition f64_in_range :: "f64 \<Rightarrow> f64 \<Rightarrow> bool" where
  "f64_in_range x maximum = (f64_is_finite x \<and> f64_le 0 x \<and> f64_le x maximum)"

section \<open>Configuration\<close>

definition RUNTIME_PROTOCOL_VERSION :: string where "RUNTIME_PROTOCOL_VERSION = ''v1''"
definition DEFAULT_SAMPLE_INTERVAL_MS :: nat where "DEFAULT_SAMPLE_INTERVAL_MS = 1000"
definition MIN_SAMPLE_INTERVAL_MS :: nat where "MIN_SAMPLE_INTERVAL_MS = 250"
definition MAX_SAMPLE_INTERVAL_MS :: nat where "MAX_SAMPLE_INTERVAL_MS = 60000"
definition DEFAULT_HOOK_CAPACITY :: nat where "DEFAULT_HOOK_CAPACITY = 2048"
definition DEFAULT_COMMAND_CAPACITY :: nat where "DEFAULT_COMMAND_CAPACITY = 512"
definition MAX_HOOK_CAPACITY :: nat where "MAX_HOOK_CAPACITY = 65536"
definition MAX_COMMAND_CAPACITY :: nat where "MAX_COMMAND_CAPACITY = 8192"
definition DEFAULT_PROCESS_PATTERNS :: string where "DEFAULT_PROCESS_PATTERNS = ''claude,gemini,codex,chatgpt,openai''"
definition MAX_PROCESS_PATTERNS :: nat where "MAX_PROCESS_PATTERNS = 64"
definition MAX_PROCESS_PATTERN_BYTES :: nat where "MAX_PROCESS_PATTERN_BYTES = 128"

record RuntimeConfig =
  process_collection_enabled :: bool
  proc_root :: string
  sample_interval :: nat
  process_patterns :: "string list"
  hook_capacity :: nat
  command_capacity :: nat

text \<open>\<open>std::env::var\<close>: a value that is not valid Unicode counts as not set.\<close>

definition env_var :: "(string \<Rightarrow> string option) \<Rightarrow> string \<Rightarrow> string option" where
  "env_var env_os name =
     (case env_os name of None \<Rightarrow> None | Some v \<Rightarrow> if utf8_valid v then Some v else None)"

definition env_bool :: "(string \<Rightarrow> string option) \<Rightarrow> string \<Rightarrow> bool \<Rightarrow> bool" where
  "env_bool env name fallback =
     (case env name of
        None \<Rightarrow> fallback
      | Some v \<Rightarrow>
          (let t = str_lower (str_trim v) in
           if t \<in> {''1'', ''true'', ''yes'', ''on''} then True
           else if t \<in> {''0'', ''false'', ''no'', ''off''} then False
           else fallback))"

definition env_uint :: "(string \<Rightarrow> string option) \<Rightarrow> string \<Rightarrow> nat \<Rightarrow> nat" where
  "env_uint env name fallback =
     (case env name of
        None \<Rightarrow> fallback
      | Some v \<Rightarrow> (case parse_uint 64 v of None \<Rightarrow> fallback | Some n \<Rightarrow> n))"

definition clamp_nat :: "nat \<Rightarrow> nat \<Rightarrow> nat \<Rightarrow> nat" where
  "clamp_nat x lo hi = (if x < lo then lo else if x > hi then hi else x)"

definition patterns_from :: "string \<Rightarrow> string list" where
  "patterns_from text =
     (let ps = map str_lower (take MAX_PROCESS_PATTERNS
          (filter (\<lambda>v. v \<noteq> [] \<and> length v \<le> MAX_PROCESS_PATTERN_BYTES) (map str_trim (str_split CHR '','' text))))
      in if ps = [] then str_split CHR '','' DEFAULT_PROCESS_PATTERNS else ps)"

definition runtime_config_from_env :: "(string \<Rightarrow> string option) \<Rightarrow> RuntimeConfig" where
  "runtime_config_from_env env_os =
     (let env = env_var env_os in
      \<lparr>process_collection_enabled = env_bool env ''META_AGENT_RUNTIME_DISCOVERY_ENABLED'' True,
       proc_root = (case env_os ''META_AGENT_HOST_PROC_ROOT'' of Some p \<Rightarrow> p | None \<Rightarrow> ''/proc''),
       sample_interval = clamp_nat (env_uint env ''META_AGENT_RUNTIME_SAMPLE_INTERVAL_MS'' DEFAULT_SAMPLE_INTERVAL_MS)
         MIN_SAMPLE_INTERVAL_MS MAX_SAMPLE_INTERVAL_MS,
       process_patterns = patterns_from (case env ''META_AGENT_PROCESS_PATTERNS'' of Some t \<Rightarrow> t | None \<Rightarrow> DEFAULT_PROCESS_PATTERNS),
       hook_capacity = clamp_nat (env_uint env ''META_AGENT_RUNTIME_HOOK_CAPACITY'' DEFAULT_HOOK_CAPACITY) 1 MAX_HOOK_CAPACITY,
       command_capacity = clamp_nat (env_uint env ''META_AGENT_RUNTIME_COMMAND_CAPACITY'' DEFAULT_COMMAND_CAPACITY) 1 MAX_COMMAND_CAPACITY\<rparr>)"

section \<open>Hooks\<close>

definition MAX_TEXT_BYTES :: nat where "MAX_TEXT_BYTES = 4096"
definition MAX_METADATA_ENTRIES :: nat where "MAX_METADATA_ENTRIES = 32"
definition MAX_METADATA_KEY_BYTES :: nat where "MAX_METADATA_KEY_BYTES = 128"
definition MAX_METADATA_VALUE_BYTES :: nat where "MAX_METADATA_VALUE_BYTES = 1024"
definition MAX_CPU_PERCENT :: f64 where "MAX_CPU_PERCENT = f64_of_nat 100000"

definition FORBIDDEN_METADATA_KEY_FRAGMENTS :: "string list" where
  "FORBIDDEN_METADATA_KEY_FRAGMENTS =
     [''authorization'', ''chain_of_thought'', ''chain-of-thought'', ''cookie'', ''credential'', ''hidden_reasoning'',
      ''internal_reasoning'', ''api_key'', ''apikey'', ''prompt'', ''raw_response'', ''reasoning_content'', ''scratchpad'',
      ''secret'', ''token'']"

record RuntimeAgentRef =
  agent_id :: string
  provider :: string
  model :: string
  instance_id :: "string option"

datatype RuntimeHookKind =
    SessionStarted | HookHeartbeat | Activity | ToolStarted | ToolFinished | ModelResponse | ConfidenceReported
  | HookErrorObserved | SessionFinished

record RuntimeHookEnvelope =
  protocol_version :: string
  event_id :: Uuid
  occurred_at :: DateTime
  agent :: RuntimeAgentRef
  session_id :: "string option"
  pid :: "u32 option"
  kind :: RuntimeHookKind
  control_capable :: bool
  summary :: "string option"
  tool_name :: "string option"
  confidence :: "f32 option"
  cpu_percent :: "f64 option"
  rss_bytes :: "u64 option"
  memory_percent :: "f64 option"
  input_tokens_delta :: u64
  output_tokens_delta :: u64
  metadata :: "(string, string) BTreeMap"

datatype RuntimeError =
    RuntimeUnsupportedProtocol | InvalidField string | MissingField string | TooManyMetadataEntries | ForbiddenMetadataKey
  | DuplicateHook | CommandNotFound | AgentNotHookBacked | CommandAgentMismatch

definition runtime_validate_text :: "string \<Rightarrow> string \<Rightarrow> nat \<Rightarrow> RuntimeError check" where
  "runtime_validate_text field v maximum = guard_err (str_trim v = [] \<or> length v > maximum) (InvalidField field)"

definition runtime_validate_optional_text :: "string \<Rightarrow> string option \<Rightarrow> nat \<Rightarrow> RuntimeError check" where
  "runtime_validate_optional_text field v maximum =
     (case v of Some t \<Rightarrow> runtime_validate_text field t maximum | None \<Rightarrow> ok)"

definition forbidden_metadata_key :: "string \<Rightarrow> bool" where
  "forbidden_metadata_key key = list_ex (str_contains (str_lower (str_trim key))) FORBIDDEN_METADATA_KEY_FRAGMENTS"

definition validate_metadata_entry :: "string \<times> string \<Rightarrow> RuntimeError check list" where
  "validate_metadata_entry e =
     (case e of (key, value) \<Rightarrow>
        [runtime_validate_text ''metadata.key'' key MAX_METADATA_KEY_BYTES,
         runtime_validate_text ''metadata.value'' value MAX_METADATA_VALUE_BYTES,
         guard_err (forbidden_metadata_key key) ForbiddenMetadataKey])"

definition validate_hook :: "RuntimeHookEnvelope \<Rightarrow> RuntimeError check" where
  "validate_hook h = run_checks (
     [guard_err (RuntimeHookEnvelope.protocol_version h \<noteq> RUNTIME_PROTOCOL_VERSION) RuntimeUnsupportedProtocol,
      guard_err (uuid_is_nil (RuntimeHookEnvelope.event_id h)) (InvalidField ''event_id''),
      runtime_validate_text ''agent.agent_id'' (RuntimeAgentRef.agent_id (RuntimeHookEnvelope.agent h)) 256,
      runtime_validate_text ''agent.provider'' (RuntimeAgentRef.provider (RuntimeHookEnvelope.agent h)) 128,
      runtime_validate_text ''agent.model'' (RuntimeAgentRef.model (RuntimeHookEnvelope.agent h)) 256,
      runtime_validate_optional_text ''agent.instance_id'' (RuntimeAgentRef.instance_id (RuntimeHookEnvelope.agent h)) 256,
      runtime_validate_optional_text ''session_id'' (RuntimeHookEnvelope.session_id h) 256,
      runtime_validate_optional_text ''summary'' (RuntimeHookEnvelope.summary h) MAX_TEXT_BYTES,
      runtime_validate_optional_text ''tool_name'' (tool_name h) 256,
      guard_err (RuntimeHookEnvelope.pid h = Some 0) (InvalidField ''pid''),
      guard_err (case RuntimeHookEnvelope.confidence h of None \<Rightarrow> False | Some v \<Rightarrow> \<not> f32_is_finite v \<or> \<not> f32_in_unit v)
        (InvalidField ''confidence''),
      guard_err (RuntimeHookEnvelope.kind h = ConfidenceReported \<and> RuntimeHookEnvelope.confidence h = None)
        (MissingField ''confidence''),
      guard_err (case RuntimeHookEnvelope.cpu_percent h of None \<Rightarrow> False | Some v \<Rightarrow> \<not> f64_in_range v MAX_CPU_PERCENT)
        (InvalidField ''cpu_percent''),
      guard_err (case RuntimeHookEnvelope.memory_percent h of None \<Rightarrow> False | Some v \<Rightarrow> \<not> f64_in_range v (f64_of_nat 100))
        (InvalidField ''memory_percent''),
      guard_err (length (RuntimeHookEnvelope.metadata h) > MAX_METADATA_ENTRIES) TooManyMetadataEntries] @
     concat (map validate_metadata_entry (RuntimeHookEnvelope.metadata h)))"

section \<open>Commands and telemetry\<close>

datatype ControlAction = Pause | Resume | Stop

datatype ControlStatus = Pending | Acknowledged | Rejected

record ControlCommandRequest =
  agent_id :: string
  action :: ControlAction

definition validate_request :: "ControlCommandRequest \<Rightarrow> RuntimeError check" where
  "validate_request r = runtime_validate_text ''agent_id'' (ControlCommandRequest.agent_id r) 256"

record ControlCommandAck =
  command_id :: Uuid
  agent_id :: string
  accepted :: bool
  message :: "string option"

definition validate_ack :: "ControlCommandAck \<Rightarrow> RuntimeError check" where
  "validate_ack a = run_checks
     [guard_err (uuid_is_nil (ControlCommandAck.command_id a)) (InvalidField ''command_id''),
      runtime_validate_text ''agent_id'' (ControlCommandAck.agent_id a) 256,
      runtime_validate_optional_text ''message'' (ControlCommandAck.message a) 1024]"

record ControlCommand =
  command_id :: Uuid
  created_at :: DateTime
  agent_id :: string
  action :: ControlAction
  status :: ControlStatus
  acknowledged_at :: "DateTime option"
  message :: "string option"

record RuntimeProcessTelemetry =
  pid :: u32
  provider :: string
  process_name :: string
  matched_pattern :: string
  process_state :: string
  cpu_percent :: "f64 option"
  rss_bytes :: u64
  memory_percent :: "f64 option"
  observed_at :: DateTime

record RuntimeAgentTelemetry =
  agent_id :: string
  provider :: string
  model :: string
  instance_id :: "string option"
  session_id :: "string option"
  pid :: "u32 option"
  status :: string
  current_activity :: "string option"
  current_tool :: "string option"
  reported_confidence :: "f32 option"
  confidence_source :: string
  cpu_percent :: "f64 option"
  rss_bytes :: "u64 option"
  memory_percent :: "f64 option"
  resource_source :: string
  input_tokens :: u64
  output_tokens :: u64
  process_backed :: bool
  hook_backed :: bool
  control_capable :: bool
  last_hook_at :: "DateTime option"
  last_process_sample_at :: "DateTime option"

record RuntimeTotals =
  agents :: nat
  process_backed_agents :: nat
  hook_backed_agents :: nat
  cpu_percent :: f64
  rss_bytes :: u64
  input_tokens :: u64
  output_tokens :: u64
  confidence_reported_agents :: nat
  confidence_unreported_agents :: nat
  pending_commands :: nat

record RuntimeCollectionStatus =
  configured :: bool
  enabled :: bool
  proc_root :: string
  sample_interval_ms :: u64
  process_patterns :: "string list"
  cpu_count :: nat
  memory_total_bytes :: "u64 option"
  last_sample_at :: "DateTime option"
  last_error :: "string option"
  collection_errors :: u64

record RuntimeSnapshot =
  generated_at :: DateTime
  collection :: RuntimeCollectionStatus
  totals :: RuntimeTotals
  agents :: "RuntimeAgentTelemetry list"
  processes :: "RuntimeProcessTelemetry list"
  recent_hooks :: "RuntimeHookEnvelope list"
  recent_commands :: "ControlCommand list"

end
