(* ===== verification/Runtime.thy ===== *)
theory Runtime
  imports RuntimeModel
begin

text \<open>
  The runtime monitor (\<open>src/runtime/monitor.rs\<close>): the state behind its lock, and one definition per
  operation that takes the lock. Random identifiers and the clock are arguments.

  A \<open>HashMap\<close> is a partial function. Where the code iterates over one, the order is an argument: a
  list of its keys. A \<open>VecDeque\<close> is a list with its front first. The sums of the snapshot wrap, as in
  the release profile, which does not enable overflow checks.
\<close>

section \<open>State\<close>

definition SNAPSHOT_HOOK_LIMIT :: nat where "SNAPSHOT_HOOK_LIMIT = 250"
definition SNAPSHOT_COMMAND_LIMIT :: nat where "SNAPSHOT_COMMAND_LIMIT = 250"

record HookAgentState =
  agent :: RuntimeAgentRef
  session_id :: "string option"
  pid :: "u32 option"
  status :: string
  current_activity :: "string option"
  current_tool :: "string option"
  reported_confidence :: "f32 option"
  cpu_percent :: "f64 option"
  rss_bytes :: "u64 option"
  memory_percent :: "f64 option"
  control_capable :: bool
  input_tokens :: u64
  output_tokens :: u64
  last_hook_at :: DateTime

record RuntimeState =
  hooks :: "RuntimeHookEnvelope list"
  hook_ids :: "Uuid list"
  hook_agents :: "string \<rightharpoonup> HookAgentState"
  commands :: "ControlCommand list"
  process_table :: "u32 \<rightharpoonup> RuntimeProcessTelemetry"
  previous_total_ticks :: "u64 option"
  previous_process_ticks :: "u32 \<rightharpoonup> u64"
  cpu_count :: nat
  memory_total_bytes :: "u64 option"
  last_sample_at :: "DateTime option"
  last_error :: "string option"
  collection_errors :: u64

record RuntimeMonitor =
  config :: RuntimeConfig
  collection_enabled :: bool
  state :: RuntimeState

definition runtime_new :: "RuntimeConfig \<Rightarrow> RuntimeMonitor" where
  "runtime_new c =
     \<lparr>config = c, collection_enabled = process_collection_enabled c,
      state = \<lparr>hooks = [], hook_ids = [], hook_agents = (\<lambda>_. None), commands = [], process_table = (\<lambda>_. None),
        previous_total_ticks = None, previous_process_ticks = (\<lambda>_. None), cpu_count = 0, memory_total_bytes = None,
        last_sample_at = None, last_error = None, collection_errors = 0\<rparr>\<rparr>"

definition set_collection_enabled :: "bool \<Rightarrow> RuntimeMonitor \<Rightarrow> RuntimeMonitor" where
  "set_collection_enabled b m = m\<lparr>collection_enabled := b\<rparr>"

section \<open>Process samples\<close>

record RawProcess =
  pid :: u32
  provider :: string
  process_name :: string
  matched_pattern :: string
  process_state :: string
  process_ticks :: u64
  rss_bytes :: u64

record RawProcSnapshot =
  total_ticks :: u64
  cpu_count :: nat
  memory_total_bytes :: "u64 option"
  raw_processes :: "RawProcess list"

definition record_collection_error :: "string \<Rightarrow> RuntimeState \<Rightarrow> RuntimeState" where
  "record_collection_error err s =
     s\<lparr>collection_errors := sat_add (collection_errors s) 1, RuntimeState.last_error := Some err\<rparr>"

definition checked_sub :: "u64 \<Rightarrow> u64 \<Rightarrow> u64 option" where
  "checked_sub a b = (if b \<le> a then Some (a - b) else None)"

definition total_delta :: "RawProcSnapshot \<Rightarrow> RuntimeState \<Rightarrow> u64 option" where
  "total_delta snap s = (case previous_total_ticks s of None \<Rightarrow> None | Some prev \<Rightarrow> checked_sub (total_ticks snap) prev)"

definition cpu_share :: "RawProcSnapshot \<Rightarrow> RuntimeState \<Rightarrow> RawProcess \<Rightarrow> f64 option" where
  "cpu_share snap s p =
     (case total_delta snap s of
        None \<Rightarrow> None
      | Some elapsed \<Rightarrow>
          if elapsed = 0 then None
          else (case previous_process_ticks s (RawProcess.pid p) of
              None \<Rightarrow> None
            | Some prev \<Rightarrow>
                (case checked_sub (process_ticks p) prev of
                   None \<Rightarrow> None
                 | Some delta \<Rightarrow> Some
                     (f64_mul (f64_mul (f64_div (f64_of_nat (unat delta)) (f64_of_nat (unat elapsed)))
                        (f64_of_nat (max (RawProcSnapshot.cpu_count snap) 1))) (f64_of_nat 100)))))"

definition memory_share :: "RawProcSnapshot \<Rightarrow> RawProcess \<Rightarrow> f64 option" where
  "memory_share snap p =
     (case RawProcSnapshot.memory_total_bytes snap of
        None \<Rightarrow> None
      | Some memory \<Rightarrow>
          if memory > 0
          then Some (f64_mul (f64_div (f64_of_nat (unat (RawProcess.rss_bytes p))) (f64_of_nat (unat memory))) (f64_of_nat 100))
          else None)"

definition process_sample :: "RawProcSnapshot \<Rightarrow> RuntimeState \<Rightarrow> DateTime \<Rightarrow> RawProcess \<Rightarrow> RuntimeProcessTelemetry" where
  "process_sample snap s now p =
     \<lparr>RuntimeProcessTelemetry.pid = RawProcess.pid p, provider = RawProcess.provider p,
      process_name = RawProcess.process_name p, matched_pattern = RawProcess.matched_pattern p,
      process_state = RawProcess.process_state p, cpu_percent = cpu_share snap s p,
      rss_bytes = RawProcess.rss_bytes p, memory_percent = memory_share snap p, observed_at = now\<rparr>"

definition apply_proc_snapshot :: "RawProcSnapshot \<Rightarrow> DateTime \<Rightarrow> RuntimeState \<Rightarrow> RuntimeState" where
  "apply_proc_snapshot snap now s =
     s\<lparr>previous_total_ticks := Some (total_ticks snap),
       previous_process_ticks := fold (\<lambda>p m. m(RawProcess.pid p \<mapsto> process_ticks p)) (raw_processes snap) (\<lambda>_. None),
       process_table := fold (\<lambda>p m. m(RawProcess.pid p \<mapsto> process_sample snap s now p)) (raw_processes snap) (\<lambda>_. None),
       RuntimeState.cpu_count := RawProcSnapshot.cpu_count snap,
       RuntimeState.memory_total_bytes := RawProcSnapshot.memory_total_bytes snap,
       RuntimeState.last_sample_at := Some now, RuntimeState.last_error := None\<rparr>"

text \<open>\<open>collect_once\<close>, with the outcome of the blocking task: a snapshot, its error, or a failed task.\<close>

datatype collection_result = Sampled RawProcSnapshot | ReadError string | TaskFailed string

definition collect_once :: "collection_result \<Rightarrow> DateTime \<Rightarrow> RuntimeState \<Rightarrow> RuntimeState" where
  "collect_once r now s =
     (case r of
        Sampled snap \<Rightarrow> apply_proc_snapshot snap now s
      | ReadError err \<Rightarrow> record_collection_error err s
      | TaskFailed err \<Rightarrow> record_collection_error (''runtime collector task failed: '' @ err) s)"

section \<open>Hooks\<close>

definition hook_agent_new :: "RuntimeHookEnvelope \<Rightarrow> HookAgentState" where
  "hook_agent_new h =
     \<lparr>HookAgentState.agent = RuntimeHookEnvelope.agent h, session_id = RuntimeHookEnvelope.session_id h,
      pid = RuntimeHookEnvelope.pid h, status = ''observed'', current_activity = None, current_tool = None,
      reported_confidence = None, cpu_percent = RuntimeHookEnvelope.cpu_percent h,
      rss_bytes = RuntimeHookEnvelope.rss_bytes h, memory_percent = RuntimeHookEnvelope.memory_percent h,
      control_capable = RuntimeHookEnvelope.control_capable h, input_tokens = 0, output_tokens = 0,
      last_hook_at = RuntimeHookEnvelope.occurred_at h\<rparr>"

definition or_keep :: "'x option \<Rightarrow> 'x option \<Rightarrow> 'x option" where
  "or_keep new old = (if new \<noteq> None then new else old)"

fun hook_status :: "RuntimeHookEnvelope \<Rightarrow> RuntimeHookKind \<Rightarrow> HookAgentState \<Rightarrow> HookAgentState" where
  "hook_status h SessionStarted a = a\<lparr>HookAgentState.status := ''running''\<rparr>"
| "hook_status h HookHeartbeat a = a"
| "hook_status h Activity a = a\<lparr>HookAgentState.status := ''running''\<rparr>"
| "hook_status h ModelResponse a = a\<lparr>HookAgentState.status := ''running''\<rparr>"
| "hook_status h ToolStarted a = a\<lparr>HookAgentState.status := ''running'', HookAgentState.current_tool := tool_name h\<rparr>"
| "hook_status h ToolFinished a = a\<lparr>HookAgentState.status := ''running'', HookAgentState.current_tool := None\<rparr>"
| "hook_status h ConfidenceReported a = a"
| "hook_status h HookErrorObserved a = a\<lparr>HookAgentState.status := ''failed''\<rparr>"
| "hook_status h SessionFinished a = a\<lparr>HookAgentState.status := ''idle'', HookAgentState.current_tool := None\<rparr>"

definition hook_current :: "RuntimeHookEnvelope \<Rightarrow> HookAgentState \<Rightarrow> HookAgentState" where
  "hook_current h a = hook_status h (RuntimeHookEnvelope.kind h)
     (a\<lparr>HookAgentState.agent := RuntimeHookEnvelope.agent h,
        HookAgentState.session_id := or_keep (RuntimeHookEnvelope.session_id h) (HookAgentState.session_id a),
        HookAgentState.pid := or_keep (RuntimeHookEnvelope.pid h) (HookAgentState.pid a),
        HookAgentState.last_hook_at := RuntimeHookEnvelope.occurred_at h,
        HookAgentState.reported_confidence := or_keep (RuntimeHookEnvelope.confidence h) (HookAgentState.reported_confidence a),
        HookAgentState.cpu_percent := or_keep (RuntimeHookEnvelope.cpu_percent h) (HookAgentState.cpu_percent a),
        HookAgentState.rss_bytes := or_keep (RuntimeHookEnvelope.rss_bytes h) (HookAgentState.rss_bytes a),
        HookAgentState.memory_percent := or_keep (RuntimeHookEnvelope.memory_percent h) (HookAgentState.memory_percent a),
        HookAgentState.current_activity := or_keep (RuntimeHookEnvelope.summary h) (HookAgentState.current_activity a)\<rparr>)"

definition hook_agent_update :: "RuntimeHookEnvelope \<Rightarrow> HookAgentState \<Rightarrow> HookAgentState" where
  "hook_agent_update h a =
     (let a1 = a\<lparr>HookAgentState.input_tokens := sat_add (HookAgentState.input_tokens a) (input_tokens_delta h),
                 HookAgentState.output_tokens := sat_add (HookAgentState.output_tokens a) (output_tokens_delta h),
                 HookAgentState.control_capable := (HookAgentState.control_capable a \<or> RuntimeHookEnvelope.control_capable h)\<rparr>
      in if RuntimeHookEnvelope.occurred_at h \<ge> HookAgentState.last_hook_at a then hook_current h a1 else a1)"

text \<open>\<open>while queue.len() > capacity { queue.pop_back(); }\<close>\<close>

function trim_back :: "nat \<Rightarrow> 'x list \<Rightarrow> 'x list" where
  "trim_back n q = (if length q > n then trim_back n (butlast q) else q)"
  by pat_completeness auto
termination
  by (relation "measure (\<lambda>(n, q). length q)") auto

declare trim_back.simps [simp del]

definition hook_agent_key :: "RuntimeHookEnvelope \<Rightarrow> string" where
  "hook_agent_key h = RuntimeAgentRef.agent_id (RuntimeHookEnvelope.agent h)"

definition ingest_hook :: "RuntimeConfig \<Rightarrow> RuntimeHookEnvelope \<Rightarrow> RuntimeState \<Rightarrow> RuntimeError check \<times> RuntimeState" where
  "ingest_hook c h s =
     (case validate_hook h of
        Inl err \<Rightarrow> (Inl err, s)
      | Inr _ \<Rightarrow>
          if RuntimeHookEnvelope.event_id h \<in> set (hook_ids s) then (Inl DuplicateHook, s)
          else
            (let entry = (case hook_agents s (hook_agent_key h) of None \<Rightarrow> hook_agent_new h | Some a \<Rightarrow> a)
             in (ok, s\<lparr>hook_agents := (hook_agents s)(hook_agent_key h \<mapsto> hook_agent_update h entry),
                       hooks := trim_back (hook_capacity c) (h # hooks s),
                       hook_ids := trim_back (hook_capacity c) (RuntimeHookEnvelope.event_id h # hook_ids s)\<rparr>)))"

section \<open>Commands\<close>

definition enqueue_command ::
  "RuntimeConfig \<Rightarrow> Uuid \<Rightarrow> DateTime \<Rightarrow> ControlCommandRequest \<Rightarrow> RuntimeState \<Rightarrow> (RuntimeError + ControlCommand) \<times> RuntimeState" where
  "enqueue_command c new_v4 now r s =
     (case validate_request r of
        Inl err \<Rightarrow> (Inl err, s)
      | Inr _ \<Rightarrow>
          if \<not> (case hook_agents s (ControlCommandRequest.agent_id r) of
                   None \<Rightarrow> False | Some a \<Rightarrow> HookAgentState.control_capable a)
          then (Inl AgentNotHookBacked, s)
          else
            (let command = \<lparr>ControlCommand.command_id = new_v4, created_at = now,
                   agent_id = ControlCommandRequest.agent_id r, action = ControlCommandRequest.action r,
                   status = ControlStatus.Pending, acknowledged_at = None, message = None\<rparr>
             in (Inr command, s\<lparr>commands := trim_back (command_capacity c) (command # commands s)\<rparr>)))"

definition list_pending :: "string \<Rightarrow> RuntimeState \<Rightarrow> RuntimeError + ControlCommand list" where
  "list_pending a s =
     (case runtime_validate_text ''agent_id'' a 256 of
        Inl err \<Rightarrow> Inl err
      | Inr _ \<Rightarrow> Inr (filter (\<lambda>c. ControlCommand.agent_id c = a \<and> ControlCommand.status c = ControlStatus.Pending) (commands s)))"

text \<open>\<open>iter_mut().find(...)\<close> and the update of the element it finds.\<close>

fun update_first :: "('x \<Rightarrow> bool) \<Rightarrow> ('x \<Rightarrow> 'x) \<Rightarrow> 'x list \<Rightarrow> 'x list" where
  "update_first p f [] = []"
| "update_first p f (x # xs) = (if p x then f x # xs else x # update_first p f xs)"

definition settle_command :: "ControlCommandAck \<Rightarrow> DateTime \<Rightarrow> ControlCommand \<Rightarrow> ControlCommand" where
  "settle_command ack now c =
     c\<lparr>ControlCommand.status := (if ControlCommandAck.accepted ack then Acknowledged else Rejected),
       acknowledged_at := Some now, ControlCommand.message := ControlCommandAck.message ack\<rparr>"

definition acknowledge_command ::
  "DateTime \<Rightarrow> ControlCommandAck \<Rightarrow> RuntimeState \<Rightarrow> (RuntimeError + ControlCommand) \<times> RuntimeState" where
  "acknowledge_command now ack s =
     (case validate_ack ack of
        Inl err \<Rightarrow> (Inl err, s)
      | Inr _ \<Rightarrow>
        (let named = (\<lambda>c. ControlCommand.command_id c = ControlCommandAck.command_id ack) in
         case find named (commands s) of
           None \<Rightarrow> (Inl CommandNotFound, s)
         | Some c \<Rightarrow>
             if ControlCommand.agent_id c \<noteq> ControlCommandAck.agent_id ack then (Inl CommandAgentMismatch, s)
             else (Inr (settle_command ack now c), s\<lparr>commands := update_first named (settle_command ack now) (commands s)\<rparr>)))"

section \<open>The snapshot\<close>

definition process_state_label :: "string \<Rightarrow> string" where
  "process_state_label st =
     (if st = ''R'' then ''running''
      else if st \<in> {''S'', ''D'', ''I''} then ''waiting''
      else if st \<in> {''T'', ''t''} then ''stopped''
      else if st = ''Z'' then ''zombie''
      else if st \<in> {''X'', ''x''} then ''dead''
      else ''observed'')"

definition duration_millis :: "nat \<Rightarrow> u64" where
  "duration_millis ms = (if ms < 2 ^ 64 then of_nat ms else - 1)"

text \<open>\<open>HashMap::values\<close>, in the order in which the map yields its keys.\<close>

definition hash_values :: "('k \<rightharpoonup> 'v) \<Rightarrow> 'k list \<Rightarrow> 'v list" where
  "hash_values m order = List.map_filter m order"

definition telemetry_id :: "HookAgentState \<Rightarrow> string" where
  "telemetry_id a = RuntimeAgentRef.agent_id (HookAgentState.agent a)"

definition process_agent_ids :: "HookAgentState list \<Rightarrow> (u32 \<rightharpoonup> string)" where
  "process_agent_ids as =
     fold (\<lambda>a m. case HookAgentState.pid a of None \<Rightarrow> m | Some p \<Rightarrow> m(p \<mapsto> telemetry_id a)) as (\<lambda>_. None)"

definition process_agent_id :: "(u32 \<rightharpoonup> string) \<Rightarrow> RuntimeProcessTelemetry \<Rightarrow> string" where
  "process_agent_id ids p =
     (case ids (RuntimeProcessTelemetry.pid p) of
        Some a \<Rightarrow> a
      | None \<Rightarrow> ''process:'' @ RuntimeProcessTelemetry.provider p @ '':'' @ dec_digits (uint (RuntimeProcessTelemetry.pid p)))"

definition process_telemetry :: "string \<Rightarrow> RuntimeProcessTelemetry \<Rightarrow> RuntimeAgentTelemetry" where
  "process_telemetry aid p =
     \<lparr>RuntimeAgentTelemetry.agent_id = aid, provider = RuntimeProcessTelemetry.provider p, model = ''unreported'',
      instance_id = None, session_id = None, pid = Some (RuntimeProcessTelemetry.pid p),
      status = process_state_label (RuntimeProcessTelemetry.process_state p), current_activity = None, current_tool = None,
      reported_confidence = None, confidence_source = ''unreported'', cpu_percent = RuntimeProcessTelemetry.cpu_percent p,
      rss_bytes = Some (RuntimeProcessTelemetry.rss_bytes p), memory_percent = RuntimeProcessTelemetry.memory_percent p,
      resource_source = ''host_process'', input_tokens = 0, output_tokens = 0, process_backed = True, hook_backed = False,
      control_capable = False, last_hook_at = None, last_process_sample_at = Some (RuntimeProcessTelemetry.observed_at p)\<rparr>"

definition confidence_label :: "HookAgentState \<Rightarrow> string" where
  "confidence_label a = (if HookAgentState.reported_confidence a \<noteq> None then ''hook'' else ''unreported'')"

definition merge_hook_agent :: "HookAgentState \<Rightarrow> RuntimeAgentTelemetry \<Rightarrow> RuntimeAgentTelemetry" where
  "merge_hook_agent a t =
     t\<lparr>RuntimeAgentTelemetry.provider := RuntimeAgentRef.provider (HookAgentState.agent a),
       RuntimeAgentTelemetry.model := RuntimeAgentRef.model (HookAgentState.agent a),
       RuntimeAgentTelemetry.instance_id := RuntimeAgentRef.instance_id (HookAgentState.agent a),
       RuntimeAgentTelemetry.session_id := HookAgentState.session_id a,
       RuntimeAgentTelemetry.pid := or_keep (HookAgentState.pid a) (RuntimeAgentTelemetry.pid t),
       RuntimeAgentTelemetry.status := HookAgentState.status a,
       RuntimeAgentTelemetry.current_activity := HookAgentState.current_activity a,
       RuntimeAgentTelemetry.current_tool := HookAgentState.current_tool a,
       RuntimeAgentTelemetry.reported_confidence := HookAgentState.reported_confidence a,
       RuntimeAgentTelemetry.confidence_source := confidence_label a,
       RuntimeAgentTelemetry.input_tokens := HookAgentState.input_tokens a,
       RuntimeAgentTelemetry.output_tokens := HookAgentState.output_tokens a,
       RuntimeAgentTelemetry.hook_backed := True,
       RuntimeAgentTelemetry.control_capable := HookAgentState.control_capable a,
       RuntimeAgentTelemetry.last_hook_at := Some (HookAgentState.last_hook_at a)\<rparr>"

definition hook_telemetry :: "(u32 \<rightharpoonup> RuntimeProcessTelemetry) \<Rightarrow> HookAgentState \<Rightarrow> RuntimeAgentTelemetry" where
  "hook_telemetry procs a =
     (let process = Option.bind (HookAgentState.pid a) procs;
          hook_has_resource = (HookAgentState.cpu_percent a \<noteq> None \<or> HookAgentState.rss_bytes a \<noteq> None
            \<or> HookAgentState.memory_percent a \<noteq> None)
      in \<lparr>RuntimeAgentTelemetry.agent_id = telemetry_id a,
          provider = RuntimeAgentRef.provider (HookAgentState.agent a),
          model = RuntimeAgentRef.model (HookAgentState.agent a),
          instance_id = RuntimeAgentRef.instance_id (HookAgentState.agent a),
          session_id = HookAgentState.session_id a, pid = HookAgentState.pid a, status = HookAgentState.status a,
          current_activity = HookAgentState.current_activity a, current_tool = HookAgentState.current_tool a,
          reported_confidence = HookAgentState.reported_confidence a, confidence_source = confidence_label a,
          cpu_percent = or_keep (Option.bind process RuntimeProcessTelemetry.cpu_percent) (HookAgentState.cpu_percent a),
          rss_bytes = or_keep (map_option RuntimeProcessTelemetry.rss_bytes process) (HookAgentState.rss_bytes a),
          memory_percent = or_keep (Option.bind process RuntimeProcessTelemetry.memory_percent) (HookAgentState.memory_percent a),
          resource_source = (if process \<noteq> None then ''host_process'' else if hook_has_resource then ''hook'' else ''unreported''),
          input_tokens = HookAgentState.input_tokens a, output_tokens = HookAgentState.output_tokens a,
          process_backed = (process \<noteq> None), hook_backed = True, control_capable = HookAgentState.control_capable a,
          last_hook_at = Some (HookAgentState.last_hook_at a),
          last_process_sample_at = map_option RuntimeProcessTelemetry.observed_at process\<rparr>)"

type_synonym telemetry_map = "(string, RuntimeAgentTelemetry) BTreeMap"

definition add_process :: "(u32 \<rightharpoonup> string) \<Rightarrow> RuntimeProcessTelemetry \<Rightarrow> telemetry_map \<Rightarrow> telemetry_map" where
  "add_process ids p m = bt_insert (process_agent_id ids p) (process_telemetry (process_agent_id ids p) p) m"

definition add_hook_agent :: "(u32 \<rightharpoonup> RuntimeProcessTelemetry) \<Rightarrow> HookAgentState \<Rightarrow> telemetry_map \<Rightarrow> telemetry_map" where
  "add_hook_agent procs a m =
     (case bt_get m (telemetry_id a) of
        Some t \<Rightarrow> bt_insert (telemetry_id a) (merge_hook_agent a t) m
      | None \<Rightarrow> bt_insert (telemetry_id a) (hook_telemetry procs a) m)"

definition telemetry_agents :: "string list \<Rightarrow> u32 list \<Rightarrow> RuntimeState \<Rightarrow> telemetry_map" where
  "telemetry_agents agent_order pid_order s =
     (let as = hash_values (hook_agents s) agent_order;
          ids = process_agent_ids as
      in fold (add_hook_agent (process_table s)) as
           (fold (add_process ids) (hash_values (process_table s) pid_order) []))"

text \<open>\<open>Iterator::sum\<close>: the \<open>f64\<close> sum starts from negative zero.\<close>

definition f64_sum :: "f64 list \<Rightarrow> f64" where
  "f64_sum xs = foldl f64_add 0x8000000000000000 xs"

definition u64_sum :: "u64 list \<Rightarrow> u64" where
  "u64_sum xs = foldl (+) 0 xs"

definition count_where :: "('x \<Rightarrow> bool) \<Rightarrow> 'x list \<Rightarrow> nat" where
  "count_where p xs = length (filter p xs)"

definition telemetry_totals :: "RuntimeAgentTelemetry list \<Rightarrow> ControlCommand list \<Rightarrow> RuntimeTotals" where
  "telemetry_totals ts cs =
     \<lparr>RuntimeTotals.agents = length ts,
      process_backed_agents = count_where process_backed ts,
      hook_backed_agents = count_where hook_backed ts,
      cpu_percent = f64_sum (List.map_filter RuntimeAgentTelemetry.cpu_percent ts),
      rss_bytes = u64_sum (List.map_filter RuntimeAgentTelemetry.rss_bytes ts),
      input_tokens = u64_sum (map RuntimeAgentTelemetry.input_tokens ts),
      output_tokens = u64_sum (map RuntimeAgentTelemetry.output_tokens ts),
      confidence_reported_agents = count_where (\<lambda>t. RuntimeAgentTelemetry.reported_confidence t \<noteq> None) ts,
      confidence_unreported_agents = count_where (\<lambda>t. RuntimeAgentTelemetry.reported_confidence t = None) ts,
      pending_commands = count_where (\<lambda>c. ControlCommand.status c = ControlStatus.Pending) cs\<rparr>"

definition runtime_snapshot ::
  "string list \<Rightarrow> u32 list \<Rightarrow> DateTime \<Rightarrow> RuntimeMonitor \<Rightarrow> RuntimeSnapshot" where
  "runtime_snapshot agent_order pid_order now m =
     (let s = RuntimeMonitor.state m;
          c = RuntimeMonitor.config m;
          ts = bt_values (telemetry_agents agent_order pid_order s);
          procs = sort_by (\<lambda>p q. cmp (RuntimeProcessTelemetry.pid p) (RuntimeProcessTelemetry.pid q))
            (hash_values (process_table s) pid_order)
      in \<lparr>RuntimeSnapshot.generated_at = now,
          collection =
            \<lparr>configured = process_collection_enabled c, enabled = RuntimeMonitor.collection_enabled m,
             proc_root = utf8_lossy (RuntimeConfig.proc_root c), sample_interval_ms = duration_millis (sample_interval c),
             process_patterns = RuntimeConfig.process_patterns c, cpu_count = RuntimeState.cpu_count s,
             memory_total_bytes = RuntimeState.memory_total_bytes s, last_sample_at = RuntimeState.last_sample_at s,
             last_error = RuntimeState.last_error s, collection_errors = RuntimeState.collection_errors s\<rparr>,
          totals = telemetry_totals ts (commands s), agents = ts, processes = procs,
          recent_hooks = take SNAPSHOT_HOOK_LIMIT (hooks s),
          recent_commands = take SNAPSHOT_COMMAND_LIMIT (commands s)\<rparr>)"

end
