(* ===== verification/Collector.thy ===== *)
theory Collector
  imports Runtime
begin

text \<open>
  The process collector (\<open>src/runtime/collector.rs\<close>). The host file system is the argument \<open>fs\<close>:
  what a read of a file and of a directory returns, an error as its displayed text. One pass reads
  each path at most once, so a function of the path describes everything it can observe. A directory
  entry that cannot be read is \<open>None\<close>.
\<close>

record host_fs =
  fs_read :: "string \<Rightarrow> string + string"
  fs_read_dir :: "string \<Rightarrow> string + string option list"

text \<open>\<open>Path::join\<close> with a relative path.\<close>

definition path_join :: "string \<Rightarrow> string \<Rightarrow> string" where
  "path_join p x = (if p = [] then x else if last p = CHR ''/'' then p @ x else p @ ''/'' @ x)"

definition read_to_string :: "host_fs \<Rightarrow> string \<Rightarrow> string + string" where
  "read_to_string fs p =
     (case fs_read fs p of
        Inl err \<Rightarrow> Inl err
      | Inr text \<Rightarrow> if utf8_valid text then Inr text else Inl ''stream did not contain valid UTF-8'')"

definition parse_u64 :: "string \<Rightarrow> u64 option" where
  "parse_u64 s = map_option of_nat (parse_uint 64 s)"

definition ascii_digit :: "char \<Rightarrow> bool" where
  "ascii_digit c = (dec_value c \<noteq> None)"

definition is_cpu_row :: "string \<Rightarrow> bool" where
  "is_cpu_row name = (case strip_prefix name ''cpu'' of None \<Rightarrow> False | Some suffix \<Rightarrow> suffix \<noteq> [] \<and> list_all ascii_digit suffix)"

definition first_field :: "string \<Rightarrow> string option" where
  "first_field line = (case split_whitespace line of [] \<Rightarrow> None | f # _ \<Rightarrow> Some f)"

definition read_total_cpu :: "host_fs \<Rightarrow> string \<Rightarrow> string + u64 \<times> nat" where
  "read_total_cpu fs proc_dir =
     (case read_to_string fs (path_join proc_dir ''stat'') of
        Inl err \<Rightarrow> Inl (''cannot read host CPU counters: '' @ err)
      | Inr text \<Rightarrow>
          (case str_lines text of
             [] \<Rightarrow> Inl ''host CPU counters are empty''
           | aggregate # rest \<Rightarrow>
               (case split_whitespace aggregate of
                  [] \<Rightarrow> Inl ''host CPU counters do not start with the aggregate cpu row''
                | label # columns \<Rightarrow>
                    if label \<noteq> ''cpu'' then Inl ''host CPU counters do not start with the aggregate cpu row''
                    else Inr (u64_sum (List.map_filter parse_u64 (take 8 columns)),
                              max (count_where is_cpu_row (List.map_filter first_field rest)) 1))))"

definition checked_kib :: "u64 \<Rightarrow> u64 option" where
  "checked_kib kib = (if uint kib * 1024 < 2 ^ 64 then Some (kib * 1024) else None)"

text \<open>The line lookup \<open>read_memory_total\<close> and \<open>read_process_rss\<close> share: the second field of the first line with the label.\<close>

definition labelled_kib :: "string \<Rightarrow> string \<Rightarrow> u64 option" where
  "labelled_kib label text =
     (case find (\<lambda>line. str_starts_with line label) (str_lines text) of
        None \<Rightarrow> None
      | Some line \<Rightarrow>
          (case split_whitespace line of
             _ # v # _ \<Rightarrow> Option.bind (parse_u64 v) checked_kib
           | _ \<Rightarrow> None))"

definition read_memory_total :: "host_fs \<Rightarrow> string \<Rightarrow> u64 option" where
  "read_memory_total fs proc_dir =
     (case read_to_string fs (path_join proc_dir ''meminfo'') of Inl _ \<Rightarrow> None | Inr text \<Rightarrow> labelled_kib ''MemTotal:'' text)"

definition read_process_rss :: "host_fs \<Rightarrow> string \<Rightarrow> u64 option" where
  "read_process_rss fs process_root =
     (case read_to_string fs (path_join process_root ''status'') of Inl _ \<Rightarrow> None | Inr text \<Rightarrow> labelled_kib ''VmRSS:'' text)"

definition provider_for_pattern :: "string \<Rightarrow> string" where
  "provider_for_pattern p =
     (if str_contains p ''claude'' \<or> str_contains p ''anthropic'' then ''anthropic''
      else if str_contains p ''gemini'' \<or> str_contains p ''google'' then ''google''
      else if str_contains p ''codex'' \<or> str_contains p ''chatgpt'' \<or> str_contains p ''openai'' then ''openai''
      else ''unknown'')"

definition display_process_name :: "string \<Rightarrow> string \<Rightarrow> string" where
  "display_process_name comm p =
     (if comm = [] \<or> comm \<in> {''node'', ''python'', ''python3'', ''bash'', ''sh''} then p @ ''-agent'' else comm)"

definition checked_add :: "u64 \<Rightarrow> u64 \<Rightarrow> u64 option" where
  "checked_add a b = (if uint a + uint b < 2 ^ 64 then Some (a + b) else None)"

text \<open>The process state and the user and system ticks of a \<open>stat\<close> line.\<close>

definition stat_fields :: "string \<Rightarrow> (string \<times> u64) option" where
  "stat_fields stat =
     (case str_rfind CHR '')'' stat of
        None \<Rightarrow> None
      | Some close \<Rightarrow>
          (case str_get_from (close + 2) stat of
             None \<Rightarrow> None
           | Some rest \<Rightarrow>
               (let columns = split_whitespace rest in
                if length columns \<le> 12 then None
                else (case (parse_u64 (columns ! 11), parse_u64 (columns ! 12)) of
                    (Some user_ticks, Some system_ticks) \<Rightarrow> map_option (Pair (columns ! 0)) (checked_add user_ticks system_ticks)
                  | _ \<Rightarrow> None))))"

definition match_haystack :: "string \<Rightarrow> string \<Rightarrow> string" where
  "match_haystack comm cmdline =
     str_lower comm @ '' '' @ str_lower (str_join '' '' (take 12 (filter utf8_valid (str_split (char_of (0 :: int)) cmdline))))"

definition read_process :: "host_fs \<Rightarrow> string \<Rightarrow> u32 \<Rightarrow> string list \<Rightarrow> RawProcess option" where
  "read_process fs proc_dir p patterns =
     (let process_root = path_join proc_dir (dec_digits (uint p)) in
      case read_to_string fs (path_join process_root ''stat'') of
        Inl _ \<Rightarrow> None
      | Inr stat \<Rightarrow>
          (case stat_fields stat of
             None \<Rightarrow> None
           | Some (st, ticks) \<Rightarrow>
               (let comm = str_trim (case read_to_string fs (path_join process_root ''comm'') of Inl _ \<Rightarrow> [] | Inr t \<Rightarrow> t);
                    cmdline = (case fs_read fs (path_join process_root ''cmdline'') of Inl _ \<Rightarrow> [] | Inr t \<Rightarrow> t)
                in case find (str_contains (match_haystack comm cmdline)) patterns of
                     None \<Rightarrow> None
                   | Some matched \<Rightarrow> Some
                       \<lparr>RawProcess.pid = p, provider = provider_for_pattern matched,
                        process_name = display_process_name comm matched, matched_pattern = matched, process_state = st,
                        process_ticks = ticks,
                        rss_bytes = (case read_process_rss fs process_root of None \<Rightarrow> 0 | Some n \<Rightarrow> n)\<rparr>)))"

definition entry_pid :: "string option \<Rightarrow> u32 option" where
  "entry_pid e =
     (case e of
        None \<Rightarrow> None
      | Some name \<Rightarrow> if utf8_valid name then map_option of_nat (parse_uint 32 name) else None)"

definition read_proc_snapshot :: "host_fs \<Rightarrow> RuntimeConfig \<Rightarrow> string + RawProcSnapshot" where
  "read_proc_snapshot fs c =
     (case read_total_cpu fs (RuntimeConfig.proc_root c) of
        Inl err \<Rightarrow> Inl err
      | Inr (ticks, cpus) \<Rightarrow>
          (case fs_read_dir fs (RuntimeConfig.proc_root c) of
             Inl err \<Rightarrow> Inl (''cannot read host process root '' @ utf8_lossy (RuntimeConfig.proc_root c) @ '': '' @ err)
           | Inr entries \<Rightarrow> Inr
               \<lparr>total_ticks = ticks, RawProcSnapshot.cpu_count = cpus,
                memory_total_bytes = read_memory_total fs (RuntimeConfig.proc_root c),
                raw_processes = List.map_filter (\<lambda>p. read_process fs (RuntimeConfig.proc_root c) p (RuntimeConfig.process_patterns c))
                  (List.map_filter entry_pid entries)\<rparr>))"

text \<open>One tick of the loop of \<open>RuntimeMonitor::run\<close> while the collector task itself does not fail.\<close>

definition collect_tick :: "host_fs \<Rightarrow> DateTime \<Rightarrow> RuntimeMonitor \<Rightarrow> RuntimeMonitor" where
  "collect_tick fs now m =
     (if RuntimeMonitor.collection_enabled m
      then m\<lparr>RuntimeMonitor.state := collect_once
        (case read_proc_snapshot fs (RuntimeMonitor.config m) of Inl err \<Rightarrow> ReadError err | Inr snap \<Rightarrow> Sampled snap)
        now (RuntimeMonitor.state m)\<rparr>
      else m)"

end
