(* ===== verification/RuntimeInv.thy ===== *)
theory RuntimeInv
  imports Collector
begin

text \<open>
  The runtime monitor as a state machine: one rule per operation that takes the write lock, and the
  invariant of its reachable states. Identifiers of commands come from \<open>Uuid::new_v4\<close>, which does not
  repeat an identifier in use; hooks, requests, acknowledgements and samples are arbitrary.
\<close>

section \<open>Lemmas on the queue and list operations\<close>

lemma trim_back_take: "trim_back n q = take n q"
proof (induction n q rule: trim_back.induct)
  case (1 n q)
  show ?case
  proof (cases "length q > n")
    case True
    then have "take n (butlast q) = take n q"
      by (simp add: take_butlast)
    with True 1 show ?thesis by (simp add: trim_back.simps [of n q])
  qed (simp add: trim_back.simps [of n q])
qed

lemma update_first_map:
  "distinct (map g xs) \<Longrightarrow> update_first (\<lambda>x. g x = i) f xs = map (\<lambda>x. if g x = i then f x else x) xs"
proof (induction xs)
  case (Cons x xs)
  have "map (\<lambda>y. if g y = i then f y else y) xs = xs" if "g x = i"
    using Cons.prems that by (intro map_idI) (auto simp: image_iff)
  with Cons show ?case by auto
qed simp

lemma update_first_keeps: "(\<And>x. g (f x) = g x) \<Longrightarrow> map g (update_first p f xs) = map g xs"
  by (induction xs) auto

lemma set_update_first: "set (update_first p f xs) \<subseteq> set xs \<union> f ` {x \<in> set xs. p x}"
  by (induction xs) auto

section \<open>The step relation\<close>

inductive runtime_step :: "RuntimeConfig \<Rightarrow> RuntimeState \<Rightarrow> RuntimeState \<Rightarrow> bool" for c where
  hook: "runtime_step c s (snd (ingest_hook c h s))"
| enqueue: "new_v4 \<notin> ControlCommand.command_id ` set (commands s) \<Longrightarrow>
    runtime_step c s (snd (enqueue_command c new_v4 now q s))"
| acknowledge: "runtime_step c s (snd (acknowledge_command now ack s))"
| collect: "runtime_step c s (collect_once sample now s)"

inductive_cases runtime_stepE: "runtime_step c s t"

definition runtime_reachable :: "RuntimeConfig \<Rightarrow> RuntimeState \<Rightarrow> bool" where
  "runtime_reachable c = (runtime_step c)\<^sup>*\<^sup>* (RuntimeMonitor.state (runtime_new c))"

section \<open>The invariant\<close>

definition hooks_ok :: "RuntimeConfig \<Rightarrow> RuntimeState \<Rightarrow> bool" where
  "hooks_ok c s \<longleftrightarrow>
     length (hooks s) \<le> hook_capacity c \<and>
     hook_ids s = map RuntimeHookEnvelope.event_id (hooks s) \<and> distinct (map RuntimeHookEnvelope.event_id (hooks s)) \<and>
     (\<forall>h \<in> set (hooks s). validate_hook h = ok)"

definition agent_covers :: "HookAgentState \<Rightarrow> RuntimeHookEnvelope \<Rightarrow> bool" where
  "agent_covers a h \<longleftrightarrow>
     RuntimeHookEnvelope.occurred_at h \<le> HookAgentState.last_hook_at a \<and>
     (RuntimeHookEnvelope.control_capable h \<longrightarrow> HookAgentState.control_capable a)"

definition agents_ok :: "RuntimeState \<Rightarrow> bool" where
  "agents_ok s \<longleftrightarrow>
     (\<forall>k a. hook_agents s k = Some a \<longrightarrow> telemetry_id a = k) \<and>
     (\<forall>h \<in> set (hooks s). \<exists>a. hook_agents s (hook_agent_key h) = Some a \<and> agent_covers a h)"

definition controllable :: "RuntimeState \<Rightarrow> string \<Rightarrow> bool" where
  "controllable s aid \<longleftrightarrow> (\<exists>a. hook_agents s aid = Some a \<and> HookAgentState.control_capable a)"

definition command_ok :: "RuntimeState \<Rightarrow> ControlCommand \<Rightarrow> bool" where
  "command_ok s d \<longleftrightarrow> controllable s (ControlCommand.agent_id d) \<and>
     (ControlCommand.status d = ControlStatus.Pending \<longleftrightarrow> acknowledged_at d = None)"

definition commands_ok :: "RuntimeConfig \<Rightarrow> RuntimeState \<Rightarrow> bool" where
  "commands_ok c s \<longleftrightarrow>
     length (commands s) \<le> command_capacity c \<and>
     distinct (map ControlCommand.command_id (commands s)) \<and>
     (\<forall>d \<in> set (commands s). command_ok s d)"

definition processes_ok :: "RuntimeState \<Rightarrow> bool" where
  "processes_ok s \<longleftrightarrow>
     (\<forall>p t. process_table s p = Some t \<longrightarrow> RuntimeProcessTelemetry.pid t = p) \<and>
     dom (process_table s) = dom (previous_process_ticks s) \<and> finite (dom (process_table s)) \<and>
     finite (dom (hook_agents s))"

definition runtime_inv :: "RuntimeConfig \<Rightarrow> RuntimeState \<Rightarrow> bool" where
  "runtime_inv c s \<longleftrightarrow> hooks_ok c s \<and> agents_ok s \<and> commands_ok c s \<and> processes_ok s"

lemmas runtime_inv_defs = runtime_inv_def hooks_ok_def agents_ok_def commands_ok_def processes_ok_def

lemma commands_okI:
  "length (commands t) \<le> command_capacity c \<Longrightarrow> distinct (map ControlCommand.command_id (commands t)) \<Longrightarrow>
   hook_agents t = hook_agents s \<Longrightarrow> \<forall>d \<in> set (commands t). command_ok s d \<Longrightarrow> commands_ok c t"
  by (simp add: commands_ok_def command_ok_def controllable_def)

section \<open>Hooks\<close>

lemma hook_status_keeps [simp]:
  "HookAgentState.agent (hook_status h k a) = HookAgentState.agent a"
  "HookAgentState.last_hook_at (hook_status h k a) = HookAgentState.last_hook_at a"
  "HookAgentState.control_capable (hook_status h k a) = HookAgentState.control_capable a"
  "HookAgentState.input_tokens (hook_status h k a) = HookAgentState.input_tokens a"
  "HookAgentState.output_tokens (hook_status h k a) = HookAgentState.output_tokens a"
  by (cases k; simp)+

lemma hook_agent_update_fields:
  "HookAgentState.last_hook_at (hook_agent_update h a) = max (HookAgentState.last_hook_at a) (RuntimeHookEnvelope.occurred_at h)"
  "HookAgentState.control_capable (hook_agent_update h a) \<longleftrightarrow>
     HookAgentState.control_capable a \<or> RuntimeHookEnvelope.control_capable h"
  "HookAgentState.input_tokens (hook_agent_update h a) = sat_add (HookAgentState.input_tokens a) (input_tokens_delta h)"
  "HookAgentState.output_tokens (hook_agent_update h a) = sat_add (HookAgentState.output_tokens a) (output_tokens_delta h)"
  by (auto simp: hook_agent_update_def hook_current_def Let_def)

lemma telemetry_id_update:
  "telemetry_id a = hook_agent_key h \<Longrightarrow> telemetry_id (hook_agent_update h a) = hook_agent_key h"
  by (simp add: telemetry_id_def hook_agent_key_def hook_agent_update_def hook_current_def Let_def)

lemma telemetry_id_new [simp]: "telemetry_id (hook_agent_new h) = hook_agent_key h"
  by (simp add: telemetry_id_def hook_agent_key_def hook_agent_new_def)

lemma agent_covers_update:
  "agent_covers (hook_agent_update h a) h"
  "agent_covers a g \<Longrightarrow> agent_covers (hook_agent_update h a) g"
  by (auto simp: agent_covers_def hook_agent_update_fields le_max_iff_disj)

text \<open>A hook is refused with the state unchanged, or recorded for its agent.\<close>

definition hook_agent_before :: "RuntimeHookEnvelope \<Rightarrow> RuntimeState \<Rightarrow> HookAgentState" where
  "hook_agent_before h s = (case hook_agents s (hook_agent_key h) of None \<Rightarrow> hook_agent_new h | Some a \<Rightarrow> a)"

definition hook_recorded :: "RuntimeConfig \<Rightarrow> RuntimeHookEnvelope \<Rightarrow> RuntimeState \<Rightarrow> RuntimeState" where
  "hook_recorded c h s = s\<lparr>
     hook_agents := (hook_agents s)(hook_agent_key h \<mapsto> hook_agent_update h (hook_agent_before h s)),
     hooks := take (hook_capacity c) (h # hooks s),
     hook_ids := take (hook_capacity c) (RuntimeHookEnvelope.event_id h # hook_ids s)\<rparr>"

definition hook_accepted :: "RuntimeHookEnvelope \<Rightarrow> RuntimeState \<Rightarrow> bool" where
  "hook_accepted h s \<longleftrightarrow> validate_hook h = ok \<and> RuntimeHookEnvelope.event_id h \<notin> set (hook_ids s)"

lemma ingest_hook_eq:
  "ingest_hook c h s =
     (if hook_accepted h s then (ok, hook_recorded c h s)
      else (if validate_hook h \<noteq> ok then validate_hook h else Inl DuplicateHook, s))"
  by (cases "validate_hook h")
    (auto simp: ingest_hook_def hook_accepted_def hook_recorded_def hook_agent_before_def trim_back_take Let_def ok_def)

lemma telemetry_id_before: "agents_ok s \<Longrightarrow> telemetry_id (hook_agent_before h s) = hook_agent_key h"
  by (auto simp: agents_ok_def hook_agent_before_def split: option.splits)

lemma hooks_ok_recorded:
  assumes "hooks_ok c s" and "hook_accepted h s"
  shows "hooks_ok c (hook_recorded c h s)"
proof -
  have "distinct (map RuntimeHookEnvelope.event_id (h # hooks s))" and "\<forall>g \<in> set (h # hooks s). validate_hook g = ok"
    using assms unfolding hooks_ok_def hook_accepted_def by auto
  then have "distinct (take n (map RuntimeHookEnvelope.event_id (h # hooks s))) \<and>
      (\<forall>g \<in> set (take n (h # hooks s)). validate_hook g = ok)" for n
    by (meson distinct_take in_set_takeD)
  moreover have "hook_ids s = map RuntimeHookEnvelope.event_id (hooks s)"
    using assms by (simp add: hooks_ok_def)
  ultimately show ?thesis
    by (simp add: hooks_ok_def hook_recorded_def take_map [symmetric] flip: list.map(2))
qed

lemma agents_ok_recorded:
  assumes ok: "agents_ok s"
  shows "agents_ok (hook_recorded c h s)"
proof -
  have "\<exists>b. hook_agents (hook_recorded c h s) (hook_agent_key g) = Some b \<and> agent_covers b g"
    if "g \<in> set (h # hooks s)" for g
  proof (cases "g \<in> set (hooks s)")
    case True
    with ok obtain b where "hook_agents s (hook_agent_key g) = Some b" "agent_covers b g"
      by (auto simp: agents_ok_def)
    then show ?thesis
      by (cases "hook_agent_key g = hook_agent_key h")
        (auto simp: hook_recorded_def hook_agent_before_def agent_covers_update)
  next
    case False
    with that show ?thesis by (simp add: hook_recorded_def agent_covers_update)
  qed
  moreover have "set (hooks (hook_recorded c h s)) \<subseteq> set (h # hooks s)"
    by (auto simp: hook_recorded_def dest: in_set_takeD)
  ultimately have "\<forall>g \<in> set (hooks (hook_recorded c h s)).
      \<exists>b. hook_agents (hook_recorded c h s) (hook_agent_key g) = Some b \<and> agent_covers b g"
    by blast
  moreover have "\<forall>k a. hook_agents (hook_recorded c h s) k = Some a \<longrightarrow> telemetry_id a = k"
    using ok telemetry_id_update [OF telemetry_id_before [OF ok]] by (simp add: hook_recorded_def agents_ok_def)
  ultimately show ?thesis by (simp add: agents_ok_def)
qed

lemma runtime_inv_hook:
  assumes inv: "runtime_inv c s"
  shows "runtime_inv c (snd (ingest_hook c h s))"
proof (cases "hook_accepted h s")
  case True
  have "commands_ok c (hook_recorded c h s)" "processes_ok (hook_recorded c h s)"
    using inv by (auto simp: runtime_inv_defs command_ok_def controllable_def hook_recorded_def hook_agent_before_def
        hook_agent_update_fields)
  with inv True show ?thesis
    by (simp add: runtime_inv_def ingest_hook_eq hooks_ok_recorded agents_ok_recorded)
qed (simp add: ingest_hook_eq inv)

section \<open>Commands\<close>

definition command_new :: "Uuid \<Rightarrow> DateTime \<Rightarrow> ControlCommandRequest \<Rightarrow> ControlCommand" where
  "command_new new_v4 now q = \<lparr>ControlCommand.command_id = new_v4, created_at = now,
     agent_id = ControlCommandRequest.agent_id q, action = ControlCommandRequest.action q,
     status = ControlStatus.Pending, acknowledged_at = None, message = None\<rparr>"

definition command_queued :: "RuntimeConfig \<Rightarrow> ControlCommand \<Rightarrow> RuntimeState \<Rightarrow> RuntimeState" where
  "command_queued c d s = s\<lparr>commands := take (command_capacity c) (d # commands s)\<rparr>"

lemma enqueue_command_eq:
  "enqueue_command c new_v4 now q s =
     (if validate_request q \<noteq> ok then (Inl (projl (validate_request q)), s)
      else if \<not> controllable s (ControlCommandRequest.agent_id q) then (Inl AgentNotHookBacked, s)
      else (Inr (command_new new_v4 now q), command_queued c (command_new new_v4 now q) s))"
  by (cases "validate_request q"; cases "hook_agents s (ControlCommandRequest.agent_id q)")
    (auto simp: enqueue_command_def command_new_def command_queued_def controllable_def trim_back_take ok_def Let_def)

lemma command_new_fields [simp]:
  "ControlCommand.command_id (command_new new_v4 now q) = new_v4"
  "ControlCommand.agent_id (command_new new_v4 now q) = ControlCommandRequest.agent_id q"
  "ControlCommand.status (command_new new_v4 now q) = ControlStatus.Pending"
  "acknowledged_at (command_new new_v4 now q) = None"
  by (simp_all add: command_new_def)

lemma runtime_inv_queued:
  assumes inv: "runtime_inv c s" and fresh: "ControlCommand.command_id d \<notin> ControlCommand.command_id ` set (commands s)"
    and new: "command_ok s d"
  shows "runtime_inv c (command_queued c d s)"
proof -
  have "distinct (map ControlCommand.command_id (d # commands s))"
    using inv fresh by (simp add: runtime_inv_def commands_ok_def)
  then have "distinct (map ControlCommand.command_id (take (command_capacity c) (d # commands s)))"
    by (metis distinct_take take_map)
  moreover have "\<forall>e \<in> set (take (command_capacity c) (d # commands s)). command_ok s e"
    using inv new by (auto simp: runtime_inv_def commands_ok_def dest!: in_set_takeD)
  ultimately have "commands_ok c (command_queued c d s)"
    by (intro commands_okI [where s = s]) (simp_all add: command_queued_def)
  with inv show ?thesis
    by (simp add: runtime_inv_def hooks_ok_def agents_ok_def processes_ok_def command_queued_def)
qed

lemma runtime_inv_enqueue:
  "runtime_inv c s \<Longrightarrow> new_v4 \<notin> ControlCommand.command_id ` set (commands s) \<Longrightarrow>
   runtime_inv c (snd (enqueue_command c new_v4 now q s))"
  by (simp add: enqueue_command_eq runtime_inv_queued command_ok_def)

lemma find_SomeD: "find p xs = Some x \<Longrightarrow> x \<in> set xs \<and> p x"
  by (metis find_Some_iff nth_mem)

definition named_by :: "ControlCommandAck \<Rightarrow> ControlCommand \<Rightarrow> bool" where
  "named_by ack d \<longleftrightarrow> ControlCommand.command_id d = ControlCommandAck.command_id ack"

lemma acknowledge_command_eq:
  "acknowledge_command now ack s =
     (if validate_ack ack \<noteq> ok then (Inl (projl (validate_ack ack)), s)
      else case find (named_by ack) (commands s) of
          None \<Rightarrow> (Inl CommandNotFound, s)
        | Some d \<Rightarrow>
            if ControlCommand.agent_id d \<noteq> ControlCommandAck.agent_id ack then (Inl CommandAgentMismatch, s)
            else (Inr (settle_command ack now d),
                  s\<lparr>commands := update_first (named_by ack) (settle_command ack now) (commands s)\<rparr>))"
  unfolding acknowledge_command_def named_by_def [abs_def] by (cases "validate_ack ack") (simp_all add: ok_def Let_def)

lemma settle_command_fields [simp]:
  "ControlCommand.command_id (settle_command ack now d) = ControlCommand.command_id d"
  "ControlCommand.agent_id (settle_command ack now d) = ControlCommand.agent_id d"
  "ControlCommand.status (settle_command ack now d) = (if accepted ack then Acknowledged else Rejected)"
  "acknowledged_at (settle_command ack now d) = Some now"
  by (simp_all add: settle_command_def)

lemma length_update_first [simp]: "length (update_first p f xs) = length xs"
  by (induction xs) auto

lemma runtime_inv_settled:
  assumes inv: "runtime_inv c s"
  shows "runtime_inv c (s\<lparr>commands := update_first (named_by ack) (settle_command ack now) (commands s)\<rparr>)"
proof -
  let ?cs = "update_first (named_by ack) (settle_command ack now) (commands s)"
  have "map ControlCommand.command_id ?cs = map ControlCommand.command_id (commands s)"
    by (rule update_first_keeps) simp
  moreover have "\<forall>d \<in> set ?cs. command_ok s d"
  proof
    fix d assume "d \<in> set ?cs"
    then have "d \<in> set (commands s) \<or> (\<exists>e \<in> set (commands s). d = settle_command ack now e)"
      using set_update_first [of "named_by ack" "settle_command ack now" "commands s"] by blast
    with inv show "command_ok s d" by (auto simp: runtime_inv_def commands_ok_def command_ok_def split: if_splits)
  qed
  ultimately have "commands_ok c (s\<lparr>commands := ?cs\<rparr>)"
    using inv by (intro commands_okI [where s = s]) (simp_all add: runtime_inv_def commands_ok_def)
  with inv show ?thesis
    by (simp add: runtime_inv_def hooks_ok_def agents_ok_def processes_ok_def)
qed

lemma runtime_inv_acknowledge: "runtime_inv c s \<Longrightarrow> runtime_inv c (snd (acknowledge_command now ack s))"
  by (auto simp: acknowledge_command_eq runtime_inv_settled split: option.splits)

section \<open>Samples\<close>

lemma fold_map_upd:
  "fold (\<lambda>p m. m(f p \<mapsto> g p)) ps m k = Some v \<Longrightarrow> (\<exists>p \<in> set ps. f p = k \<and> g p = v) \<or> m k = Some v"
proof (induction ps arbitrary: m)
  case (Cons p ps)
  then have "(\<exists>p \<in> set ps. f p = k \<and> g p = v) \<or> (m(f p \<mapsto> g p)) k = Some v"
    by (simp only: fold_simps)
  then show ?case by (auto split: if_splits)
qed simp

lemma dom_fold_map_upd: "dom (fold (\<lambda>p m. m(f p \<mapsto> g p)) ps m) = f ` set ps \<union> dom m"
  by (induction ps arbitrary: m) auto

lemma processes_ok_sampled: "processes_ok s \<Longrightarrow> processes_ok (apply_proc_snapshot snap now s)"
  by (auto simp: apply_proc_snapshot_def processes_ok_def dom_fold_map_upd process_sample_def dest!: fold_map_upd)

lemma apply_proc_snapshot_keeps [simp]:
  "hooks (apply_proc_snapshot snap now s) = hooks s" "hook_ids (apply_proc_snapshot snap now s) = hook_ids s"
  "hook_agents (apply_proc_snapshot snap now s) = hook_agents s" "commands (apply_proc_snapshot snap now s) = commands s"
  by (simp_all add: apply_proc_snapshot_def)

lemma record_collection_error_keeps [simp]:
  "hooks (record_collection_error e s) = hooks s" "hook_ids (record_collection_error e s) = hook_ids s"
  "hook_agents (record_collection_error e s) = hook_agents s" "commands (record_collection_error e s) = commands s"
  "processes_ok (record_collection_error e s) = processes_ok s"
  by (simp_all add: record_collection_error_def processes_ok_def)

lemma runtime_inv_same_queues:
  assumes "runtime_inv c s" "processes_ok t" "hooks t = hooks s" "hook_ids t = hook_ids s" "hook_agents t = hook_agents s"
    "commands t = commands s"
  shows "runtime_inv c t"
  using assms by (simp add: runtime_inv_def hooks_ok_def agents_ok_def commands_ok_def command_ok_def controllable_def)

lemma runtime_inv_collect: "runtime_inv c s \<Longrightarrow> runtime_inv c (collect_once sample now s)"
  by (rule runtime_inv_same_queues, assumption; cases sample)
    (simp_all add: collect_once_def processes_ok_sampled runtime_inv_def)

lemma runtime_inv_step: "runtime_step c s t \<Longrightarrow> runtime_inv c s \<Longrightarrow> runtime_inv c t"
  by (erule runtime_stepE)
    (auto intro: runtime_inv_hook runtime_inv_enqueue runtime_inv_acknowledge runtime_inv_collect)

lemma runtime_inv_new: "runtime_inv c (RuntimeMonitor.state (runtime_new c))"
  by (simp add: runtime_new_def runtime_inv_defs)

lemma runtime_inv_reachable: "runtime_reachable c s \<Longrightarrow> runtime_inv c s"
  unfolding runtime_reachable_def
  by (induction rule: rtranclp_induct) (auto intro: runtime_inv_new runtime_inv_step)

end
