(* ===== verification/RuntimeSpec.thy ===== *)
theory RuntimeSpec
  imports RuntimeInv
begin

text \<open>
  The properties of the runtime monitor: its invariant, what it keeps of a sequence of hooks, the life
  of a control command, and what a snapshot lists.
\<close>

section \<open>A monitor that has seen one hook\<close>

definition monitor_demo_config :: RuntimeConfig where
  "monitor_demo_config = \<lparr>RuntimeConfig.process_collection_enabled = True, proc_root = ''/proc'', sample_interval = 1000,
     process_patterns = [''claude''], hook_capacity = 2, command_capacity = 1\<rparr>"

definition monitor_demo_hook :: RuntimeHookEnvelope where
  "monitor_demo_hook = \<lparr>RuntimeHookEnvelope.protocol_version = ''v1'', event_id = 7, occurred_at = (100, 0),
     agent = \<lparr>RuntimeAgentRef.agent_id = ''a'', provider = ''p'', model = ''m'', instance_id = None\<rparr>, session_id = None, pid = Some 42,
     kind = ModelResponse, control_capable = True, summary = None, tool_name = None, confidence = None, cpu_percent = None,
     rss_bytes = None, memory_percent = None, input_tokens_delta = 10, output_tokens_delta = 4, metadata = []\<rparr>"

definition monitor_demo_state :: RuntimeState where
  "monitor_demo_state = snd (ingest_hook monitor_demo_config monitor_demo_hook (RuntimeMonitor.state (runtime_new monitor_demo_config)))"

definition monitor_demo_request :: ControlCommandRequest where
  "monitor_demo_request = \<lparr>ControlCommandRequest.agent_id = ''a'', action = Stop\<rparr>"

definition monitor_demo_ack :: ControlCommandAck where
  "monitor_demo_ack = \<lparr>ControlCommandAck.command_id = 9, agent_id = ''a'', accepted = True, message = None\<rparr>"

lemma monitor_demo_hook_valid: "validate_hook monitor_demo_hook = ok"
  by code_simp

lemma monitor_demo_ack_valid: "validate_ack monitor_demo_ack = ok" "validate_request monitor_demo_request = ok"
  by code_simp+

lemma monitor_demo_state_eq: "monitor_demo_state = hook_recorded monitor_demo_config monitor_demo_hook (RuntimeMonitor.state (runtime_new monitor_demo_config))"
  by (simp add: monitor_demo_state_def ingest_hook_eq hook_accepted_def monitor_demo_hook_valid runtime_new_def)

lemma monitor_demo_reachable: "runtime_reachable monitor_demo_config monitor_demo_state"
  unfolding runtime_reachable_def monitor_demo_state_def by (rule r_into_rtranclp) (rule runtime_step.hook)

lemma monitor_demo_agents: "hook_agents monitor_demo_state =
    [''a'' \<mapsto> hook_agent_update monitor_demo_hook (hook_agent_new monitor_demo_hook)]"
  by (simp add: monitor_demo_state_eq hook_recorded_def runtime_new_def hook_agent_before_def hook_agent_key_def monitor_demo_hook_def)

lemma monitor_demo_rest [simp]: "commands monitor_demo_state = []" "process_table monitor_demo_state = (\<lambda>_. None)"
  by (simp_all add: monitor_demo_state_eq hook_recorded_def runtime_new_def)

lemma monitor_demo_capable: "HookAgentState.control_capable (hook_agent_update monitor_demo_hook (hook_agent_new monitor_demo_hook))"
  by (simp add: hook_agent_update_fields monitor_demo_hook_def)

lemma monitor_demo_enqueue:
  "enqueue_command monitor_demo_config 9 (101, 0) monitor_demo_request monitor_demo_state =
     (Inr (command_new 9 (101, 0) monitor_demo_request), command_queued monitor_demo_config (command_new 9 (101, 0) monitor_demo_request) monitor_demo_state)"
  by (simp add: enqueue_command_eq monitor_demo_ack_valid controllable_def monitor_demo_agents monitor_demo_capable) (simp add: monitor_demo_request_def)

section \<open>The invariant\<close>

text \<open>
  Every state the monitor can reach keeps its bounds and its bookkeeping. The recorded hooks
  and commands are within the configured capacities; every recorded hook is valid, the hook
  identifiers are exactly those of the recorded hooks and are distinct; every recorded hook is
  reflected in the state of its agent; every command belongs to an agent that is control capable, has
  its own identifier, and is pending exactly until it is acknowledged; and the process table is
  keyed by process identifier with a tick count for every process.
\<close>
theorem runtime_state_invariant:
  "runtime_reachable c s \<Longrightarrow> runtime_inv c s"
  by (rule runtime_inv_reachable)

theorem runtime_state_invariant_witness:
  "hooks monitor_demo_state = [monitor_demo_hook] \<and> runtime_inv monitor_demo_config monitor_demo_state"
  using runtime_state_invariant [OF monitor_demo_reachable]
  by (simp add: monitor_demo_state_eq hook_recorded_def runtime_new_def monitor_demo_config_def)

section \<open>Sequences of hooks\<close>

text \<open>A sequence of calls of \<open>ingest_hook\<close>, and the hooks among them that are accepted.\<close>

definition hook_run :: "RuntimeConfig \<Rightarrow> RuntimeHookEnvelope list \<Rightarrow> RuntimeState \<Rightarrow> RuntimeState" where
  "hook_run c hs s = fold (\<lambda>h t. snd (ingest_hook c h t)) hs s"

fun accepted_hooks :: "RuntimeConfig \<Rightarrow> RuntimeHookEnvelope list \<Rightarrow> RuntimeState \<Rightarrow> RuntimeHookEnvelope list" where
  "accepted_hooks c [] s = []"
| "accepted_hooks c (h # hs) s =
     (if fst (ingest_hook c h s) = ok then [h] else []) @ accepted_hooks c hs (snd (ingest_hook c h s))"

text \<open>The hook with the latest time, the last one to arrive among equals.\<close>

definition latest_hook :: "RuntimeHookEnvelope list \<Rightarrow> RuntimeHookEnvelope" where
  "latest_hook hs =
     fold (\<lambda>h b. if RuntimeHookEnvelope.occurred_at b \<le> RuntimeHookEnvelope.occurred_at h then h else b) (tl hs) (hd hs)"

definition hooks_of :: "string \<Rightarrow> RuntimeHookEnvelope list \<Rightarrow> RuntimeHookEnvelope list" where
  "hooks_of k hs = filter (\<lambda>h. hook_agent_key h = k) hs"

text \<open>The hooks that were not late when they arrived: none before them was of a later time.\<close>

definition timely :: "RuntimeHookEnvelope list \<Rightarrow> RuntimeHookEnvelope list" where
  "timely hs = map (\<lambda>i. hs ! i)
     (filter (\<lambda>i. \<forall>j < i. RuntimeHookEnvelope.occurred_at (hs ! j) \<le> RuntimeHookEnvelope.occurred_at (hs ! i)) [0..<length hs])"

text \<open>The last value that is given in a list of optional values.\<close>

definition last_given :: "'x option list \<Rightarrow> 'x option" where
  "last_given vs = (let ws = filter (\<lambda>v. v \<noteq> None) vs in if ws = [] then None else last ws)"

text \<open>The status and the tool that a hook reports, if it reports one.\<close>

definition reported_status :: "RuntimeHookEnvelope \<Rightarrow> string option" where
  "reported_status h =
     (if RuntimeHookEnvelope.kind h \<in> {HookHeartbeat, ConfidenceReported} then None
      else if RuntimeHookEnvelope.kind h = HookErrorObserved then Some ''failed''
      else if RuntimeHookEnvelope.kind h = SessionFinished then Some ''idle'' else Some ''running'')"

definition reported_tool :: "RuntimeHookEnvelope \<Rightarrow> string option option" where
  "reported_tool h =
     (if RuntimeHookEnvelope.kind h = ToolStarted then Some (tool_name h)
      else if RuntimeHookEnvelope.kind h \<in> {ToolFinished, SessionFinished} then Some None else None)"

text \<open>
  What the state of an agent says of the hooks of the agent: sums over all of them, and of every other field the last value that
  a hook gave that was not late.
\<close>

definition summarizes :: "HookAgentState \<Rightarrow> RuntimeHookEnvelope list \<Rightarrow> bool" where
  "summarizes a hs \<longleftrightarrow>
     unat (HookAgentState.input_tokens a) = min (\<Sum>h\<leftarrow>hs. unat (input_tokens_delta h)) (2 ^ 64 - 1) \<and>
     unat (HookAgentState.output_tokens a) = min (\<Sum>h\<leftarrow>hs. unat (output_tokens_delta h)) (2 ^ 64 - 1) \<and>
     (HookAgentState.control_capable a \<longleftrightarrow> (\<exists>h \<in> set hs. RuntimeHookEnvelope.control_capable h)) \<and>
     HookAgentState.last_hook_at a = RuntimeHookEnvelope.occurred_at (latest_hook hs) \<and>
     HookAgentState.agent a = RuntimeHookEnvelope.agent (latest_hook hs) \<and>
     HookAgentState.session_id a = last_given (map RuntimeHookEnvelope.session_id (timely hs)) \<and>
     HookAgentState.pid a = last_given (map RuntimeHookEnvelope.pid (timely hs)) \<and>
     HookAgentState.reported_confidence a = last_given (map RuntimeHookEnvelope.confidence (timely hs)) \<and>
     HookAgentState.cpu_percent a = last_given (map RuntimeHookEnvelope.cpu_percent (timely hs)) \<and>
     HookAgentState.rss_bytes a = last_given (map RuntimeHookEnvelope.rss_bytes (timely hs)) \<and>
     HookAgentState.memory_percent a = last_given (map RuntimeHookEnvelope.memory_percent (timely hs)) \<and>
     HookAgentState.current_activity a = last_given (map RuntimeHookEnvelope.summary (timely hs)) \<and>
     HookAgentState.status a = (case last_given (map reported_status (timely hs)) of None \<Rightarrow> ''observed'' | Some st \<Rightarrow> st) \<and>
     HookAgentState.current_tool a = (case last_given (map reported_tool (timely hs)) of None \<Rightarrow> None | Some tool \<Rightarrow> tool)"

lemma last_given_snoc: "last_given (vs @ [v]) = (if v \<noteq> None then v else last_given vs)"
  by (simp add: last_given_def Let_def)

lemma last_given_nil [simp]: "last_given [] = None"
  by (simp add: last_given_def)

lemma timely_nil [simp]: "timely [] = []"
  by (simp add: timely_def)

lemma timely_snoc:
  "timely (hs @ [h]) = timely hs @
     (if \<forall>g \<in> set hs. RuntimeHookEnvelope.occurred_at g \<le> RuntimeHookEnvelope.occurred_at h then [h] else [])"
proof -
  have "map (\<lambda>i. (hs @ [h]) ! i) (filter (\<lambda>i. \<forall>j < i. RuntimeHookEnvelope.occurred_at ((hs @ [h]) ! j) \<le>
      RuntimeHookEnvelope.occurred_at ((hs @ [h]) ! i)) [0..<length hs]) = timely hs"
    unfolding timely_def by (intro map_cong filter_cong) (auto simp: nth_append)
  moreover have "(\<forall>j < length hs. RuntimeHookEnvelope.occurred_at ((hs @ [h]) ! j) \<le> RuntimeHookEnvelope.occurred_at h) \<longleftrightarrow>
      (\<forall>g \<in> set hs. RuntimeHookEnvelope.occurred_at g \<le> RuntimeHookEnvelope.occurred_at h)"
    by (simp add: nth_append all_set_conv_all_nth)
  ultimately show ?thesis by (simp add: timely_def)
qed

lemma latest_hook_snoc:
  "hs \<noteq> [] \<Longrightarrow> latest_hook (hs @ [h]) =
     (if RuntimeHookEnvelope.occurred_at (latest_hook hs) \<le> RuntimeHookEnvelope.occurred_at h then h else latest_hook hs)"
  by (cases hs) (simp_all add: latest_hook_def)

lemma latest_hook_single [simp]: "latest_hook [h] = h"
  by (simp add: latest_hook_def)

lemma latest_hook_max:
  "hs \<noteq> [] \<Longrightarrow> latest_hook hs \<in> set hs \<and>
     (\<forall>h \<in> set hs. RuntimeHookEnvelope.occurred_at h \<le> RuntimeHookEnvelope.occurred_at (latest_hook hs))"
proof (induction hs rule: rev_induct)
  case (snoc h hs)
  then show ?case
    by (cases "hs = []") (auto simp: latest_hook_snoc)
qed simp

lemma hook_agent_update_agent:
  "HookAgentState.agent (hook_agent_update h a) =
     (if HookAgentState.last_hook_at a \<le> RuntimeHookEnvelope.occurred_at h then RuntimeHookEnvelope.agent h
      else HookAgentState.agent a)"
  by (simp add: hook_agent_update_def hook_current_def Let_def)

lemma sat_add_min:
  fixes b :: u64
  assumes "unat a = min n (2 ^ 64 - 1)"
  shows "unat (sat_add a b) = min (n + unat b) (2 ^ 64 - 1)"
  using assms by (simp add: unat_sat_add)

text \<open>The fields that a hook updates when it is not late.\<close>

lemma hook_current_fields:
  "HookAgentState.agent (hook_current h a) = RuntimeHookEnvelope.agent h"
  "HookAgentState.session_id (hook_current h a) = or_keep (RuntimeHookEnvelope.session_id h) (HookAgentState.session_id a)"
  "HookAgentState.pid (hook_current h a) = or_keep (RuntimeHookEnvelope.pid h) (HookAgentState.pid a)"
  "HookAgentState.reported_confidence (hook_current h a) = or_keep (RuntimeHookEnvelope.confidence h) (HookAgentState.reported_confidence a)"
  "HookAgentState.cpu_percent (hook_current h a) = or_keep (RuntimeHookEnvelope.cpu_percent h) (HookAgentState.cpu_percent a)"
  "HookAgentState.rss_bytes (hook_current h a) = or_keep (RuntimeHookEnvelope.rss_bytes h) (HookAgentState.rss_bytes a)"
  "HookAgentState.memory_percent (hook_current h a) = or_keep (RuntimeHookEnvelope.memory_percent h) (HookAgentState.memory_percent a)"
  "HookAgentState.current_activity (hook_current h a) = or_keep (RuntimeHookEnvelope.summary h) (HookAgentState.current_activity a)"
  "HookAgentState.status (hook_current h a) = (case reported_status h of None \<Rightarrow> HookAgentState.status a | Some st \<Rightarrow> st)"
  "HookAgentState.current_tool (hook_current h a) = (case reported_tool h of None \<Rightarrow> HookAgentState.current_tool a | Some tool \<Rightarrow> tool)"
  by (cases "RuntimeHookEnvelope.kind h"; simp add: hook_current_def reported_status_def reported_tool_def)+

lemma not_late_iff:
  assumes "hs \<noteq> []"
  shows "(\<forall>g \<in> set hs. RuntimeHookEnvelope.occurred_at g \<le> t) \<longleftrightarrow> RuntimeHookEnvelope.occurred_at (latest_hook hs) \<le> t"
  using latest_hook_max [OF assms] by (meson order_trans)

lemma summarizes_update:
  assumes "summarizes a hs" and "hs \<noteq> []"
  shows "summarizes (hook_agent_update h a) (hs @ [h])"
proof (cases "HookAgentState.last_hook_at a \<le> RuntimeHookEnvelope.occurred_at h")
  case True
  with assms show ?thesis
    unfolding summarizes_def hook_agent_update_fields
    by (simp add: hook_agent_update_def hook_current_fields Let_def timely_snoc not_late_iff [OF assms(2)] latest_hook_snoc
        last_given_snoc or_keep_def sat_add_min max_def disj_commute del: of_nat_numeral split: option.splits)
next
  case False
  with assms show ?thesis
    unfolding summarizes_def hook_agent_update_fields
    by (simp add: hook_agent_update_def Let_def timely_snoc not_late_iff [OF assms(2)] latest_hook_snoc sat_add_min max_def
        disj_commute del: of_nat_numeral)
qed

lemma summarizes_new: "summarizes (hook_agent_update h (hook_agent_new h)) [h]"
proof -
  have one: "timely [h] = [h]" using timely_snoc [of "[]" h] by simp
  have given: "last_given [v] = v" for v :: "'x option" using last_given_snoc [of "[]" v] by simp
  show ?thesis
    using unat_le_max [of "input_tokens_delta h"] unat_le_max [of "output_tokens_delta h"]
    unfolding summarizes_def hook_agent_update_fields one
    by (auto simp: hook_agent_update_def hook_current_fields given hook_agent_new_def or_keep_def unat_sat_add Let_def
        split: option.splits)
qed

lemma accepted_hooks_append:
  "accepted_hooks c (hs @ gs) s = accepted_hooks c hs s @ accepted_hooks c gs (hook_run c hs s)"
  by (induction hs arbitrary: s) (simp_all add: hook_run_def)

lemma hook_run_snoc: "hook_run c (hs @ [h]) s = snd (ingest_hook c h (hook_run c hs s))"
  by (simp add: hook_run_def)

text \<open>
  C19. The per-agent summary that the monitor keeps is exact for every sequence of hooks, in any
  order of arrival: an agent is present exactly if a hook of it was accepted; its token counts are
  the sums of the accepted deltas, capped at the largest 64-bit value; it is control capable exactly
  if one of its hooks said so; its time and identity are those of its latest hook; and its session, process, confidence, measures,
  activity, status and tool are the last ones that a hook gave that was not late on arrival, so that a hook
  that arrives late never moves the agent back in time.
\<close>
theorem hook_summaries_exact:
  "case hook_agents (hook_run c hs (RuntimeMonitor.state (runtime_new c))) k of
     None \<Rightarrow> hooks_of k (accepted_hooks c hs (RuntimeMonitor.state (runtime_new c))) = []
   | Some a \<Rightarrow>
       hooks_of k (accepted_hooks c hs (RuntimeMonitor.state (runtime_new c))) \<noteq> [] \<and>
       summarizes a (hooks_of k (accepted_hooks c hs (RuntimeMonitor.state (runtime_new c))))"
  (is "?P hs")
proof (induction hs rule: rev_induct)
  case Nil
  show ?case by (simp add: hook_run_def runtime_new_def hooks_of_def)
next
  case (snoc h hs)
  let ?s = "RuntimeMonitor.state (runtime_new c)" and ?t = "hook_run c hs (RuntimeMonitor.state (runtime_new c))"
  show ?case
  proof (cases "hook_accepted h ?t")
    case False
    then have "fst (ingest_hook c h ?t) \<noteq> ok"
      by (simp add: ingest_hook_eq ok_def)
    then have "accepted_hooks c (hs @ [h]) ?s = accepted_hooks c hs ?s"
      by (simp add: accepted_hooks_append)
    with False snoc show ?thesis
      by (simp add: hook_run_snoc ingest_hook_eq split: option.splits)
  next
    case True
    have same: "hooks_of k (accepted_hooks c (hs @ [h]) ?s) =
        hooks_of k (accepted_hooks c hs ?s) @ (if hook_agent_key h = k then [h] else [])"
      by (simp add: accepted_hooks_append ingest_hook_eq True hooks_of_def)
    show ?thesis
    proof (cases "hook_agent_key h = k")
      case key: True
      then show ?thesis
        using snoc
        by (auto simp: hook_run_snoc ingest_hook_eq True hook_recorded_def hook_agent_before_def same
            summarizes_update summarizes_new split: option.splits)
    next
      case False
      with snoc show ?thesis
        by (simp add: hook_run_snoc ingest_hook_eq True hook_recorded_def same split: option.splits)
    qed
  qed
qed

section \<open>Commands\<close>

lemma distinct_find:
  assumes "distinct (map ControlCommand.command_id cs)" and "d \<in> set cs" and "named_by ack d"
  shows "find (named_by ack) cs = Some d"
proof -
  obtain e where e: "find (named_by ack) cs = Some e"
    using assms(2,3) by (cases "find (named_by ack) cs") (auto simp: find_None_iff)
  then have "e \<in> set cs" "named_by ack e" using find_SomeD by fast+
  then have "e = d" using assms unfolding named_by_def by (metis eq_key_imp_eq_value inj_on_eq_iff distinct_map)
  with e show ?thesis by simp
qed

lemma settled_commands:
  assumes "distinct (map ControlCommand.command_id cs)"
  shows "update_first (named_by ack) f cs = map (\<lambda>d. if named_by ack d then f d else d) cs"
  using update_first_map [OF assms, of "ControlCommandAck.command_id ack" f] by (simp add: named_by_def [abs_def])

lemma pending_settled:
  "filter (\<lambda>d. ControlCommand.agent_id d = b \<and> ControlCommand.status d = ControlStatus.Pending)
     (map (\<lambda>d. if named_by ack d then settle_command ack now d else d) cs) =
   filter (\<lambda>d. ControlCommand.command_id d \<noteq> ControlCommandAck.command_id ack)
     (filter (\<lambda>d. ControlCommand.agent_id d = b \<and> ControlCommand.status d = ControlStatus.Pending) cs)"
  by (induction cs) (auto simp: named_by_def)

lemma kept_or_last:
  assumes "length cs \<le> n" and "d \<in> set cs"
  shows "d \<in> set (take n (e # cs)) \<or> (length cs = n \<and> d = last cs)"
proof -
  obtain m where "n = Suc m" using assms by (cases n) auto
  with assms show ?thesis by (cases cs rule: rev_cases; cases "length cs = n") auto
qed

lemma in_update_first: "d \<in> set xs \<Longrightarrow> \<not> p d \<Longrightarrow> d \<in> set (update_first p f xs)"
  by (induction xs) auto

lemma list_pending_eq:
  "list_pending b s =
     (if runtime_validate_text ''agent_id'' b 256 \<noteq> ok then Inl (projl (runtime_validate_text ''agent_id'' b 256))
      else Inr (filter (\<lambda>d. ControlCommand.agent_id d = b \<and> ControlCommand.status d = ControlStatus.Pending) (commands s)))"
  by (cases "runtime_validate_text ''agent_id'' b 256") (simp_all add: list_pending_def ok_def)

text \<open>
  C20. The life of a control command. A command is queued only for an agent that reported itself
  control capable, and is then pending for that agent. An acknowledgement of it by any other agent is
  an error that changes nothing; by its own agent it settles the command, with the verdict, and takes
  exactly this command out of the pending lists, of every agent.
\<close>
theorem command_lifecycle:
  assumes reachable: "runtime_reachable c s"
    and fresh: "new_v4 \<notin> ControlCommand.command_id ` set (commands s)" and capacity: "0 < command_capacity c"
    and queued: "enqueue_command c new_v4 now q s = (Inr d, t)"
    and ack: "validate_ack ack = ok" "ControlCommandAck.command_id ack = new_v4"
  shows "controllable s (ControlCommandRequest.agent_id q) \<and>
    (\<exists>ds. list_pending (ControlCommandRequest.agent_id q) t = Inr (d # ds)) \<and>
    (ControlCommandAck.agent_id ack \<noteq> ControlCommandRequest.agent_id q \<longrightarrow>
       acknowledge_command later ack t = (Inl CommandAgentMismatch, t)) \<and>
    (ControlCommandAck.agent_id ack = ControlCommandRequest.agent_id q \<longrightarrow>
       (\<exists>u. acknowledge_command later ack t = (Inr (settle_command ack later d), u) \<and>
          (\<forall>b. list_pending b u = map_sum id (filter (\<lambda>e. ControlCommand.command_id e \<noteq> new_v4)) (list_pending b t))))"
proof -
  have valid: "validate_request q = ok" and ctl: "controllable s (ControlCommandRequest.agent_id q)"
    and d: "d = command_new new_v4 now q" and t: "t = command_queued c d s"
    using queued by (auto simp: enqueue_command_eq split: if_splits)
  have cs: "commands t = d # take (command_capacity c - 1) (commands s)"
    using capacity by (simp add: t command_queued_def take_Cons')
  have "runtime_inv c t"
    using runtime_inv_enqueue [OF runtime_inv_reachable [OF reachable] fresh, of now q] queued by simp
  then have dist: "distinct (map ControlCommand.command_id (commands t))"
    by (simp add: runtime_inv_def commands_ok_def)
  have found: "find (named_by ack) (commands t) = Some d"
    by (rule distinct_find [OF dist]) (simp_all add: cs d named_by_def ack)
  have "\<exists>ds. list_pending (ControlCommandRequest.agent_id q) t = Inr (d # ds)"
    using valid by (simp add: list_pending_eq validate_request_def cs d)
  with ctl show ?thesis
    using found ack d settled_commands [OF dist]
    by (simp add: acknowledge_command_eq list_pending_eq pending_settled)
qed

theorem command_lifecycle_witness:
  "\<exists>t u. enqueue_command monitor_demo_config 9 (101, 0) monitor_demo_request monitor_demo_state = (Inr (command_new 9 (101, 0) monitor_demo_request), t) \<and>
     acknowledge_command (102, 0) monitor_demo_ack t = (Inr (settle_command monitor_demo_ack (102, 0) (command_new 9 (101, 0) monitor_demo_request)), u)"
proof -
  have "ControlCommandAck.agent_id monitor_demo_ack = ControlCommandRequest.agent_id monitor_demo_request"
    by (simp add: monitor_demo_ack_def monitor_demo_request_def)
  moreover have "(9 :: Uuid) \<notin> ControlCommand.command_id ` set (commands monitor_demo_state)" "0 < command_capacity monitor_demo_config"
    "ControlCommandAck.command_id monitor_demo_ack = 9"
    by (simp_all add: monitor_demo_config_def monitor_demo_ack_def)
  ultimately show ?thesis
    using command_lifecycle [OF monitor_demo_reachable _ _ monitor_demo_enqueue monitor_demo_ack_valid(1), of "(102, 0)"] monitor_demo_enqueue by blast
qed

text \<open>
  C21. No step loses or alters a command behind its agent's back: after any operation a queued
  command is unchanged, or settled by a valid acknowledgement that names it and comes from its own
  agent, or it was the oldest command of a full queue and made room for a new one.
\<close>
theorem commands_are_not_lost:
  assumes reachable: "runtime_reachable c s" and step: "runtime_step c s t" and d: "d \<in> set (commands s)"
  shows "d \<in> set (commands t) \<or>
    (\<exists>ack now. validate_ack ack = ok \<and> ControlCommandAck.command_id ack = ControlCommand.command_id d \<and>
       ControlCommandAck.agent_id ack = ControlCommand.agent_id d \<and> settle_command ack now d \<in> set (commands t)) \<or>
    (length (commands s) = command_capacity c \<and> d = last (commands s))"
  using step
proof (cases rule: runtime_step.cases)
  case (hook h)
  with d show ?thesis by (simp add: ingest_hook_eq hook_recorded_def)
next
  case (enqueue new_v4 now q)
  have "length (commands s) \<le> command_capacity c"
    using runtime_inv_reachable [OF reachable] by (simp add: runtime_inv_def commands_ok_def)
  then have "d \<in> set (take (command_capacity c) (e # commands s)) \<or>
      (length (commands s) = command_capacity c \<and> d = last (commands s))" for e
    using d by (rule kept_or_last)
  from this [of "command_new new_v4 now q"] d show ?thesis
    by (auto simp: enqueue(1) enqueue_command_eq command_queued_def)
next
  case (acknowledge now ack)
  show ?thesis
  proof (cases "named_by ack d \<and> validate_ack ack = ok")
    case True
    have "distinct (map ControlCommand.command_id (commands s))"
      using runtime_inv_reachable [OF reachable] by (simp add: runtime_inv_def commands_ok_def)
    with True d have t: "commands t =
        (if ControlCommand.agent_id d = ControlCommandAck.agent_id ack
         then map (\<lambda>d. if named_by ack d then settle_command ack now d else d) (commands s) else commands s)"
      by (simp add: acknowledge acknowledge_command_eq distinct_find settled_commands)
    show ?thesis
    proof (cases "ControlCommand.agent_id d = ControlCommandAck.agent_id ack")
      case own: True
      with True d have "settle_command ack now d \<in> set (commands t)" by (force simp: t)
      with own True show ?thesis unfolding named_by_def by metis
    qed (use d t in simp)
  next
    case False
    with d show ?thesis
      by (auto simp: acknowledge acknowledge_command_eq in_update_first split: option.splits)
  qed
next
  case (collect sample now)
  with d show ?thesis by (cases sample) (simp_all add: collect_once_def)
qed

theorem commands_are_not_lost_witness:
  "\<exists>s t. runtime_step monitor_demo_config s t \<and> commands s = [command_new 9 (101, 0) monitor_demo_request] \<and>
     commands t = [command_new 10 (103, 0) monitor_demo_request] \<and> length (commands s) = command_capacity monitor_demo_config"
proof -
  let ?d = "command_new 9 (101, 0) monitor_demo_request" and ?s = "command_queued monitor_demo_config (command_new 9 (101, 0) monitor_demo_request) monitor_demo_state"
  have cs: "commands ?s = [?d]" by (simp add: command_queued_def monitor_demo_config_def)
  have "runtime_step monitor_demo_config monitor_demo_state ?s"
    using runtime_step.enqueue [of 9 monitor_demo_state monitor_demo_config "(101, 0)" monitor_demo_request] by (simp add: monitor_demo_enqueue)
  then have reach: "runtime_reachable monitor_demo_config ?s"
    using monitor_demo_reachable unfolding runtime_reachable_def by (rule rtranclp.rtrancl_into_rtrancl [rotated])
  have "controllable ?s (ControlCommandRequest.agent_id monitor_demo_request)"
    by (simp add: command_queued_def controllable_def monitor_demo_agents monitor_demo_capable monitor_demo_request_def)
  then have "enqueue_command monitor_demo_config 10 (103, 0) monitor_demo_request ?s =
      (Inr (command_new 10 (103, 0) monitor_demo_request), command_queued monitor_demo_config (command_new 10 (103, 0) monitor_demo_request) ?s)"
    by (simp add: enqueue_command_eq monitor_demo_ack_valid)
  then have step: "runtime_step monitor_demo_config ?s (command_queued monitor_demo_config (command_new 10 (103, 0) monitor_demo_request) ?s)"
    using runtime_step.enqueue [of 10 ?s monitor_demo_config "(103, 0)" monitor_demo_request] by (simp add: cs)
  let ?t = "command_queued monitor_demo_config (command_new 10 (103, 0) monitor_demo_request) ?s"
  have ct: "commands ?t = [command_new 10 (103, 0) monitor_demo_request]" by (simp add: command_queued_def monitor_demo_config_def)
  have other: "e \<noteq> command_new 10 (103, 0) monitor_demo_request" if "ControlCommand.command_id e = 9" for e
    using that by auto
  have "?d \<notin> set (commands ?t)" "settle_command ack now ?d \<notin> set (commands ?t)" for ack now
    unfolding ct using other by simp_all
  with commands_are_not_lost [OF reach step, of ?d] have "length (commands ?s) = command_capacity monitor_demo_config"
    unfolding cs by auto
  with step cs ct show ?thesis by blast
qed

text \<open>A command that its agent acknowledged can be settled again, with the opposite verdict.\<close>

lemma settled_command_can_change:
  "\<exists>t u d. acknowledge_command (102, 0) monitor_demo_ack
       (command_queued monitor_demo_config (command_new 9 (101, 0) monitor_demo_request) monitor_demo_state) =
       (Inr (settle_command monitor_demo_ack (102, 0) (command_new 9 (101, 0) monitor_demo_request)), t) \<and>
     acknowledge_command (103, 0) (monitor_demo_ack\<lparr>ControlCommandAck.accepted := False\<rparr>) t = (Inr d, u) \<and>
     ControlCommand.status d = Rejected"
proof -
  have valid: "validate_ack monitor_demo_ack = ok" "validate_ack (monitor_demo_ack\<lparr>ControlCommandAck.accepted := False\<rparr>) = ok"
    by code_simp+
  have "commands (command_queued monitor_demo_config (command_new 9 (101, 0) monitor_demo_request) monitor_demo_state) =
      [command_new 9 (101, 0) monitor_demo_request]"
    by (simp add: command_queued_def monitor_demo_config_def)
  then show ?thesis
    by (simp add: acknowledge_command_eq valid named_by_def) (simp add: monitor_demo_ack_def monitor_demo_request_def)
qed

section \<open>Snapshots\<close>

text \<open>An order in which a map yields its keys.\<close>

definition enumerates :: "'k list \<Rightarrow> ('k \<rightharpoonup> 'v) \<Rightarrow> bool" where
  "enumerates order m \<longleftrightarrow> distinct order \<and> set order = dom m"

lemma hash_values_keys:
  assumes "\<And>k v. m k = Some v \<Longrightarrow> f v = k" and "set order \<subseteq> dom m"
  shows "map f (hash_values m order) = order"
  using assms(2) by (induction order) (auto simp: hash_values_def map_filter_simps assms(1))

lemma find_hash_values:
  assumes "\<And>k v. m k = Some v \<Longrightarrow> f v = k" and "set order \<subseteq> dom m"
  shows "find (\<lambda>v. f v = k) (hash_values m order) = (if k \<in> set order then m k else None)"
  using assms(2) by (induction order) (auto simp: hash_values_def map_filter_simps assms(1))

lemma set_hash_values: "set (hash_values m order) = {v. \<exists>k \<in> set order. m k = Some v}"
  by (induction order) (auto simp: hash_values_def map_filter_simps split: option.splits)

lemma bt_wf_add_hook_agent: "bt_wf m \<Longrightarrow> bt_wf (add_hook_agent procs a m)"
  by (simp add: add_hook_agent_def bt_wf_insert split: option.split)

lemma bt_wf_hook_agents: "bt_wf m \<Longrightarrow> bt_wf (fold (add_hook_agent procs) as m)"
  by (induction as arbitrary: m) (simp_all add: bt_wf_add_hook_agent)

lemma bt_wf_processes: "bt_wf m \<Longrightarrow> bt_wf (fold (add_process ids) ps m)"
  by (induction ps arbitrary: m) (simp_all add: add_process_def bt_wf_insert)

definition hook_entry :: "(u32 \<rightharpoonup> RuntimeProcessTelemetry) \<Rightarrow> HookAgentState \<Rightarrow> RuntimeAgentTelemetry option \<Rightarrow> RuntimeAgentTelemetry" where
  "hook_entry procs a t = (case t of None \<Rightarrow> hook_telemetry procs a | Some t \<Rightarrow> merge_hook_agent a t)"

lemma get_hook_agents:
  "distinct (map telemetry_id as) \<Longrightarrow>
   bt_get (fold (add_hook_agent procs) as m) k =
     (case find (\<lambda>a. telemetry_id a = k) as of None \<Rightarrow> bt_get m k | Some a \<Rightarrow> Some (hook_entry procs a (bt_get m k)))"
proof (induction as arbitrary: m)
  case (Cons a as)
  have step: "bt_get (add_hook_agent procs a m) k =
      (if k = telemetry_id a then Some (hook_entry procs a (bt_get m k)) else bt_get m k)"
    by (auto simp: add_hook_agent_def hook_entry_def bt_get_insert split: option.splits)
  have "find (\<lambda>b. telemetry_id b = telemetry_id a) as = None"
    using Cons.prems by (auto simp: find_None_iff image_iff)
  with Cons step show ?case by (auto split: option.splits)
qed simp

lemma get_processes:
  "bt_get (fold (add_process ids) ps m) k = Some t \<Longrightarrow>
   (\<exists>p \<in> set ps. process_agent_id ids p = k \<and> t = process_telemetry k p) \<or> bt_get m k = Some t"
proof (induction ps arbitrary: m)
  case (Cons p ps)
  then have "(\<exists>p \<in> set ps. process_agent_id ids p = k \<and> t = process_telemetry k p) \<or> bt_get (add_process ids p m) k = Some t"
    by simp
  then show ?case by (auto simp: add_process_def bt_get_insert split: if_splits)
qed simp

lemma hook_entry_fields:
  "hook_backed (hook_entry procs a t)" "RuntimeAgentTelemetry.control_capable (hook_entry procs a t) = HookAgentState.control_capable a"
  "RuntimeAgentTelemetry.status (hook_entry procs a t) = HookAgentState.status a"
  "RuntimeAgentTelemetry.input_tokens (hook_entry procs a t) = HookAgentState.input_tokens a"
  "RuntimeAgentTelemetry.output_tokens (hook_entry procs a t) = HookAgentState.output_tokens a"
  "RuntimeAgentTelemetry.reported_confidence (hook_entry procs a t) = HookAgentState.reported_confidence a"
  "RuntimeAgentTelemetry.last_hook_at (hook_entry procs a t) = Some (HookAgentState.last_hook_at a)"
  "RuntimeAgentTelemetry.agent_id (hook_entry procs a t) = (case t of None \<Rightarrow> telemetry_id a | Some u \<Rightarrow> RuntimeAgentTelemetry.agent_id u)"
  by (simp_all add: hook_entry_def hook_telemetry_def merge_hook_agent_def Let_def split: option.split)

lemma process_telemetry_fields [simp]:
  "RuntimeAgentTelemetry.agent_id (process_telemetry k p) = k" "process_backed (process_telemetry k p)"
  "\<not> hook_backed (process_telemetry k p)" "\<not> RuntimeAgentTelemetry.control_capable (process_telemetry k p)"
  "RuntimeAgentTelemetry.pid (process_telemetry k p) = Some (RuntimeProcessTelemetry.pid p)"
  by (simp_all add: process_telemetry_def)

text \<open>An entry of the snapshot: that of a hook agent, or of a process that no hook agent owns.\<close>

definition snapshot_processes :: "string list \<Rightarrow> u32 list \<Rightarrow> RuntimeState \<Rightarrow> telemetry_map" where
  "snapshot_processes agent_order pid_order s =
     fold (add_process (process_agent_ids (hash_values (hook_agents s) agent_order))) (hash_values (process_table s) pid_order) []"

lemma telemetry_get:
  assumes inv: "runtime_inv c s" and order: "enumerates agent_order (hook_agents s)"
  shows "bt_get (telemetry_agents agent_order pid_order s) k =
    (case hook_agents s k of
       None \<Rightarrow> bt_get (snapshot_processes agent_order pid_order s) k
     | Some a \<Rightarrow> Some (hook_entry (process_table s) a (bt_get (snapshot_processes agent_order pid_order s) k)))"
proof -
  have id: "telemetry_id a = k" if "hook_agents s k = Some a" for k a
    using inv that by (simp add: runtime_inv_def agents_ok_def)
  have "distinct (map telemetry_id (hash_values (hook_agents s) agent_order))"
    using order hash_values_keys [of "hook_agents s" telemetry_id agent_order] id by (simp add: enumerates_def)
  from get_hook_agents [OF this] find_hash_values [of "hook_agents s" telemetry_id agent_order k] id order show ?thesis
    by (auto simp: telemetry_agents_def snapshot_processes_def Let_def enumerates_def split: option.splits)
qed

lemma telemetry_wf: "bt_wf (telemetry_agents agent_order pid_order s)"
  by (simp add: telemetry_agents_def Let_def bt_wf_hook_agents bt_wf_processes bt.wf_empty)

lemma telemetry_entry_id:
  assumes inv: "runtime_inv c s" and order: "enumerates agent_order (hook_agents s)"
    and get: "bt_get (telemetry_agents agent_order pid_order s) k = Some t"
  shows "RuntimeAgentTelemetry.agent_id t = k"
proof -
  have proc: "RuntimeAgentTelemetry.agent_id u = k" if "bt_get (snapshot_processes agent_order pid_order s) k = Some u" for u
    using that by (auto simp: snapshot_processes_def bt.get_empty dest!: get_processes)
  have "telemetry_id a = k" if "hook_agents s k = Some a" for a
    using inv that by (simp add: runtime_inv_def agents_ok_def)
  with proc get show ?thesis
    by (auto simp: telemetry_get [OF inv order] hook_entry_fields split: option.splits)
qed

lemma telemetry_ids:
  assumes "runtime_inv c s" and "enumerates agent_order (hook_agents s)"
  shows "map RuntimeAgentTelemetry.agent_id (bt_values (telemetry_agents agent_order pid_order s)) =
    bt_keys (telemetry_agents agent_order pid_order s)"
  unfolding bt_values_def bt_keys_def map_map
  by (rule map_cong [OF refl]) (metis bt_get_mem [OF telemetry_wf] comp_apply prod.collapse telemetry_entry_id [OF assms])

lemma telemetry_values:
  assumes "runtime_inv c s" and "enumerates agent_order (hook_agents s)"
  shows "t \<in> set (bt_values (telemetry_agents agent_order pid_order s)) \<longleftrightarrow>
    bt_get (telemetry_agents agent_order pid_order s) (RuntimeAgentTelemetry.agent_id t) = Some t"
proof
  assume "t \<in> set (bt_values (telemetry_agents agent_order pid_order s))"
  then obtain k where "(k, t) \<in> set (telemetry_agents agent_order pid_order s)" by (auto simp: bt_values_def)
  then have "bt_get (telemetry_agents agent_order pid_order s) k = Some t" by (simp add: bt_get_mem [OF telemetry_wf])
  with telemetry_entry_id [OF assms this] show
    "bt_get (telemetry_agents agent_order pid_order s) (RuntimeAgentTelemetry.agent_id t) = Some t" by simp
qed (force simp: bt_values_def bt_get_mem [OF telemetry_wf])

lemma telemetry_process:
  assumes inv: "runtime_inv c s" and order: "enumerates agent_order (hook_agents s)"
    and "bt_get (telemetry_agents agent_order pid_order s) k = Some t" "hook_agents s k = None"
  shows "\<exists>p. process_table s (RuntimeProcessTelemetry.pid p) = Some p \<and> t = process_telemetry k p"
proof -
  have "bt_get (snapshot_processes agent_order pid_order s) k = Some t"
    using assms(3,4) by (simp add: telemetry_get [OF inv order])
  then obtain p where "p \<in> set (hash_values (process_table s) pid_order)" "t = process_telemetry k p"
    unfolding snapshot_processes_def by (auto simp: bt.get_empty dest!: get_processes)
  moreover from this(1) inv have "process_table s (RuntimeProcessTelemetry.pid p) = Some p"
    by (auto simp: set_hash_values runtime_inv_def processes_ok_def)
  ultimately show ?thesis by blast
qed

definition telemetry_entry_ok :: "RuntimeState \<Rightarrow> string \<Rightarrow> RuntimeAgentTelemetry \<Rightarrow> bool" where
  "telemetry_entry_ok s k t \<longleftrightarrow>
     (RuntimeAgentTelemetry.control_capable t \<longleftrightarrow> controllable s k) \<and>
     (hook_backed t \<longleftrightarrow> k \<in> dom (hook_agents s)) \<and>
     (\<not> hook_backed t \<longrightarrow> process_backed t \<and> (\<exists>p. p \<in> dom (process_table s) \<and> RuntimeAgentTelemetry.pid t = Some p))"

lemma telemetry_flags:
  assumes inv: "runtime_inv c s" and order: "enumerates agent_order (hook_agents s)"
    and get: "bt_get (telemetry_agents agent_order pid_order s) k = Some t"
  shows "telemetry_entry_ok s k t"
proof (cases "hook_agents s k")
  case None
  from telemetry_process [OF inv order get None] None show ?thesis
    by (auto simp: telemetry_entry_ok_def controllable_def)
next
  case (Some a)
  with get show ?thesis
    by (auto simp: telemetry_get [OF inv order] telemetry_entry_ok_def hook_entry_fields controllable_def)
qed

lemma distinct_filter_card: "distinct xs \<Longrightarrow> length (filter P xs) = card {x \<in> set xs. P x}"
  by (metis distinct_card distinct_filter set_filter)

lemma count_hook_backed:
  assumes "bt_wf m" and "\<And>k t. bt_get m k = Some t \<Longrightarrow> P t \<longleftrightarrow> k \<in> K" and "K \<subseteq> set (bt_keys m)"
  shows "count_where P (bt_values m) = card K"
proof -
  have "P (snd e) \<longleftrightarrow> fst e \<in> K" if "e \<in> set m" for e
    using assms(2) [of "fst e" "snd e"] bt_get_mem [OF assms(1)] that by simp
  then have "length (filter P (map snd m)) = length (filter (\<lambda>k. k \<in> K) (map fst m))"
    by (simp add: filter_map comp_def cong: filter_cong)
  also have "\<dots> = card {k \<in> set (bt_keys m). k \<in> K}"
    using distinct_filter_card [OF bt.distinct_keys [OF assms(1)], of "\<lambda>k. k \<in> K"] by (simp add: bt_keys_def)
  also have "{k \<in> set (bt_keys m). k \<in> K} = K" using assms(3) by auto
  finally show ?thesis by (simp add: count_where_def bt_values_def)
qed

text \<open>
  A snapshot lists every agent the monitor knows exactly once, in the order of the identifiers,
  whatever order the hash maps yield. An agent that reported hooks carries the figures of its hooks,
  and it is listed as controllable exactly if a command for it would be accepted. An entry that is
  not backed by hooks is that of a host process, and is never controllable. The number of hook-backed
  agents in the totals is the number of agents that reported.
\<close>
theorem snapshot_lists_every_agent:
  assumes reachable: "runtime_reachable c s"
    and order: "enumerates agent_order (hook_agents s)" "enumerates pid_order (process_table s)"
    and snap: "snap = runtime_snapshot agent_order pid_order now \<lparr>RuntimeMonitor.config = c, collection_enabled = b, state = s\<rparr>"
  shows "sorted_wrt (<) (map RuntimeAgentTelemetry.agent_id (RuntimeSnapshot.agents snap)) \<and>
    (\<forall>k a. hook_agents s k = Some a \<longrightarrow>
       (\<exists>t \<in> set (RuntimeSnapshot.agents snap). RuntimeAgentTelemetry.agent_id t = k \<and> hook_backed t \<and>
          RuntimeAgentTelemetry.status t = HookAgentState.status a \<and>
          RuntimeAgentTelemetry.reported_confidence t = HookAgentState.reported_confidence a \<and>
          RuntimeAgentTelemetry.input_tokens t = HookAgentState.input_tokens a \<and>
          RuntimeAgentTelemetry.output_tokens t = HookAgentState.output_tokens a \<and>
          RuntimeAgentTelemetry.last_hook_at t = Some (HookAgentState.last_hook_at a))) \<and>
    (\<forall>t \<in> set (RuntimeSnapshot.agents snap).
       (RuntimeAgentTelemetry.control_capable t \<longleftrightarrow> controllable s (RuntimeAgentTelemetry.agent_id t)) \<and>
       (hook_backed t \<longleftrightarrow> RuntimeAgentTelemetry.agent_id t \<in> dom (hook_agents s)) \<and>
       (\<not> hook_backed t \<longrightarrow> process_backed t \<and>
          (\<exists>p. p \<in> dom (process_table s) \<and> RuntimeAgentTelemetry.pid t = Some p))) \<and>
    hook_backed_agents (totals snap) = card (dom (hook_agents s))"
proof -
  have inv: "runtime_inv c s" by (rule runtime_inv_reachable [OF reachable])
  let ?m = "telemetry_agents agent_order pid_order s"
  note wf = telemetry_wf [of agent_order pid_order s]
  have agents: "RuntimeSnapshot.agents snap = bt_values ?m"
    and totals: "totals snap = telemetry_totals (bt_values ?m) (commands s)"
    by (simp_all add: snap runtime_snapshot_def Let_def)
  have "\<exists>t \<in> set (bt_values ?m). RuntimeAgentTelemetry.agent_id t = k \<and>
      t = hook_entry (process_table s) a (bt_get (snapshot_processes agent_order pid_order s) k)" if "hook_agents s k = Some a" for k a
    using telemetry_get [OF inv order(1), of pid_order k] that telemetry_entry_id [OF inv order(1)] telemetry_values [OF inv order(1)]
    by (metis option.simps(5))
  then have "\<forall>k a. hook_agents s k = Some a \<longrightarrow>
       (\<exists>t \<in> set (bt_values ?m). RuntimeAgentTelemetry.agent_id t = k \<and> hook_backed t \<and>
          RuntimeAgentTelemetry.status t = HookAgentState.status a \<and>
          RuntimeAgentTelemetry.reported_confidence t = HookAgentState.reported_confidence a \<and>
          RuntimeAgentTelemetry.input_tokens t = HookAgentState.input_tokens a \<and>
          RuntimeAgentTelemetry.output_tokens t = HookAgentState.output_tokens a \<and>
          RuntimeAgentTelemetry.last_hook_at t = Some (HookAgentState.last_hook_at a))"
    using hook_entry_fields by metis
  moreover have "hook_backed_agents (totals snap) = card (dom (hook_agents s))"
  proof -
    have "dom (hook_agents s) \<subseteq> set (bt_keys ?m)"
      using telemetry_get [OF inv order(1)] bt.keys_get [OF wf] by auto
    moreover have "hook_backed t \<longleftrightarrow> k \<in> dom (hook_agents s)" if "bt_get ?m k = Some t" for k t
      using telemetry_flags [OF inv order(1) that] by (simp add: telemetry_entry_ok_def)
    ultimately show ?thesis by (simp add: totals telemetry_totals_def count_hook_backed [OF wf])
  qed
  moreover have "\<forall>t \<in> set (bt_values ?m). telemetry_entry_ok s (RuntimeAgentTelemetry.agent_id t) t"
    using telemetry_flags [OF inv order(1)] telemetry_values [OF inv order(1)] by blast
  moreover have "sorted_wrt (<) (map RuntimeAgentTelemetry.agent_id (bt_values ?m))"
    unfolding telemetry_ids [OF inv order(1)] by (rule bt.keys_sorted [OF wf])
  ultimately show ?thesis by (simp add: agents telemetry_entry_ok_def)
qed

theorem snapshot_lists_every_agent_witness:
  "\<exists>t \<in> set (RuntimeSnapshot.agents (runtime_snapshot [''a''] [] (105, 0)
       \<lparr>RuntimeMonitor.config = monitor_demo_config, collection_enabled = True, state = monitor_demo_state\<rparr>)).
     RuntimeAgentTelemetry.agent_id t = ''a'' \<and> hook_backed t"
proof -
  have "enumerates [''a''] (hook_agents monitor_demo_state)" "enumerates [] (process_table monitor_demo_state)"
    by (simp_all add: enumerates_def monitor_demo_agents)
  note listed = snapshot_lists_every_agent [OF monitor_demo_reachable this refl, of "(105, 0)" True,
      THEN conjunct2, THEN conjunct1, rule_format, of "''a''"]
  have "hook_agents monitor_demo_state ''a'' = Some (hook_agent_update monitor_demo_hook (hook_agent_new monitor_demo_hook))"
    by (simp add: monitor_demo_agents)
  from listed [OF this] show ?thesis by blast
qed

text \<open>The totals of a snapshot wrap around: two agents with full counters add up to less than one of them.\<close>

definition monitor_demo_full :: "Uuid \<Rightarrow> string \<Rightarrow> RuntimeHookEnvelope" where
  "monitor_demo_full u a = monitor_demo_hook\<lparr>RuntimeHookEnvelope.event_id := u,
     RuntimeHookEnvelope.agent := \<lparr>RuntimeAgentRef.agent_id = a, provider = ''p'', model = ''m'', instance_id = None\<rparr>,
     RuntimeHookEnvelope.pid := None, input_tokens_delta := - 1\<rparr>"

lemma token_totals_wrap:
  "RuntimeTotals.input_tokens (totals (runtime_snapshot [''a'', ''b''] [] (105, 0)
     \<lparr>RuntimeMonitor.config = monitor_demo_config, collection_enabled = True,
      state = hook_run monitor_demo_config [monitor_demo_full 1 ''a'', monitor_demo_full 2 ''b'']
        (RuntimeMonitor.state (runtime_new monitor_demo_config))\<rparr>)) = - 2"
  by code_simp

end
