(* ===== verification/Provider.thy ===== *)
theory Provider
  imports Model
begin

text \<open>
  The provider adapters (\<open>src/provider.rs\<close>): the refusal of payloads that carry hidden reasoning and
  the translation of an observation into an event envelope. A \<open>serde_json::Value\<close> is a tree whose
  objects list their members in the order of iteration; a number is its text. The typed decoding of
  \<open>serde_json::from_value\<close> is derived code of a third party; it is the argument \<open>from_value\<close>, which
  returns the observation or the text of an error. The random identifier and the clock of
  \<open>EventEnvelope::new\<close> are arguments too.
\<close>

section \<open>Data\<close>

definition FORBIDDEN_REASONING_KEYS :: "string list" where
  "FORBIDDEN_REASONING_KEYS =
     [''chain_of_thought'', ''chain-of-thought'', ''hidden_reasoning'', ''internal_reasoning'', ''reasoning_content'',
      ''scratchpad'']"

datatype ProviderKind = OpenAi | Anthropic | Gemini

fun protocol_name :: "ProviderKind \<Rightarrow> string" where
  "protocol_name OpenAi = ''openai''"
| "protocol_name Anthropic = ''anthropic''"
| "protocol_name Gemini = ''google''"

record AdapterContext =
  agent_id :: string
  model :: string
  instance_id :: "string option"
  session_id :: "string option"
  correlation_id :: "string option"
  sequence :: "u64 option"

record ToolCallData =
  task_id :: string
  tool_name :: string
  call_id :: string
  summary :: string
  attempt :: u32

datatype ObservableAgentUpdate =
    ObservedProgress ProgressUpdate
  | ObservedReflection Reflection
  | ObservedToolCall ToolCallData
  | ObservedCompletion TaskCompletedData
  | ObservedError ErrorObservation

text \<open>The three observation structures differ only in the name of their identifier.\<close>

record Observation =
  response_id :: string
  adapter_context :: AdapterContext
  update :: ObservableAgentUpdate

datatype json =
    JNull | JBool bool | JNumber string | JString string | JArray "json list" | JObject "(string \<times> json) list"

datatype AdapterError = ForbiddenReasoningField string | InvalidPayload string

section \<open>Hidden reasoning\<close>

definition forbidden_key :: "string \<Rightarrow> bool" where
  "forbidden_key key = (str_lower key \<in> set FORBIDDEN_REASONING_KEYS)"

fun reject_hidden_reasoning :: "json \<Rightarrow> AdapterError check"
  and reject_members :: "(string \<times> json) list \<Rightarrow> AdapterError check"
  and reject_elements :: "json list \<Rightarrow> AdapterError check" where
  "reject_hidden_reasoning (JObject ms) = reject_members ms"
| "reject_hidden_reasoning (JArray vs) = reject_elements vs"
| "reject_hidden_reasoning _ = ok"
| "reject_members [] = ok"
| "reject_members ((key, nested) # ms) =
     (if forbidden_key key then Inl (ForbiddenReasoningField key)
      else (case reject_hidden_reasoning nested of Inl err \<Rightarrow> Inl err | Inr _ \<Rightarrow> reject_members ms))"
| "reject_elements [] = ok"
| "reject_elements (v # vs) =
     (case reject_hidden_reasoning v of Inl err \<Rightarrow> Inl err | Inr _ \<Rightarrow> reject_elements vs)"

section \<open>Normalization\<close>

fun normalize_event :: "ProviderKind \<Rightarrow> string \<Rightarrow> ObservableAgentUpdate \<Rightarrow> AgentEvent" where
  "normalize_event p rid (ObservedProgress u) = ProgressUpdated u"
| "normalize_event p rid (ObservedReflection r) =
     ReflectionRecorded (r\<lparr>Reflection.evidence := Reflection.evidence r @
       [\<lparr>EvidenceReference.kind = ''provider_response'', reference = rid,
         summary = Some (protocol_name p @ '' response identifier'')\<rparr>]\<rparr>)"
| "normalize_event p rid (ObservedToolCall t) =
     TaskStarted \<lparr>TaskStartedData.task_id = ToolCallData.task_id t, attempt = ToolCallData.attempt t,
       plan_summary = Some (ToolCallData.summary t @ '' Tool: '' @ ToolCallData.tool_name t @ ''; call: '' @ call_id t @ ''.'')\<rparr>"
| "normalize_event p rid (ObservedCompletion c) =
     TaskCompleted (c\<lparr>TaskCompletedData.artifacts := TaskCompletedData.artifacts c @ [''provider-response:'' @ rid]\<rparr>)"
| "normalize_event p rid (ObservedError e) = ErrorObserved e"

definition normalize ::
  "Uuid \<Rightarrow> DateTime \<Rightarrow> ProviderKind \<Rightarrow> string \<Rightarrow> AdapterContext \<Rightarrow> ObservableAgentUpdate \<Rightarrow> EventEnvelope" where
  "normalize new_v4 now p rid c u =
     (envelope_new new_v4 now
        \<lparr>AgentRef.agent_id = AdapterContext.agent_id c, provider = protocol_name p, model = AdapterContext.model c,
         instance_id = AdapterContext.instance_id c\<rparr>
        (normalize_event p rid u))
     \<lparr>EventEnvelope.session_id := AdapterContext.session_id c,
      EventEnvelope.correlation_id := AdapterContext.correlation_id c,
      EventEnvelope.sequence := AdapterContext.sequence c\<rparr>"

definition normalize_with ::
  "ProviderKind \<Rightarrow> (json \<Rightarrow> string + Observation) \<Rightarrow> Uuid \<Rightarrow> DateTime \<Rightarrow> json \<Rightarrow> AdapterError + EventEnvelope" where
  "normalize_with p from_value new_v4 now v =
     (case reject_hidden_reasoning v of
        Inl err \<Rightarrow> Inl err
      | Inr _ \<Rightarrow>
          (case from_value v of
             Inl err \<Rightarrow> Inl (InvalidPayload err)
           | Inr ob \<Rightarrow> Inr (normalize new_v4 now p (response_id ob) (adapter_context ob) (update ob))))"

definition normalize_openai ::
  "(json \<Rightarrow> string + Observation) \<Rightarrow> Uuid \<Rightarrow> DateTime \<Rightarrow> json \<Rightarrow> AdapterError + EventEnvelope" where
  "normalize_openai = normalize_with OpenAi"

definition normalize_anthropic ::
  "(json \<Rightarrow> string + Observation) \<Rightarrow> Uuid \<Rightarrow> DateTime \<Rightarrow> json \<Rightarrow> AdapterError + EventEnvelope" where
  "normalize_anthropic = normalize_with Anthropic"

definition normalize_gemini ::
  "(json \<Rightarrow> string + Observation) \<Rightarrow> Uuid \<Rightarrow> DateTime \<Rightarrow> json \<Rightarrow> AdapterError + EventEnvelope" where
  "normalize_gemini = normalize_with Gemini"

section \<open>Keys of a payload\<close>

text \<open>Every key at any depth, in the order of the search.\<close>

fun json_keys :: "json \<Rightarrow> string list" and member_keys :: "(string \<times> json) list \<Rightarrow> string list"
  and element_keys :: "json list \<Rightarrow> string list" where
  "json_keys (JObject ms) = member_keys ms"
| "json_keys (JArray vs) = element_keys vs"
| "json_keys _ = []"
| "member_keys [] = []"
| "member_keys ((key, nested) # ms) = key # json_keys nested @ member_keys ms"
| "element_keys [] = []"
| "element_keys (v # vs) = json_keys v @ element_keys vs"

definition first_forbidden :: "string list \<Rightarrow> AdapterError check" where
  "first_forbidden ks = (case find forbidden_key ks of None \<Rightarrow> ok | Some k \<Rightarrow> Inl (ForbiddenReasoningField k))"

lemma first_forbidden_append:
  "first_forbidden (ks @ ls) = (case first_forbidden ks of Inl e \<Rightarrow> Inl e | Inr _ \<Rightarrow> first_forbidden ls)"
  by (induction ks) (auto simp: first_forbidden_def ok_def split: option.splits)

lemma first_forbidden_Cons:
  "first_forbidden (k # ks) = (if forbidden_key k then Inl (ForbiddenReasoningField k) else first_forbidden ks)"
  by (simp add: first_forbidden_def)

lemma reject_first_forbidden:
  "reject_hidden_reasoning v = first_forbidden (json_keys v)"
  "reject_members ms = first_forbidden (member_keys ms)"
  "reject_elements vs = first_forbidden (element_keys vs)"
  by (induction v and ms and vs rule: reject_hidden_reasoning_reject_members_reject_elements.induct)
    (simp_all add: first_forbidden_append first_forbidden_Cons, simp_all add: first_forbidden_def split: sum.split)

text \<open>The kinds of events an adapter can produce.\<close>

definition adapter_event :: "AgentEvent \<Rightarrow> bool" where
  "adapter_event e = (event_kind e \<in>
     {''progress_updated'', ''reflection_recorded'', ''task_started'', ''task_completed'', ''error_observed''})"

lemma adapter_event_normalize: "adapter_event (normalize_event p rid u)"
  by (cases u) (simp_all add: adapter_event_def)

text \<open>
  C22. No adapter lets hidden reasoning through. A payload with a forbidden key at any depth, in any
  capitalization, is refused with the first such key in the order of the search, before it is decoded;
  any other payload is decoded, and the envelope that results names the provider of the adapter, takes
  the agent identity from the context of the observation, and carries one of the five kinds of events
  that describe observable work.
\<close>
theorem adapters_refuse_hidden_reasoning:
  "normalize_with p from_value new_v4 now v =
     (case find (\<lambda>k. str_lower k \<in> set FORBIDDEN_REASONING_KEYS) (json_keys v) of
        Some k \<Rightarrow> Inl (ForbiddenReasoningField k)
      | None \<Rightarrow>
          (case from_value v of
             Inl err \<Rightarrow> Inl (InvalidPayload err)
           | Inr ob \<Rightarrow> Inr (normalize new_v4 now p (response_id ob) (adapter_context ob) (update ob)))) \<and>
   (\<forall>env. normalize_with p from_value new_v4 now v = Inr env \<longrightarrow>
      (\<forall>k \<in> set (json_keys v). str_lower k \<notin> set FORBIDDEN_REASONING_KEYS) \<and>
      AgentRef.provider (EventEnvelope.agent env) = protocol_name p \<and> adapter_event (EventEnvelope.event env) \<and>
      (\<exists>ob. from_value v = Inr ob \<and>
         AgentRef.agent_id (EventEnvelope.agent env) = AdapterContext.agent_id (adapter_context ob) \<and>
         EventEnvelope.session_id env = AdapterContext.session_id (adapter_context ob)))"
proof -
  have eq: "normalize_with p from_value new_v4 now v =
     (case find (\<lambda>k. str_lower k \<in> set FORBIDDEN_REASONING_KEYS) (json_keys v) of
        Some k \<Rightarrow> Inl (ForbiddenReasoningField k)
      | None \<Rightarrow>
          (case from_value v of
             Inl err \<Rightarrow> Inl (InvalidPayload err)
           | Inr ob \<Rightarrow> Inr (normalize new_v4 now p (response_id ob) (adapter_context ob) (update ob))))"
    by (simp add: normalize_with_def reject_first_forbidden first_forbidden_def forbidden_key_def [abs_def] ok_def
        split: option.split)
  then show ?thesis
    by (auto simp: find_None_iff normalize_def envelope_new_def adapter_event_normalize split: option.splits sum.splits)
qed

theorem adapters_refuse_hidden_reasoning_witness:
  "normalize_with OpenAi (\<lambda>_. Inl ''x'') 1 (0, 0)
     (JObject [(''a'', JArray [JNull, JObject [(''Scratchpad'', JString ''s'')]]), (''hidden_reasoning'', JNull)]) =
   Inl (ForbiddenReasoningField ''Scratchpad'')"
proof -
  have "find (\<lambda>k. str_lower k \<in> set FORBIDDEN_REASONING_KEYS)
      (json_keys (JObject [(''a'', JArray [JNull, JObject [(''Scratchpad'', JString ''s'')]]), (''hidden_reasoning'', JNull)])) =
    Some ''Scratchpad''"
    by code_simp
  with adapters_refuse_hidden_reasoning [THEN conjunct1] show ?thesis by simp
qed

end
