(* ===== verification/Ingress.thy ===== *)
theory Ingress
  imports Auth Store Utf8
begin

text \<open>
  The four ways an event reaches the store: \<open>ingest_event\<close> and the agent WebSocket of \<open>src/http.rs\<close>,
  the connection handler of \<open>src/tcp.rs\<close> and the datagram loop of \<open>src/udp.rs\<close>, with the origin check
  and the authentication of the operator WebSocket.

  Sockets, framing and JSON come from third parties. A connection is the list of what it delivers,
  each message with the outcome of writing the reply (\<open>True\<close> if it is sent); the end of the list is
  the end of the stream, a time-out or a cancellation. \<open>decode\<close> is \<open>serde_json\<close>'s decoding of a
  transport payload, an error as its text. \<open>ct_eq\<close> and \<open>E\<close> are the comparison of \<open>subtle\<close> and the
  caches of the store. The clock of an ingestion is part of the message. A header is \<open>None\<close> if
  absent, \<open>Some None\<close> if its value is not visible ASCII.
\<close>

type_synonym header = "string option option"

text \<open>A reply to an ingestion, before it is rendered as JSON.\<close>

datatype ingest_reply =
    Acked IngestAck
  | InvalidFrame string
  | InvalidJson string
  | UnauthorizedReply
  | TransportPolicyReply
  | InvalidEvent StoreError

definition ingest_result :: "StoreError + IngestAck \<Rightarrow> ingest_reply" where
  "ingest_result r = (case r of Inl err \<Rightarrow> InvalidEvent err | Inr ack \<Rightarrow> Acked ack)"

section \<open>HTTP\<close>

datatype HttpApiError = HttpUnauthorized | HttpForbidden | HttpBadRequest string | HttpStoreError StoreError

text \<open>The status code and the error code of \<open>ApiError::into_response\<close>.\<close>

fun http_error_response :: "HttpApiError \<Rightarrow> nat \<times> string" where
  "http_error_response HttpUnauthorized = (401, ''unauthorized'')"
| "http_error_response HttpForbidden = (403, ''forbidden'')"
| "http_error_response (HttpBadRequest _) = (400, ''invalid_request'')"
| "http_error_response (HttpStoreError _) = (400, ''invalid_request'')"

definition ingest_event ::
  "(string \<Rightarrow> string \<Rightarrow> bool) \<Rightarrow> ('a, 'g, 't, 'l, 'e, 'i) caches \<Rightarrow> AuthPolicy \<Rightarrow> header \<Rightarrow> string + EventEnvelope \<Rightarrow> DateTime \<Rightarrow>
   ('a, 'g, 't, 'l, 'e, 'i) StoreInner \<Rightarrow> (HttpApiError + nat \<times> IngestAck) \<times> ('a, 'g, 't, 'l, 'e, 'i) StoreInner" where
  "ingest_event ct_eq E p authorization payload now s =
     (case authorize_ingest ct_eq p (bearer_token authorization) of
        Inl _ \<Rightarrow> (Inl HttpUnauthorized, record_rejection Http s)
      | Inr _ \<Rightarrow>
          (case payload of
             Inl err \<Rightarrow> (Inl (HttpBadRequest err), record_rejection Http s)
           | Inr ev \<Rightarrow>
               (case ingest E ev Http now s of (r, _, t) \<Rightarrow>
                  (case r of
                     Inl err \<Rightarrow> (Inl (HttpStoreError err), t)
                   | Inr ack \<Rightarrow> (Inr (if IngestAck.duplicate ack then 200 else 202, ack), t)))))"

section \<open>WebSocket\<close>

definition eq_ignore_ascii_case :: "string \<Rightarrow> string \<Rightarrow> bool" where
  "eq_ignore_ascii_case a b = (str_lower a = str_lower b)"

definition websocket_origin_allowed :: "header \<Rightarrow> header \<Rightarrow> bool \<Rightarrow> bool" where
  "websocket_origin_allowed origin host any =
     (if any then True
      else case origin of
        None \<Rightarrow> True
      | Some o_value \<Rightarrow>
          (case host of
             Some (Some h) \<Rightarrow>
               (case o_value of
                  None \<Rightarrow> False
                | Some v \<Rightarrow>
                    (case (case strip_prefix v ''http://'' of None \<Rightarrow> strip_prefix v ''https://'' | Some r \<Rightarrow> Some r) of
                       None \<Rightarrow> False
                     | Some origin_host \<Rightarrow> eq_ignore_ascii_case origin_host h))
           | _ \<Rightarrow> False))"

datatype ws_message = WsText string | WsBinary string | WsPing string | WsPong string | WsClose | WsProtocolError

definition socket_payload ::
  "(string \<Rightarrow> string + TransportPayload) \<Rightarrow> ('a, 'g, 't, 'l, 'e, 'i) caches \<Rightarrow> string \<Rightarrow> DateTime \<Rightarrow>
   ('a, 'g, 't, 'l, 'e, 'i) StoreInner \<Rightarrow> ingest_reply \<times> ('a, 'g, 't, 'l, 'e, 'i) StoreInner" where
  "socket_payload decode E text now s =
     (case decode text of
        Inl err \<Rightarrow> (InvalidJson err, record_rejection WebSocket s)
      | Inr payload \<Rightarrow>
          (case ingest E (snd (into_parts payload)) WebSocket now s of (r, _, t) \<Rightarrow> (ingest_result r, t)))"

fun handle_agent_socket ::
  "(string \<Rightarrow> string + TransportPayload) \<Rightarrow> ('a, 'g, 't, 'l, 'e, 'i) caches \<Rightarrow> (ws_message \<times> DateTime \<times> bool) list \<Rightarrow>
   ('a, 'g, 't, 'l, 'e, 'i) StoreInner \<Rightarrow> ingest_reply list \<times> ('a, 'g, 't, 'l, 'e, 'i) StoreInner" where
  "handle_agent_socket decode E [] s = ([], s)"
| "handle_agent_socket decode E ((m, now, sent) # ms) s =
     (case m of
        WsProtocolError \<Rightarrow> ([], s)
      | WsClose \<Rightarrow> ([], s)
      | WsPong _ \<Rightarrow> handle_agent_socket decode E ms s
      | WsPing _ \<Rightarrow> if sent then handle_agent_socket decode E ms s else ([], s)
      | WsText text \<Rightarrow>
          (case socket_payload decode E text now s of (reply, t) \<Rightarrow>
             if sent then (case handle_agent_socket decode E ms t of (rs, u) \<Rightarrow> (reply # rs, u)) else ([reply], t))
      | WsBinary data \<Rightarrow>
          (case socket_payload decode E data now s of (reply, t) \<Rightarrow>
             if sent then (case handle_agent_socket decode E ms t of (rs, u) \<Rightarrow> (reply # rs, u)) else ([reply], t)))"

definition agent_websocket ::
  "(string \<Rightarrow> string \<Rightarrow> bool) \<Rightarrow> (string \<Rightarrow> string + TransportPayload) \<Rightarrow> ('a, 'g, 't, 'l, 'e, 'i) caches \<Rightarrow> AuthPolicy \<Rightarrow> bool \<Rightarrow>
   header \<Rightarrow> header \<Rightarrow> header \<Rightarrow> string option \<Rightarrow> (ws_message \<times> DateTime \<times> bool) list \<Rightarrow>
   ('a, 'g, 't, 'l, 'e, 'i) StoreInner \<Rightarrow> (HttpApiError + ingest_reply list) \<times> ('a, 'g, 't, 'l, 'e, 'i) StoreInner" where
  "agent_websocket ct_eq decode E p any origin host authorization query_token ms s =
     (if \<not> websocket_origin_allowed origin host any then (Inl HttpForbidden, record_rejection WebSocket s)
      else (case authorize_ingest ct_eq p (preferred_token authorization query_token) of
          Inl _ \<Rightarrow> (Inl HttpUnauthorized, record_rejection WebSocket s)
        | Inr _ \<Rightarrow> (case handle_agent_socket decode E ms s of (rs, t) \<Rightarrow> (Inr rs, t))))"

text \<open>The authentication of the operator WebSocket; \<open>decode_auth\<close> is the decoding of its first data frame.\<close>

fun authenticate_ui_socket ::
  "(string \<Rightarrow> string \<Rightarrow> bool) \<Rightarrow> (string \<Rightarrow> string option) \<Rightarrow> AuthPolicy \<Rightarrow> (ws_message \<times> bool) list \<Rightarrow> bool" where
  "authenticate_ui_socket ct_eq decode_auth p [] = False"
| "authenticate_ui_socket ct_eq decode_auth p ((m, sent) # ms) =
     (case m of
        WsProtocolError \<Rightarrow> False
      | WsClose \<Rightarrow> False
      | WsPong _ \<Rightarrow> authenticate_ui_socket ct_eq decode_auth p ms
      | WsPing _ \<Rightarrow> if sent then authenticate_ui_socket ct_eq decode_auth p ms else False
      | WsText text \<Rightarrow>
          (case decode_auth text of None \<Rightarrow> False | Some tok \<Rightarrow> authorize_read ct_eq p (Some tok) = ok)
      | WsBinary data \<Rightarrow>
          (case decode_auth data of None \<Rightarrow> False | Some tok \<Rightarrow> authorize_read ct_eq p (Some tok) = ok))"

text \<open>Whether \<open>handle_ui_socket\<close> goes on to stream updates.\<close>

definition ui_socket_streams ::
  "(string \<Rightarrow> string \<Rightarrow> bool) \<Rightarrow> (string \<Rightarrow> string option) \<Rightarrow> AuthPolicy \<Rightarrow> (ws_message \<times> bool) list \<Rightarrow> bool" where
  "ui_socket_streams ct_eq decode_auth p ms =
     (\<not> (reads_are_protected p \<and> \<not> authenticate_ui_socket ct_eq decode_auth p ms))"

section \<open>TCP\<close>

definition tcp_line ::
  "(string \<Rightarrow> string \<Rightarrow> bool) \<Rightarrow> (string \<Rightarrow> string + TransportPayload) \<Rightarrow> ('a, 'g, 't, 'l, 'e, 'i) caches \<Rightarrow> AuthPolicy \<Rightarrow> string \<Rightarrow>
   DateTime \<Rightarrow> ('a, 'g, 't, 'l, 'e, 'i) StoreInner \<Rightarrow> ingest_reply \<times> ('a, 'g, 't, 'l, 'e, 'i) StoreInner" where
  "tcp_line ct_eq decode E p line now s =
     (case decode line of
        Inl err \<Rightarrow> (InvalidJson err, record_rejection Tcp s)
      | Inr payload \<Rightarrow>
          (case authorize_ingest ct_eq p (fst (into_parts payload)) of
             Inl _ \<Rightarrow> (UnauthorizedReply, record_rejection Tcp s)
           | Inr _ \<Rightarrow>
               (case ingest E (snd (into_parts payload)) Tcp now s of (r, _, t) \<Rightarrow> (ingest_result r, t))))"

definition tcp_frame ::
  "(string \<Rightarrow> string \<Rightarrow> bool) \<Rightarrow> (string \<Rightarrow> string + TransportPayload) \<Rightarrow> ('a, 'g, 't, 'l, 'e, 'i) caches \<Rightarrow> AuthPolicy \<Rightarrow> string + string \<Rightarrow>
   DateTime \<Rightarrow> ('a, 'g, 't, 'l, 'e, 'i) StoreInner \<Rightarrow> ingest_reply \<times> ('a, 'g, 't, 'l, 'e, 'i) StoreInner" where
  "tcp_frame ct_eq decode E p frame now s =
     (case frame of
        Inl err \<Rightarrow> (InvalidFrame err, record_rejection Tcp s)
      | Inr line \<Rightarrow> tcp_line ct_eq decode E p line now s)"

fun handle_connection ::
  "(string \<Rightarrow> string \<Rightarrow> bool) \<Rightarrow> (string \<Rightarrow> string + TransportPayload) \<Rightarrow> ('a, 'g, 't, 'l, 'e, 'i) caches \<Rightarrow> AuthPolicy \<Rightarrow>
   ((string + string) \<times> DateTime \<times> bool) list \<Rightarrow> ('a, 'g, 't, 'l, 'e, 'i) StoreInner \<Rightarrow>
   ingest_reply list \<times> ('a, 'g, 't, 'l, 'e, 'i) StoreInner" where
  "handle_connection ct_eq decode E p [] s = ([], s)"
| "handle_connection ct_eq decode E p ((frame, now, sent) # fs) s =
     (case tcp_frame ct_eq decode E p frame now s of (reply, t) \<Rightarrow>
        if sent then (case handle_connection ct_eq decode E p fs t of (rs, u) \<Rightarrow> (reply # rs, u)) else ([reply], t))"

section \<open>UDP\<close>

text \<open>A datagram fills at most the buffer, one byte more than the limit; a longer one is cut off there.\<close>

definition udp_receive :: "nat \<Rightarrow> string \<Rightarrow> string" where
  "udp_receive max_bytes datagram = take (min (max_bytes + 1) (2 ^ 64 - 1)) datagram"

definition udp_datagram ::
  "(string \<Rightarrow> string \<Rightarrow> bool) \<Rightarrow> (string \<Rightarrow> string + TransportPayload) \<Rightarrow> ('a, 'g, 't, 'l, 'e, 'i) caches \<Rightarrow> AuthPolicy \<Rightarrow> nat \<Rightarrow> string \<Rightarrow>
   DateTime \<Rightarrow> ('a, 'g, 't, 'l, 'e, 'i) StoreInner \<Rightarrow> ingest_reply option \<times> ('a, 'g, 't, 'l, 'e, 'i) StoreInner" where
  "udp_datagram ct_eq decode E p max_bytes datagram now s =
     (let received = udp_receive max_bytes datagram in
      if length received > max_bytes then (None, record_rejection Udp s)
      else (case decode received of
          Inl _ \<Rightarrow> (None, record_rejection Udp s)
        | Inr payload \<Rightarrow>
            (case authorize_ingest ct_eq p (fst (into_parts payload)) of
               Inl _ \<Rightarrow> (None, record_rejection Udp s)
             | Inr _ \<Rightarrow>
                 if \<not> allowed_over_udp (EventEnvelope.event (snd (into_parts payload)))
                 then (Some TransportPolicyReply, record_rejection Udp s)
                 else (case ingest E (snd (into_parts payload)) Udp now s of (r, _, t) \<Rightarrow> (Some (ingest_result r), t)))))"

fun udp_serve ::
  "(string \<Rightarrow> string \<Rightarrow> bool) \<Rightarrow> (string \<Rightarrow> string + TransportPayload) \<Rightarrow> ('a, 'g, 't, 'l, 'e, 'i) caches \<Rightarrow> AuthPolicy \<Rightarrow> nat \<Rightarrow>
   (string \<times> DateTime) list \<Rightarrow> ('a, 'g, 't, 'l, 'e, 'i) StoreInner \<Rightarrow> ingest_reply list \<times> ('a, 'g, 't, 'l, 'e, 'i) StoreInner" where
  "udp_serve ct_eq decode E p max_bytes [] s = ([], s)"
| "udp_serve ct_eq decode E p max_bytes ((d, now) # ds) s =
     (case udp_datagram ct_eq decode E p max_bytes d now s of (reply, t) \<Rightarrow>
        (case udp_serve ct_eq decode E p max_bytes ds t of (rs, u) \<Rightarrow>
           ((case reply of None \<Rightarrow> rs | Some r \<Rightarrow> r # rs), u)))"

section \<open>Metrics\<close>

definition metric_line :: "string \<Rightarrow> string \<Rightarrow> string" where
  "metric_line name value = name @ '' '' @ value @ [char_of (10 :: int)]"

definition dec_nat :: "nat \<Rightarrow> string" where
  "dec_nat n = dec_digits (int n)"

definition labelled :: "string \<Rightarrow> string \<Rightarrow> string \<Rightarrow> string" where
  "labelled name label value = name @ ''{'' @ label @ ''=\"'' @ value @ ''\"}''"

definition type_line :: "string \<Rightarrow> string \<Rightarrow> string" where
  "type_line name metric_kind = metric_line (''# TYPE '' @ name) metric_kind"

definition cache_lines :: "string \<times> CacheStats \<Rightarrow> string" where
  "cache_lines e = (case e of (name, c) \<Rightarrow>
     metric_line (labelled ''meta_agent_cache_items'' ''cache'' name) (dec_nat (CacheStats.len c)) @
     metric_line (labelled ''meta_agent_cache_capacity'' ''cache'' name) (dec_nat (CacheStats.capacity c)) @
     metric_line (labelled ''meta_agent_cache_evictions_total'' ''cache'' name) (dec_nat (unat (CacheStats.evictions c))))"

definition metrics_body :: "MetricsSnapshot \<Rightarrow> string" where
  "metrics_body m =
     (let cs = MetricsSnapshot.counters m; k = MetricsSnapshot.caches m; pr = MetricsSnapshot.projection m in
      type_line ''meta_agent_state_revision'' ''gauge'' @
      metric_line ''meta_agent_state_revision'' (dec_nat (unat (MetricsSnapshot.revision m))) @
      type_line ''meta_agent_events_accepted_total'' ''counter'' @
      metric_line ''meta_agent_events_accepted_total'' (dec_nat (unat (Counters.accepted cs))) @
      type_line ''meta_agent_events_duplicate_total'' ''counter'' @
      metric_line ''meta_agent_events_duplicate_total'' (dec_nat (unat (Counters.duplicate cs))) @
      type_line ''meta_agent_events_rejected_total'' ''counter'' @
      metric_line ''meta_agent_events_rejected_total'' (dec_nat (unat (rejected cs))) @
      type_line ''meta_agent_cache_items'' ''gauge'' @
      type_line ''meta_agent_cache_capacity'' ''gauge'' @
      type_line ''meta_agent_cache_evictions_total'' ''counter'' @
      concat (map cache_lines
        [(''agents'', CacheSnapshot.agents k), (''goals'', CacheSnapshot.goals k), (''tasks'', CacheSnapshot.tasks k),
         (''lessons'', CacheSnapshot.lessons k), (''events'', CacheSnapshot.events k), (''idempotency'', CacheSnapshot.idempotency k)]) @
      type_line ''meta_agent_events_accepted_by_transport_total'' ''counter'' @
      concat (map (\<lambda>(t, n). metric_line (labelled ''meta_agent_events_accepted_by_transport_total'' ''transport'' t) (dec_nat (unat n)))
        (accepted_by_transport cs)) @
      type_line ''meta_agent_events_rejected_by_transport_total'' ''counter'' @
      concat (map (\<lambda>(t, n). metric_line (labelled ''meta_agent_events_rejected_by_transport_total'' ''transport'' t) (dec_nat (unat n)))
        (rejected_by_transport cs)) @
      type_line ''meta_agent_projection_items'' ''gauge'' @
      concat (map (\<lambda>(kd, n). metric_line (labelled ''meta_agent_projection_items'' ''kind'' kd) (dec_nat n))
        [(''agents'', ProjectionCounts.agents pr), (''goals'', ProjectionCounts.goals pr), (''tasks'', ProjectionCounts.tasks pr),
         (''lessons'', ProjectionCounts.lessons pr)]))"

section \<open>Read handlers\<close>

definition read_snapshot ::
  "(string \<Rightarrow> string \<Rightarrow> bool) \<Rightarrow> ('a, 'g, 't, 'l, 'e, 'i) caches \<Rightarrow> AuthPolicy \<Rightarrow> header \<Rightarrow> DateTime \<Rightarrow>
   ('a, 'g, 't, 'l, 'e, 'i) StoreInner \<Rightarrow> HttpApiError + Snapshot" where
  "read_snapshot ct_eq E p authorization now s =
     (case authorize_read ct_eq p (bearer_token authorization) of
        Inl _ \<Rightarrow> Inl HttpUnauthorized
      | Inr _ \<Rightarrow> Inr (snapshot E now s))"

definition read_metrics ::
  "(string \<Rightarrow> string \<Rightarrow> bool) \<Rightarrow> ('a, 'g, 't, 'l, 'e, 'i) caches \<Rightarrow> AuthPolicy \<Rightarrow> header \<Rightarrow>
   ('a, 'g, 't, 'l, 'e, 'i) StoreInner \<Rightarrow> HttpApiError + string" where
  "read_metrics ct_eq E p authorization s =
     (case authorize_read ct_eq p (bearer_token authorization) of
        Inl _ \<Rightarrow> Inl HttpUnauthorized
      | Inr _ \<Rightarrow> Inr (metrics_body (metrics_snapshot E s)))"

end
