(* ===== verification/IngressSpec.thy ===== *)
theory IngressSpec
  imports Ingress StoreSpec
begin

text \<open>
  The properties of the transports: a message without the configured token never reaches the
  projection, every handled message is counted exactly once, and whatever the transports deliver, the
  store stays in a reachable state, so that the properties of the store hold of it.
\<close>

section \<open>Counting\<close>

text \<open>The messages the store has counted: accepted, recognized as duplicates, or rejected.\<close>

definition message_tally :: "('a, 'g, 't, 'l, 'e, 'i) StoreInner \<Rightarrow> nat" where
  "message_tally s = unat (Counters.accepted (StoreInner.counters s)) + unat (Counters.duplicate (StoreInner.counters s)) +
     unat (rejected (StoreInner.counters s))"

lemma unat_bump: "unat a + n + 1 < 2 ^ 64 \<Longrightarrow> unat (sat_add (a :: u64) 1) = unat a + 1"
  by (simp add: unat_sat_add)

lemma record_rejection_tally: "message_tally s + 1 < 2 ^ 64 \<Longrightarrow> message_tally (record_rejection via s) = message_tally s + 1"
  by (simp add: message_tally_def record_rejection_def unat_sat_add)

lemma record_rejection_projection [simp]: "projection (record_rejection via s) = projection s"
  by (simp add: projection_def record_rejection_def)

lemma ingest_tally:
  assumes E: "store_caches E" and room: "message_tally s + 1 < 2 ^ 64"
  shows "message_tally (snd (snd (ingest E ev via now s))) = message_tally s + 1"
proof (cases "validate_envelope ev")
  case (Inl err)
  with room show ?thesis by (simp add: ingest_def record_rejection_tally)
next
  case (Inr u)
  obtain known seen where get: "lru_get (seen_lru E) (seen_event_ids s) (EventEnvelope.event_id ev) = (known, seen)"
    by (cases "lru_get (seen_lru E) (seen_event_ids s) (EventEnvelope.event_id ev)")
  show ?thesis
  proof (cases "known = None")
    case True
    with Inr get have "snd (snd (ingest E ev via now s)) = snd (snd (ingest_new E ev via now (s\<lparr>seen_event_ids := seen\<rparr>)))"
      by (simp add: ingest_def Let_def prod.case_eq_if)
    with room show ?thesis by (simp add: message_tally_def store_caches.ingest_new_state [OF E] unat_sat_add)
  next
    case False
    with Inr get room show ?thesis
      by (simp add: ingest_def ingest_duplicate_def Let_def message_tally_def unat_sat_add)
  qed
qed

text \<open>
  What one handled message does to the store: an ingestion, over UDP of an event that UDP may carry, or a counted
  rejection. Both count it once and lead from a reachable state to a reachable state.
\<close>

definition handled :: "('a, 'g, 't, 'l, 'e, 'i) caches \<Rightarrow> ('a, 'g, 't, 'l, 'e, 'i) StoreInner \<Rightarrow> ('a, 'g, 't, 'l, 'e, 'i) StoreInner \<Rightarrow> bool" where
  "handled E s t \<longleftrightarrow> (\<exists>via. t = record_rejection via s) \<or> 
     (\<exists>ev via now. (via = Udp \<longrightarrow> allowed_over_udp (EventEnvelope.event ev)) \<and> t = snd (snd (ingest E ev via now s)))"

lemma handled_reject [simp]: "handled E s (record_rejection via s)"
  by (auto simp: handled_def)

lemma handled_ingest:
  "ingest E ev via now s = (r, u, t) \<Longrightarrow> via = Udp \<longrightarrow> allowed_over_udp (EventEnvelope.event ev) \<Longrightarrow> handled E s t"
  by (metis handled_def snd_conv)

lemma handled_tally: "store_caches E \<Longrightarrow> handled E s t \<Longrightarrow> message_tally s + 1 < 2 ^ 64 \<Longrightarrow> message_tally t = message_tally s + 1"
  by (auto simp: handled_def record_rejection_tally ingest_tally)

lemma handled_reachable: "handled E s t \<Longrightarrow> reachable E cache s \<Longrightarrow> reachable E cache t"
  by (auto simp: handled_def intro: reachable.intros)

lemma http_handled: "handled E s (snd (ingest_event ct_eq E p h payload now s))"
  by (auto simp: ingest_event_def handled_ingest split: sum.splits prod.splits)

lemma tcp_handled: "handled E s (snd (tcp_frame ct_eq decode E p f now s))"
  by (auto simp: tcp_frame_def tcp_line_def handled_ingest split: sum.splits prod.splits)

lemma udp_handled: "handled E s (snd (udp_datagram ct_eq decode E p m d now s))"
  by (auto simp: udp_datagram_def Let_def handled_ingest split: sum.splits prod.splits)

lemma socket_handled: "handled E s (snd (socket_payload decode E text now s))"
  by (auto simp: socket_payload_def handled_ingest split: sum.splits prod.splits)

text \<open>A run of handled messages.\<close>

fun handled_run :: "('a, 'g, 't, 'l, 'e, 'i) caches \<Rightarrow> nat \<Rightarrow> ('a, 'g, 't, 'l, 'e, 'i) StoreInner \<Rightarrow> ('a, 'g, 't, 'l, 'e, 'i) StoreInner \<Rightarrow> bool" where
  "handled_run E 0 s t = (t = s)"
| "handled_run E (Suc n) s t = (\<exists>u. handled E s u \<and> handled_run E n u t)"

lemma handled_run_tally:
  "store_caches E \<Longrightarrow> handled_run E n s t \<Longrightarrow> message_tally s + n < 2 ^ 64 \<Longrightarrow> message_tally t = message_tally s + n"
proof (induction n arbitrary: s)
  case (Suc n)
  then obtain u where u: "handled E s u" "handled_run E n u t" by auto
  then have "message_tally u = message_tally s + 1" using Suc.prems by (intro handled_tally) simp_all
  with Suc.IH [OF Suc.prems(1) u(2)] Suc.prems(3) show ?case by simp
qed simp

lemma handled_run_reachable: "handled_run E n s t \<Longrightarrow> reachable E cache s \<Longrightarrow> reachable E cache t"
  by (induction n arbitrary: s) (auto intro: handled_reachable)

lemma tcp_run: "handle_connection ct_eq decode E p fs s = (rs, t) \<Longrightarrow> handled_run E (length rs) s t"
proof (induction fs arbitrary: s rs)
  case (Cons f fs)
  obtain frame now sent where f: "f = (frame, now, sent)" by (cases f)
  obtain reply u where r: "tcp_frame ct_eq decode E p frame now s = (reply, u)" by fastforce
  have "handled E s u" using tcp_handled [of E s ct_eq decode p frame now] by (simp add: r)
  with Cons f r show ?case by (fastforce split: if_splits prod.splits)
qed simp

lemma socket_run: "handle_agent_socket decode E ms s = (rs, t) \<Longrightarrow> handled_run E (length rs) s t"
proof (induction ms arbitrary: s rs)
  case (Cons m ms)
  obtain w now sent where m: "m = (w, now, sent)" by (cases m)
  have step: "handled E s u" if "socket_payload decode E x now s = (reply, u)" for x reply u
    using socket_handled [of E s decode x now] that by simp
  from Cons m step show ?case by (cases w) (fastforce split: if_splits prod.splits)+
qed simp

lemma udp_run: "handled_run E (length ds) s (snd (udp_serve ct_eq decode E p m ds s))"
proof (induction ds arbitrary: s)
  case (Cons d ds)
  obtain x now where d: "d = (x, now)" by (cases d)
  obtain reply u where r: "udp_datagram ct_eq decode E p m x now s = (reply, u)" by fastforce
  have "handled E s u" using udp_handled [of E s ct_eq decode p m x now] by (simp add: r)
  with Cons.IH [of u] show ?case by (auto simp: d r split: prod.splits)
qed simp

text \<open>
  What the loops read. A connection is read until a reply cannot be written; a WebSocket session until it is closed, breaks the
  protocol, or an answer cannot be sent, and only its data frames carry events.
\<close>

definition frames_read :: "((string + string) \<times> DateTime \<times> bool) list \<Rightarrow> nat" where
  "frames_read fs = length (up_to (\<lambda>(frame, now, sent). \<not> sent) fs)"

definition ends_session :: "ws_message \<times> DateTime \<times> bool \<Rightarrow> bool" where
  "ends_session x = (case x of (m, now, sent) \<Rightarrow> m \<in> {WsClose, WsProtocolError} \<or> (\<not> sent \<and> (\<forall>data. m \<noteq> WsPong data)))"

definition data_frames_read :: "(ws_message \<times> DateTime \<times> bool) list \<Rightarrow> nat" where
  "data_frames_read ms = length (filter (\<lambda>(m, now, sent). \<exists>data. m = WsText data \<or> m = WsBinary data) (up_to ends_session ms))"

lemma tcp_replies: "handle_connection ct_eq decode E p fs s = (rs, t) \<Longrightarrow> length rs = frames_read fs"
proof (induction fs arbitrary: s rs)
  case (Cons f fs)
  then show ?case by (cases f) (fastforce simp: frames_read_def split: if_splits prod.splits)
qed (simp add: frames_read_def)

lemma socket_replies: "handle_agent_socket decode E ms s = (rs, t) \<Longrightarrow> length rs = data_frames_read ms"
proof (induction ms arbitrary: s rs)
  case (Cons m ms)
  obtain w now sent where m: "m = (w, now, sent)" by (cases m)
  from Cons m show ?case
    by (cases w) (fastforce simp: data_frames_read_def ends_session_def split: if_splits prod.splits)+
qed (simp add: data_frames_read_def)

text \<open>An upgrade that is refused counts as one message, an accepted one as the data frames of its session.\<close>

lemma agent_socket_run:
  assumes "agent_websocket ct_eq decode E p any origin host h qt ms s = (r, t)"
  shows "handled_run E (case r of Inl _ \<Rightarrow> 1 | Inr _ \<Rightarrow> data_frames_read ms) s t \<and>
    (\<forall>rs. r = Inr rs \<longrightarrow> length rs = data_frames_read ms)"
  using assms socket_run [of decode E ms s] socket_replies [of decode E ms s]
  by (auto simp: agent_websocket_def split: if_splits sum.splits prod.splits)

text \<open>
  C23. Every message that reaches the service is counted exactly once, on every transport, and keeps the store reachable: an
  HTTP request, each frame that a TCP connection reads, a refused upgrade of an agent WebSocket or else each data frame that
  its session reads, and each datagram. Each of them raises the sum of the accepted, duplicate and rejected
  counters by one, as long as the sum fits in 64 bits, and each frame of a connection or a session is answered. A connection is
  read until a reply cannot be written, a session until it is closed, breaks the protocol or an answer cannot be sent.
\<close>
theorem messages_are_counted_once:
  assumes E: "store_caches E" and reach: "reachable E cache s" and room: "message_tally s + n < 2 ^ 64"
  shows "(1 \<le> n \<longrightarrow>
      message_tally (snd (ingest_event ct_eq E p h payload now s)) = message_tally s + 1 \<and>
      reachable E cache (snd (ingest_event ct_eq E p h payload now s))) \<and>
    (\<forall>fs rs t. handle_connection ct_eq decode E p fs s = (rs, t) \<and> frames_read fs \<le> n \<longrightarrow>
      message_tally t = message_tally s + frames_read fs \<and> reachable E cache t \<and> length rs = frames_read fs) \<and>
    (\<forall>ms r t. agent_websocket ct_eq decode E p any origin host h qt ms s = (r, t) \<and> 1 \<le> n \<and> data_frames_read ms \<le> n \<longrightarrow>
      message_tally t = message_tally s + (case r of Inl _ \<Rightarrow> 1 | Inr _ \<Rightarrow> data_frames_read ms) \<and> reachable E cache t \<and>
      (\<forall>rs. r = Inr rs \<longrightarrow> length rs = data_frames_read ms)) \<and>
    (\<forall>ds. length ds \<le> n \<longrightarrow>
      message_tally (snd (udp_serve ct_eq decode E p m ds s)) = message_tally s + length ds \<and>
      reachable E cache (snd (udp_serve ct_eq decode E p m ds s)))"
proof (intro conjI allI impI; (elim conjE)?)
  have run: "message_tally t = message_tally s + k" "reachable E cache t" if "handled_run E k s t" "k \<le> n" for k t
    using handled_run_tally [OF E that(1)] handled_run_reachable [OF that(1) reach] that(2) room by simp_all
  show "message_tally (snd (ingest_event ct_eq E p h payload now s)) = message_tally s + 1"
    "reachable E cache (snd (ingest_event ct_eq E p h payload now s))" if "1 \<le> n"
    using run [of 1 "snd (ingest_event ct_eq E p h payload now s)"] that by (simp_all add: http_handled)
  show "message_tally t = message_tally s + frames_read fs" "reachable E cache t" "length rs = frames_read fs"
    if tcp: "handle_connection ct_eq decode E p fs s = (rs, t)" "frames_read fs \<le> n" for fs rs t
    using run [OF tcp_run [OF tcp(1)]] tcp_replies [OF tcp(1)] tcp(2) by simp_all
  show "message_tally t = message_tally s + (case r of Inl _ \<Rightarrow> 1 | Inr _ \<Rightarrow> data_frames_read ms)" "reachable E cache t"
    if ws: "agent_websocket ct_eq decode E p any origin host h qt ms s = (r, t)" "1 \<le> n" "data_frames_read ms \<le> n" for ms r t
    using run [OF agent_socket_run [OF ws(1), THEN conjunct1]] ws(2,3) by (simp_all split: sum.splits)
  show "length rs = data_frames_read ms"
    if "agent_websocket ct_eq decode E p any origin host h qt ms s = (r, t)" "r = Inr rs" for ms r rs t
    using agent_socket_run [OF that(1)] that(2) by blast
  show "message_tally (snd (udp_serve ct_eq decode E p m ds s)) = message_tally s + length ds"
    "reachable E cache (snd (udp_serve ct_eq decode E p m ds s))" if "length ds \<le> n" for ds
    using run [OF udp_run [of E ds s]] that by simp_all
qed

theorem messages_are_counted_once_witness:
  "message_tally (snd (agent_websocket (=) (\<lambda>_. Inl ''not JSON'') list_caches \<lparr>AuthPolicy.token = None, protect_reads = False\<rparr> False
     None None None None [(WsText ''a'', (0, 0), True), (WsPing [], (0, 0), True), (WsBinary ''b'', (0, 0), True), (WsClose, (0, 0), True)]
     demo_s0)) = message_tally demo_s0 + 2"
proof -
  let ?ms = "[(WsText ''a'', (0, 0), True), (WsPing [], (0, 0), True), (WsBinary ''b'', (0, 0), True), (WsClose, (0, 0), True)]"
  let ?p = "\<lparr>AuthPolicy.token = None, protect_reads = False\<rparr>"
  have "message_tally demo_s0 = 0"
    by (simp add: message_tally_def demo_s0_def store_new_def new_cache_def demo_cache_def counters_default_def list_caches_def list_lru_def)
  then have room: "message_tally demo_s0 + 2 < 2 ^ 64" by simp
  have frames: "data_frames_read ?ms = 2" by (simp add: data_frames_read_def ends_session_def)
  obtain r t where run: "agent_websocket (=) (\<lambda>_. Inl ''not JSON'') list_caches ?p False None None None None ?ms demo_s0 = (r, t)"
    by fastforce
  then have "\<exists>rs. r = Inr rs"
    by (auto simp: agent_websocket_def websocket_origin_allowed_def authorize_ingest_def authorize_def ok_def
        simp del: handle_agent_socket.simps split: prod.splits)
  with messages_are_counted_once [OF list_store.store_caches_axioms demo_reachable(1) room, THEN conjunct2, THEN conjunct2,
      THEN conjunct1, rule_format, of "(=)" "\<lambda>_. Inl ''not JSON''" ?p False None None None None ?ms r t] frames run
  show ?thesis by auto
qed

section \<open>Authorization\<close>

text \<open>A datagram that is too long, does not decode, has another token, or carries an event that UDP may not.\<close>

definition udp_unacceptable :: "(string \<Rightarrow> string + TransportPayload) \<Rightarrow> string \<Rightarrow> nat \<Rightarrow> string \<Rightarrow> bool" where
  "udp_unacceptable decode secret m d \<longleftrightarrow>
     length d > m \<or>
     (case decode (udp_receive m d) of
        Inl _ \<Rightarrow> True
      | Inr pl \<Rightarrow> fst (into_parts pl) \<noteq> Some secret \<or> \<not> allowed_over_udp (EventEnvelope.event (snd (into_parts pl))))"

text \<open>
  With a token configured, a message that does not carry it never reaches the projection, on any
  transport: the request, upgrade, line or datagram is refused, and the store changes in its rejection
  counters only. Over UDP the same holds for the events that need a reliable transport, and for
  oversized datagrams. Whether the origin of a WebSocket is allowed makes no difference.
\<close>
theorem transports_refuse_foreign_tokens:
  assumes eq: "constant_time_eq ct_eq" and p: "AuthPolicy.token p = Some secret"
  shows "(bearer_token h \<noteq> Some secret \<longrightarrow>
      ingest_event ct_eq E p h payload now s = (Inl HttpUnauthorized, record_rejection Http s)) \<and>
    (preferred_token h q \<noteq> Some secret \<longrightarrow>
      agent_websocket ct_eq decode E p any origin host h q ms s =
        (Inl (if websocket_origin_allowed origin host any then HttpUnauthorized else HttpForbidden), record_rejection WebSocket s)) \<and>
    (\<forall>line pl. decode line = Inr pl \<and> fst (into_parts pl) \<noteq> Some secret \<longrightarrow>
      tcp_frame ct_eq decode E p (Inr line) now s = (UnauthorizedReply, record_rejection Tcp s)) \<and>
    (\<forall>m d. m < 2 ^ 64 - 1 \<and> udp_unacceptable decode secret m d \<longrightarrow>
      snd (udp_datagram ct_eq decode E p m d now s) = record_rejection Udp s) \<and>
    projection (record_rejection via s) = projection s"
proof -
  have refused: "authorize_ingest ct_eq p given = Inl AuthorizationError" if "given \<noteq> Some secret" for given
    by (rule constant_time_eq.authorize_ingest_refused [OF eq p that])
  have "snd (udp_datagram ct_eq decode E p m d now s) = record_rejection Udp s"
    if "m < 2 ^ 64 - 1" "udp_unacceptable decode secret m d" for m d
  proof -
    have "length d > m \<Longrightarrow> length (udp_receive m d) > m" using that(1) by (simp add: udp_receive_def)
    with that(2) show ?thesis
      by (auto simp: udp_unacceptable_def udp_datagram_def Let_def refused split: sum.splits)
  qed
  then show ?thesis
    by (simp add: ingest_event_def agent_websocket_def tcp_frame_def tcp_line_def refused)
qed

theorem transports_refuse_foreign_tokens_witness:
  "ingest_event (\<lambda>a b. list_all2 (=) a b) list_caches \<lparr>AuthPolicy.token = Some ''secret'', protect_reads = False\<rparr>
     None (Inr demo_e1) (0, 0) demo_s0 = (Inl HttpUnauthorized, record_rejection Http demo_s0) \<and>
   projection (record_rejection Http demo_s0) = projection demo_s0"
  using transports_refuse_foreign_tokens [OF byte_eq.constant_time_eq_axioms,
      of "\<lparr>AuthPolicy.token = Some ''secret'', protect_reads = False\<rparr>" "''secret''" None list_caches]
  by (simp add: bearer_token_def)

end
