(* ===== verification/Api.thy ===== *)
theory Api
  imports Coordination Explorer Timeline Ingress Collector
begin

text \<open>
  The read APIs with their query strings (\<open>src/coordination_api.rs\<close>, \<open>src/explorer_api.rs\<close>,
  \<open>src/timeline_api.rs\<close>, \<open>src/metacognition_api.rs\<close>) and the handlers of the runtime API
  (\<open>src/runtime_api.rs\<close>). Routing and the encoding of bodies belong to \<open>axum\<close>: a handler takes the
  value of the \<open>Authorization\<close> header, the raw query and the decoded body (an error as its text).
  An error response is its status code, its error code and its message. The renderings and parsers
  of \<open>uuid\<close> and \<open>chrono\<close> are the arguments \<open>uuid_str\<close>, \<open>simple\<close>, \<open>parse_str\<close>, \<open>since\<close>
  and \<open>timestamp_opt\<close>, as in the components.
\<close>

section \<open>Query strings\<close>

text \<open>
  The loop the parsers share: split at ampersands, split each parameter at its first equals sign,
  refuse a repeated name, and hand the rest to the parser's own match on the name. \<open>topic\<close> is the
  word the messages start with.
\<close>

fun parse_parameters ::
  "string \<Rightarrow> (string \<Rightarrow> string \<Rightarrow> 'q \<Rightarrow> string + 'q) \<Rightarrow> string list \<Rightarrow> string list \<Rightarrow> 'q \<Rightarrow> string + 'q" where
  "parse_parameters topic assign seen [] q = Inr q"
| "parse_parameters topic assign seen (parameter # ps) q =
     (case str_split_once CHR ''='' parameter of
        None \<Rightarrow> Inl (topic @ '' parameters must use name=value syntax'')
      | Some (name, raw_value) \<Rightarrow>
          if name \<in> set seen then Inl (topic @ '' parameter '' @ name @ '' may be provided only once'')
          else (case assign name raw_value q of
              Inl err \<Rightarrow> Inl err
            | Inr q1 \<Rightarrow> parse_parameters topic assign (name # seen) ps q1))"

definition parse_query :: "string \<Rightarrow> (string \<Rightarrow> string \<Rightarrow> 'q \<Rightarrow> string + 'q) \<Rightarrow> 'q \<Rightarrow> string option \<Rightarrow> string + 'q" where
  "parse_query topic assign start raw_query =
     (case raw_query of
        None \<Rightarrow> Inr start
      | Some text \<Rightarrow> if text = [] then Inr start else parse_parameters topic assign [] (str_split CHR ''&'' text) start)"

definition bounded :: "string \<Rightarrow> string \<Rightarrow> nat \<Rightarrow> nat \<Rightarrow> string + nat" where
  "bounded topic name value maximum =
     (if value = 0 \<or> value > maximum
      then Inl (topic @ '' parameter '' @ name @ '' must be between 1 and '' @ dec_nat maximum)
      else Inr value)"

definition parse_number :: "string \<Rightarrow> string \<Rightarrow> string \<Rightarrow> string + nat" where
  "parse_number topic name raw_value =
     (case parse_uint 64 raw_value of
        None \<Rightarrow> Inl (topic @ '' parameter '' @ name @ '' must be a positive base-10 integer'')
      | Some n \<Rightarrow> Inr n)"

section \<open>Coordination\<close>

definition MAX_ASSIGNMENTS_LIMIT :: nat where "MAX_ASSIGNMENTS_LIMIT = 256"
definition MAX_ASSIGNMENTS_PER_AGENT_LIMIT :: nat where "MAX_ASSIGNMENTS_PER_AGENT_LIMIT = 32"
definition MAX_INTERVENTIONS_LIMIT :: nat where "MAX_INTERVENTIONS_LIMIT = 512"
definition MAX_HOLDS_LIMIT :: nat where "MAX_HOLDS_LIMIT = 1024"

datatype PlanApiError = PlanUnauthorized | PlanBadRequest string | PlanningFailed string

fun plan_error_response :: "PlanApiError \<Rightarrow> nat \<times> string \<times> string" where
  "plan_error_response PlanUnauthorized = (401, ''unauthorized'', ''Authentication failed'')"
| "plan_error_response (PlanBadRequest m) = (400, ''invalid_planning_policy'', m)"
| "plan_error_response (PlanningFailed m) = (500, ''planning_failed'', m)"

record PlanningQuery =
  max_assignments :: "nat option"
  max_assignments_per_agent :: "nat option"
  max_interventions :: "nat option"
  max_holds :: "nat option"

definition planning_query_default :: PlanningQuery where
  "planning_query_default =
     \<lparr>PlanningQuery.max_assignments = None, max_assignments_per_agent = None, max_interventions = None, max_holds = None\<rparr>"

definition assign_planning :: "string \<Rightarrow> string \<Rightarrow> PlanningQuery \<Rightarrow> string + PlanningQuery" where
  "assign_planning name raw_value q =
     (case parse_number ''planning'' name raw_value of
        Inl err \<Rightarrow> Inl err
      | Inr v \<Rightarrow>
          if name = ''max_assignments'' then
            map_sum id (\<lambda>n. q\<lparr>PlanningQuery.max_assignments := Some n\<rparr>) (bounded ''planning'' name v MAX_ASSIGNMENTS_LIMIT)
          else if name = ''max_assignments_per_agent'' then
            map_sum id (\<lambda>n. q\<lparr>PlanningQuery.max_assignments_per_agent := Some n\<rparr>)
              (bounded ''planning'' name v MAX_ASSIGNMENTS_PER_AGENT_LIMIT)
          else if name = ''max_interventions'' then
            map_sum id (\<lambda>n. q\<lparr>PlanningQuery.max_interventions := Some n\<rparr>) (bounded ''planning'' name v MAX_INTERVENTIONS_LIMIT)
          else if name = ''max_holds'' then
            map_sum id (\<lambda>n. q\<lparr>PlanningQuery.max_holds := Some n\<rparr>) (bounded ''planning'' name v MAX_HOLDS_LIMIT)
          else Inl (''unknown planning parameter '' @ name))"

definition planning_query_parse :: "string option \<Rightarrow> PlanApiError + PlanningQuery" where
  "planning_query_parse raw_query =
     map_sum PlanBadRequest id (parse_query ''planning'' assign_planning planning_query_default raw_query)"

definition unwrap_or :: "'x option \<Rightarrow> 'x \<Rightarrow> 'x" where
  "unwrap_or v d = (case v of None \<Rightarrow> d | Some x \<Rightarrow> x)"

definition planning_query_policy :: "PlanningQuery \<Rightarrow> PlanningPolicy" where
  "planning_query_policy q =
     \<lparr>PlanningPolicy.max_assignments =
        unwrap_or (PlanningQuery.max_assignments q) (PlanningPolicy.max_assignments planning_policy_default),
      max_assignments_per_agent =
        unwrap_or (PlanningQuery.max_assignments_per_agent q) (PlanningPolicy.max_assignments_per_agent planning_policy_default),
      max_interventions =
        unwrap_or (PlanningQuery.max_interventions q) (PlanningPolicy.max_interventions planning_policy_default),
      max_holds = unwrap_or (PlanningQuery.max_holds q) (PlanningPolicy.max_holds planning_policy_default)\<rparr>"

fun planning_error_text :: "PlanningError \<Rightarrow> string" where
  "planning_error_text (InvalidPolicy name) = name @ '' must be greater than zero''"

definition plan_api ::
  "(string \<Rightarrow> string \<Rightarrow> bool) \<Rightarrow> (DateTime \<Rightarrow> DateTime \<Rightarrow> int) \<Rightarrow> AuthPolicy \<Rightarrow> header \<Rightarrow> string option \<Rightarrow> Snapshot \<Rightarrow>
   PlanApiError + CoordinationPlan" where
  "plan_api ct_eq since p authorization raw_query snap =
     (case authorize_read ct_eq p (bearer_token authorization) of
        Inl _ \<Rightarrow> Inl PlanUnauthorized
      | Inr _ \<Rightarrow>
          (case planning_query_parse raw_query of
             Inl err \<Rightarrow> Inl err
           | Inr q \<Rightarrow>
               map_sum (\<lambda>err. PlanningFailed (planning_error_text err)) id
                 (build_plan_with_policy since snap analysis_policy_default (planning_query_policy q))))"

section \<open>Explorer\<close>

datatype ExplorerApiError = ExplorerUnauthorized | ExplorerBadRequest string | ProjectionFailed string

fun explorer_error_response :: "ExplorerApiError \<Rightarrow> nat \<times> string \<times> string" where
  "explorer_error_response ExplorerUnauthorized = (401, ''unauthorized'', ''Authentication failed'')"
| "explorer_error_response (ExplorerBadRequest m) = (400, ''invalid_explorer_policy'', m)"
| "explorer_error_response (ProjectionFailed m) = (500, ''explorer_projection_failed'', m)"

record ExplorerQuery =
  timeline_limit :: "nat option"
  session_limit :: "nat option"
  lesson_limit :: "nat option"

definition explorer_query_default :: ExplorerQuery where
  "explorer_query_default = \<lparr>ExplorerQuery.timeline_limit = None, session_limit = None, lesson_limit = None\<rparr>"

definition assign_explorer :: "string \<Rightarrow> string \<Rightarrow> ExplorerQuery \<Rightarrow> string + ExplorerQuery" where
  "assign_explorer name raw_value q =
     (case parse_number ''explorer'' name raw_value of
        Inl err \<Rightarrow> Inl err
      | Inr v \<Rightarrow>
          if name = ''timeline_limit'' then
            map_sum id (\<lambda>n. q\<lparr>ExplorerQuery.timeline_limit := Some n\<rparr>) (bounded ''explorer'' name v MAX_TIMELINE_LIMIT)
          else if name = ''session_limit'' then
            map_sum id (\<lambda>n. q\<lparr>ExplorerQuery.session_limit := Some n\<rparr>) (bounded ''explorer'' name v MAX_SESSION_LIMIT)
          else if name = ''lesson_limit'' then
            map_sum id (\<lambda>n. q\<lparr>ExplorerQuery.lesson_limit := Some n\<rparr>) (bounded ''explorer'' name v MAX_LESSON_LIMIT)
          else Inl (''unknown explorer parameter '' @ name))"

definition explorer_query_parse :: "string option \<Rightarrow> ExplorerApiError + ExplorerQuery" where
  "explorer_query_parse raw_query =
     map_sum ExplorerBadRequest id (parse_query ''explorer'' assign_explorer explorer_query_default raw_query)"

definition explorer_query_policy :: "ExplorerQuery \<Rightarrow> ExplorerPolicy" where
  "explorer_query_policy q =
     \<lparr>ExplorerPolicy.timeline_limit =
        unwrap_or (ExplorerQuery.timeline_limit q) (ExplorerPolicy.timeline_limit explorer_policy_default),
      session_limit = unwrap_or (ExplorerQuery.session_limit q) (ExplorerPolicy.session_limit explorer_policy_default),
      lesson_limit = unwrap_or (ExplorerQuery.lesson_limit q) (ExplorerPolicy.lesson_limit explorer_policy_default)\<rparr>"

fun explorer_error_text :: "ExplorerError \<Rightarrow> string" where
  "explorer_error_text (InvalidExplorerLimit name maximum) = name @ '' must be between 1 and '' @ dec_nat maximum"

definition explorer_api ::
  "(string \<Rightarrow> string \<Rightarrow> bool) \<Rightarrow> (Uuid \<Rightarrow> string) \<Rightarrow> (DateTime \<Rightarrow> DateTime \<Rightarrow> int) \<Rightarrow> AuthPolicy \<Rightarrow> header \<Rightarrow> string option \<Rightarrow>
   Snapshot \<Rightarrow> ExplorerApiError + ExplorerSnapshot" where
  "explorer_api ct_eq uuid_str since p authorization raw_query snap =
     (case authorize_read ct_eq p (bearer_token authorization) of
        Inl _ \<Rightarrow> Inl ExplorerUnauthorized
      | Inr _ \<Rightarrow>
          (case explorer_query_parse raw_query of
             Inl err \<Rightarrow> Inl err
           | Inr q \<Rightarrow>
               map_sum (\<lambda>err. ProjectionFailed (explorer_error_text err)) id
                 (build_explorer uuid_str since snap (explorer_query_policy q))))"

section \<open>Timeline\<close>

datatype TimelineApiError = TimelineUnauthorized | TimelineBadRequest string | TimelineConflict u64 u64

fun timeline_error_response :: "TimelineApiError \<Rightarrow> nat \<times> string \<times> string" where
  "timeline_error_response TimelineUnauthorized = (401, ''unauthorized'', ''Authentication failed'')"
| "timeline_error_response (TimelineBadRequest m) = (400, ''invalid_timeline_query'', m)"
| "timeline_error_response (TimelineConflict requested current) =
     (409, ''timeline_revision_changed'', ''The retained timeline changed; restart pagination from the first page'')"

record TimelineQuery =
  limit :: "nat option"
  cursor :: "TimelineCursor option"

definition assign_timeline ::
  "(string \<Rightarrow> Uuid option) \<Rightarrow> (int \<Rightarrow> int \<Rightarrow> DateTime option) \<Rightarrow> string \<Rightarrow> string \<Rightarrow> TimelineQuery \<Rightarrow> string + TimelineQuery" where
  "assign_timeline parse_str timestamp_opt name raw_value q =
     (if name = ''limit'' then
        (case parse_number ''timeline'' name raw_value of
           Inl err \<Rightarrow> Inl err
         | Inr v \<Rightarrow>
             map_sum id (\<lambda>n. q\<lparr>TimelineQuery.limit := Some n\<rparr>) (bounded ''timeline'' name v MAX_TIMELINE_PAGE_LIMIT))
      else if name = ''cursor'' then
        (case cursor_parse parse_str timestamp_opt raw_value of
           Inl _ \<Rightarrow> Inl ''timeline cursor is invalid''
         | Inr c \<Rightarrow> Inr (q\<lparr>TimelineQuery.cursor := Some c\<rparr>))
      else Inl (''unknown timeline parameter '' @ name))"

definition timeline_query_parse ::
  "(string \<Rightarrow> Uuid option) \<Rightarrow> (int \<Rightarrow> int \<Rightarrow> DateTime option) \<Rightarrow> string option \<Rightarrow> TimelineApiError + TimelineQuery" where
  "timeline_query_parse parse_str timestamp_opt raw_query =
     map_sum TimelineBadRequest id
       (parse_query ''timeline'' (assign_timeline parse_str timestamp_opt) \<lparr>TimelineQuery.limit = None, cursor = None\<rparr> raw_query)"

definition timeline_query_policy :: "TimelineQuery \<Rightarrow> TimelinePolicy" where
  "timeline_query_policy q =
     \<lparr>TimelinePolicy.limit = unwrap_or (TimelineQuery.limit q) (TimelinePolicy.limit timeline_policy_default)\<rparr>"

fun timeline_error :: "TimelineError \<Rightarrow> TimelineApiError" where
  "timeline_error InvalidLimit = TimelineBadRequest (''timeline limit must be between 1 and '' @ dec_nat MAX_TIMELINE_PAGE_LIMIT)"
| "timeline_error InvalidCursor = TimelineBadRequest ''timeline cursor is invalid''"
| "timeline_error (RevisionChanged requested current) = TimelineConflict requested current"

definition timeline_api ::
  "(string \<Rightarrow> string \<Rightarrow> bool) \<Rightarrow> (Uuid \<Rightarrow> string) \<Rightarrow> (string \<Rightarrow> Uuid option) \<Rightarrow> (int \<Rightarrow> int \<Rightarrow> DateTime option) \<Rightarrow> AuthPolicy \<Rightarrow> header \<Rightarrow>
   string option \<Rightarrow> Snapshot \<Rightarrow> TimelineApiError + TimelinePage" where
  "timeline_api ct_eq simple parse_str timestamp_opt p authorization raw_query snap =
     (case authorize_read ct_eq p (bearer_token authorization) of
        Inl _ \<Rightarrow> Inl TimelineUnauthorized
      | Inr _ \<Rightarrow>
          (case timeline_query_parse parse_str timestamp_opt raw_query of
             Inl err \<Rightarrow> Inl err
           | Inr q \<Rightarrow>
               map_sum timeline_error id
                 (build_timeline_page simple snap (timeline_query_policy q) (TimelineQuery.cursor q))))"

section \<open>Metacognition\<close>

datatype MetacognitionApiError = MetacognitionUnauthorized

definition metacognition_api ::
  "(string \<Rightarrow> string \<Rightarrow> bool) \<Rightarrow> (DateTime \<Rightarrow> DateTime \<Rightarrow> int) \<Rightarrow> AuthPolicy \<Rightarrow> header \<Rightarrow> Snapshot \<Rightarrow>
   MetacognitionApiError + MetacognitionSnapshot" where
  "metacognition_api ct_eq since p authorization snap =
     (case authorize_read ct_eq p (bearer_token authorization) of
        Inl _ \<Rightarrow> Inl MetacognitionUnauthorized
      | Inr _ \<Rightarrow> Inr (analyze since snap))"

section \<open>Runtime\<close>

datatype RuntimeApiError =
    RuntimeUnauthorized | RuntimeBadRequest string | RuntimeAgentNotHookBacked | RuntimeCommandAgentMismatch | RuntimeNotFound

fun runtime_error_response :: "RuntimeApiError \<Rightarrow> nat \<times> string \<times> string" where
  "runtime_error_response RuntimeUnauthorized = (401, ''unauthorized'', ''Authentication failed'')"
| "runtime_error_response (RuntimeBadRequest m) = (400, ''invalid_runtime_request'', m)"
| "runtime_error_response RuntimeAgentNotHookBacked =
     (409, ''runtime_agent_not_hook_backed'', ''Agent has no cooperative control channel'')"
| "runtime_error_response RuntimeCommandAgentMismatch =
     (403, ''runtime_command_agent_mismatch'', ''Control command belongs to a different agent'')"
| "runtime_error_response RuntimeNotFound = (404, ''runtime_command_not_found'', ''Control command was not found'')"

record HookAck =
  event_id :: Uuid
  accepted :: bool
  duplicate :: bool

type_synonym 'r runtime_result = "(RuntimeApiError + 'r) \<times> RuntimeMonitor"

text \<open>\<open>authorize_ingest(&state, &headers)?\<close> and the decoding of the body, before the rest of a handler.\<close>

definition runtime_guarded ::
  "(string \<Rightarrow> string \<Rightarrow> bool) \<Rightarrow> AuthPolicy \<Rightarrow> header \<Rightarrow> string \<Rightarrow> string + 'b \<Rightarrow> ('b \<Rightarrow> RuntimeMonitor \<Rightarrow> 'r runtime_result) \<Rightarrow>
   RuntimeMonitor \<Rightarrow> 'r runtime_result" where
  "runtime_guarded ct_eq p authorization bad_json payload body m =
     (case authorize_ingest ct_eq p (bearer_token authorization) of
        Inl _ \<Rightarrow> (Inl RuntimeUnauthorized, m)
      | Inr _ \<Rightarrow> (case payload of Inl _ \<Rightarrow> (Inl (RuntimeBadRequest bad_json), m) | Inr x \<Rightarrow> body x m))"

definition api_ingest_hook ::
  "(string \<Rightarrow> string \<Rightarrow> bool) \<Rightarrow> AuthPolicy \<Rightarrow> header \<Rightarrow> string + RuntimeHookEnvelope \<Rightarrow> RuntimeMonitor \<Rightarrow> (nat \<times> HookAck) runtime_result" where
  "api_ingest_hook ct_eq p authorization payload m =
     runtime_guarded ct_eq p authorization ''Invalid runtime hook JSON'' payload
       (\<lambda>h m. case ingest_hook (RuntimeMonitor.config m) h (RuntimeMonitor.state m) of (r, t) \<Rightarrow>
          (case r of
             Inr _ \<Rightarrow> Inr (202, \<lparr>HookAck.event_id = RuntimeHookEnvelope.event_id h, accepted = True, duplicate = False\<rparr>)
           | Inl DuplicateHook \<Rightarrow> Inr (200, \<lparr>HookAck.event_id = RuntimeHookEnvelope.event_id h, accepted = True, duplicate = True\<rparr>)
           | Inl _ \<Rightarrow> Inl (RuntimeBadRequest ''Runtime hook failed validation''),
           m\<lparr>RuntimeMonitor.state := t\<rparr>)) m"

definition api_set_collection ::
  "(string \<Rightarrow> string \<Rightarrow> bool) \<Rightarrow> AuthPolicy \<Rightarrow> header \<Rightarrow> string + bool \<Rightarrow> RuntimeMonitor \<Rightarrow> bool runtime_result" where
  "api_set_collection ct_eq p authorization payload m =
     runtime_guarded ct_eq p authorization ''Invalid collection control JSON'' payload
       (\<lambda>b m. (Inr (RuntimeMonitor.collection_enabled (set_collection_enabled b m)), set_collection_enabled b m)) m"

definition api_enqueue_command ::
  "(string \<Rightarrow> string \<Rightarrow> bool) \<Rightarrow> Uuid \<Rightarrow> DateTime \<Rightarrow> AuthPolicy \<Rightarrow> header \<Rightarrow> string + ControlCommandRequest \<Rightarrow> RuntimeMonitor \<Rightarrow>
   (nat \<times> ControlCommand) runtime_result" where
  "api_enqueue_command ct_eq new_v4 now p authorization payload m =
     runtime_guarded ct_eq p authorization ''Invalid control command JSON'' payload
       (\<lambda>q m. case enqueue_command (RuntimeMonitor.config m) new_v4 now q (RuntimeMonitor.state m) of (r, t) \<Rightarrow>
          (case r of
             Inr command \<Rightarrow> Inr (202, command)
           | Inl AgentNotHookBacked \<Rightarrow> Inl RuntimeAgentNotHookBacked
           | Inl _ \<Rightarrow> Inl (RuntimeBadRequest ''Control command failed validation''),
           m\<lparr>RuntimeMonitor.state := t\<rparr>)) m"

definition api_pending_commands ::
  "(string \<Rightarrow> string \<Rightarrow> bool) \<Rightarrow> AuthPolicy \<Rightarrow> header \<Rightarrow> string + string \<Rightarrow> RuntimeMonitor \<Rightarrow> ControlCommand list runtime_result" where
  "api_pending_commands ct_eq p authorization payload m =
     runtime_guarded ct_eq p authorization ''Invalid command poll JSON'' payload
       (\<lambda>aid m. (map_sum (\<lambda>_. RuntimeBadRequest ''Command poll failed validation'') id
          (list_pending aid (RuntimeMonitor.state m)), m)) m"

definition api_acknowledge_command ::
  "(string \<Rightarrow> string \<Rightarrow> bool) \<Rightarrow> DateTime \<Rightarrow> AuthPolicy \<Rightarrow> header \<Rightarrow> string + ControlCommandAck \<Rightarrow> RuntimeMonitor \<Rightarrow> ControlCommand runtime_result" where
  "api_acknowledge_command ct_eq now p authorization payload m =
     runtime_guarded ct_eq p authorization ''Invalid command acknowledgement JSON'' payload
       (\<lambda>a m. case acknowledge_command now a (RuntimeMonitor.state m) of (r, t) \<Rightarrow>
          (case r of
             Inr command \<Rightarrow> Inr command
           | Inl CommandNotFound \<Rightarrow> Inl RuntimeNotFound
           | Inl CommandAgentMismatch \<Rightarrow> Inl RuntimeCommandAgentMismatch
           | Inl _ \<Rightarrow> Inl (RuntimeBadRequest ''Command acknowledgement failed validation''),
           m\<lparr>RuntimeMonitor.state := t\<rparr>)) m"

definition api_runtime_snapshot ::
  "(string \<Rightarrow> string \<Rightarrow> bool) \<Rightarrow> string list \<Rightarrow> u32 list \<Rightarrow> DateTime \<Rightarrow> AuthPolicy \<Rightarrow> header \<Rightarrow> RuntimeMonitor \<Rightarrow>
   RuntimeApiError + RuntimeSnapshot" where
  "api_runtime_snapshot ct_eq agent_order pid_order now p authorization m =
     (case authorize_read ct_eq p (bearer_token authorization) of
        Inl _ \<Rightarrow> Inl RuntimeUnauthorized
      | Inr _ \<Rightarrow> Inr (runtime_snapshot agent_order pid_order now m))"

end
