(* ===== verification/ApiSpec.thy ===== *)
theory ApiSpec
  imports Api RuntimeInv
begin

text \<open>
  The properties of the APIs: a query string never leads to an internal error, the limits it sets are
  within the bounds of the API, and the runtime API changes the monitor only for a caller with the
  token, by one step of its state machine.
\<close>

section \<open>Query strings\<close>

text \<open>What a successful parse keeps: a property of the query that every assignment keeps.\<close>

locale query_parser =
  fixes assign :: "string \<Rightarrow> string \<Rightarrow> 'q \<Rightarrow> string + 'q" and good :: "'q \<Rightarrow> bool"
  assumes assign_good: "good q \<Longrightarrow> assign name raw_value q = Inr r \<Longrightarrow> good r"
begin

lemma parameters_good: "good q \<Longrightarrow> parse_parameters topic assign seen ps q = Inr r \<Longrightarrow> good r"
proof (induction ps arbitrary: seen q)
  case (Cons a ps)
  from Cons.prems(2) obtain name raw_value q1 where "assign name raw_value q = Inr q1"
    and rest: "parse_parameters topic assign (name # seen) ps q1 = Inr r"
    by (auto split: option.splits if_splits sum.splits)
  with Cons.prems(1) have "good q1" by (blast intro: assign_good)
  then show ?case by (rule Cons.IH [OF _ rest])
qed simp

lemma query_good: "good start \<Longrightarrow> parse_query topic assign start raw = Inr r \<Longrightarrow> good r"
  by (auto simp: parse_query_def split: option.splits if_splits intro: parameters_good)

end

lemma bounded_Inr: "bounded topic name v n = Inr k \<longleftrightarrow> k = v \<and> 1 \<le> v \<and> v \<le> n"
  by (auto simp: bounded_def)

lemma map_sum_Inr: "map_sum f g x = Inr y \<longleftrightarrow> (\<exists>z. x = Inr z \<and> y = g z)"
  by (cases x) auto

definition in_limit :: "nat option \<Rightarrow> nat \<Rightarrow> bool" where
  "in_limit v n = (case v of None \<Rightarrow> True | Some k \<Rightarrow> 1 \<le> k \<and> k \<le> n)"

lemma in_limit_simps [simp]: "in_limit None n" "in_limit (Some k) n \<longleftrightarrow> 1 \<le> k \<and> k \<le> n"
  by (simp_all add: in_limit_def)

definition planning_query_ok :: "PlanningQuery \<Rightarrow> bool" where
  "planning_query_ok q \<longleftrightarrow>
     in_limit (PlanningQuery.max_assignments q) MAX_ASSIGNMENTS_LIMIT \<and>
     in_limit (PlanningQuery.max_assignments_per_agent q) MAX_ASSIGNMENTS_PER_AGENT_LIMIT \<and>
     in_limit (PlanningQuery.max_interventions q) MAX_INTERVENTIONS_LIMIT \<and>
     in_limit (PlanningQuery.max_holds q) MAX_HOLDS_LIMIT"

definition explorer_query_ok :: "ExplorerQuery \<Rightarrow> bool" where
  "explorer_query_ok q \<longleftrightarrow>
     in_limit (ExplorerQuery.timeline_limit q) MAX_TIMELINE_LIMIT \<and>
     in_limit (ExplorerQuery.session_limit q) MAX_SESSION_LIMIT \<and> in_limit (ExplorerQuery.lesson_limit q) MAX_LESSON_LIMIT"

interpretation planning_parser: query_parser assign_planning planning_query_ok
  by unfold_locales (auto simp: assign_planning_def planning_query_ok_def map_sum_Inr bounded_Inr split: sum.splits if_splits)

interpretation explorer_parser: query_parser assign_explorer explorer_query_ok
  by unfold_locales (auto simp: assign_explorer_def explorer_query_ok_def map_sum_Inr bounded_Inr split: sum.splits if_splits)

interpretation timeline_parser: query_parser "assign_timeline parse_str timestamp_opt"
  "\<lambda>q. in_limit (TimelineQuery.limit q) MAX_TIMELINE_PAGE_LIMIT"
  by unfold_locales (auto simp: assign_timeline_def map_sum_Inr bounded_Inr split: sum.splits if_splits)

lemmas api_limits = MAX_ASSIGNMENTS_LIMIT_def MAX_ASSIGNMENTS_PER_AGENT_LIMIT_def MAX_INTERVENTIONS_LIMIT_def MAX_HOLDS_LIMIT_def
  MAX_TIMELINE_LIMIT_def MAX_SESSION_LIMIT_def MAX_LESSON_LIMIT_def MAX_TIMELINE_PAGE_LIMIT_def
  planning_policy_default_def explorer_policy_default_def timeline_policy_default_def

definition planning_policy_within :: "PlanningPolicy \<Rightarrow> bool" where
  "planning_policy_within pol \<longleftrightarrow>
     1 \<le> PlanningPolicy.max_assignments pol \<and> PlanningPolicy.max_assignments pol \<le> 256 \<and>
     1 \<le> PlanningPolicy.max_assignments_per_agent pol \<and> PlanningPolicy.max_assignments_per_agent pol \<le> 32 \<and>
     1 \<le> PlanningPolicy.max_interventions pol \<and> PlanningPolicy.max_interventions pol \<le> 512 \<and>
     1 \<le> PlanningPolicy.max_holds pol \<and> PlanningPolicy.max_holds pol \<le> 1024"

definition explorer_policy_within :: "ExplorerPolicy \<Rightarrow> bool" where
  "explorer_policy_within pol \<longleftrightarrow>
     1 \<le> ExplorerPolicy.timeline_limit pol \<and> ExplorerPolicy.timeline_limit pol \<le> 250 \<and>
     1 \<le> ExplorerPolicy.session_limit pol \<and> ExplorerPolicy.session_limit pol \<le> 250 \<and>
     1 \<le> ExplorerPolicy.lesson_limit pol \<and> ExplorerPolicy.lesson_limit pol \<le> 1000"

lemma planning_query_policy_within:
  assumes "planning_query_parse raw = Inr q" shows "planning_policy_within (planning_query_policy q)"
proof -
  have "planning_query_ok q"
    using assms planning_parser.query_good [of planning_query_default "''planning''" raw q]
    by (simp add: planning_query_parse_def map_sum_Inr planning_query_ok_def planning_query_default_def)
  then show ?thesis
    unfolding planning_query_ok_def planning_policy_within_def planning_query_policy_def
    by (simp add: in_limit_def unwrap_or_def api_limits split: option.splits)
qed

lemma explorer_query_policy_within:
  assumes "explorer_query_parse raw = Inr q" shows "explorer_policy_within (explorer_query_policy q)"
proof -
  have "explorer_query_ok q"
    using assms explorer_parser.query_good [of explorer_query_default "''explorer''" raw q]
    by (simp add: explorer_query_parse_def map_sum_Inr explorer_query_ok_def explorer_query_default_def)
  then show ?thesis
    unfolding explorer_query_ok_def explorer_policy_within_def explorer_query_policy_def
    by (simp add: in_limit_def unwrap_or_def api_limits split: option.splits)
qed

lemma timeline_query_policy_within:
  assumes "timeline_query_parse parse_str timestamp_opt raw = Inr q"
  shows "1 \<le> TimelinePolicy.limit (timeline_query_policy q) \<and> TimelinePolicy.limit (timeline_query_policy q) \<le> 100"
proof -
  have "in_limit (TimelineQuery.limit q) MAX_TIMELINE_PAGE_LIMIT"
    using assms timeline_parser.query_good [of "\<lparr>TimelineQuery.limit = None, cursor = None\<rparr>" "''timeline''" parse_str timestamp_opt raw q]
    by (simp add: timeline_query_parse_def map_sum_Inr)
  then show ?thesis
    by (simp add: in_limit_def unwrap_or_def timeline_query_policy_def api_limits split: option.splits)
qed

lemma plan_within_succeeds:
  "planning_policy_within pol \<Longrightarrow> \<exists>plan. build_plan_with_policy since snap apol pol = Inr plan \<and> CoordinationPlan.planning_policy plan = pol"
  by (auto simp: planning_policy_within_def build_plan_with_policy_def validate_planning_policy_def run_checks.simps guard_err_def
      ok_def plan_from_analysis_def Let_def prod.case_eq_if)

lemma explorer_within_succeeds:
  "explorer_policy_within pol \<Longrightarrow> \<exists>x. build_explorer uuid_str since snap pol = Inr x \<and> ExplorerSnapshot.policy x = pol"
  by (auto simp: explorer_policy_within_def build_explorer_def validate_explorer_policy_def validate_limit_def run_checks.simps
      guard_err_def ok_def explorer_body_def Let_def api_limits)

lemma plan_api_outcome:
  "(\<exists>e. plan_api ct_eq since p h raw snap = Inl e \<and> (\<forall>m. e \<noteq> PlanningFailed m)) \<or>
   (\<exists>plan. plan_api ct_eq since p h raw snap = Inr plan \<and> planning_policy_within (CoordinationPlan.planning_policy plan))"
proof (cases "planning_query_parse raw")
  case (Inr q)
  with plan_within_succeeds [OF planning_query_policy_within [OF Inr], of since snap analysis_policy_default]
    planning_query_policy_within [OF Inr] show ?thesis
    by (auto simp: plan_api_def split: sum.splits)
next
  case (Inl e)
  then have "\<forall>m. e \<noteq> PlanningFailed m"
    by (cases "parse_query ''planning'' assign_planning planning_query_default raw") (auto simp: planning_query_parse_def)
  with Inl show ?thesis by (auto simp: plan_api_def split: sum.splits)
qed

lemma explorer_api_outcome:
  "(\<exists>e. explorer_api ct_eq uuid_str since p h raw snap = Inl e \<and> (\<forall>m. e \<noteq> ProjectionFailed m)) \<or>
   (\<exists>x. explorer_api ct_eq uuid_str since p h raw snap = Inr x \<and> explorer_policy_within (ExplorerSnapshot.policy x))"
proof (cases "explorer_query_parse raw")
  case (Inr q)
  with explorer_within_succeeds [OF explorer_query_policy_within [OF Inr], of uuid_str since snap]
    explorer_query_policy_within [OF Inr] show ?thesis
    by (auto simp: explorer_api_def split: sum.splits)
next
  case (Inl e)
  then have "\<forall>m. e \<noteq> ProjectionFailed m"
    by (cases "parse_query ''explorer'' assign_explorer explorer_query_default raw") (auto simp: explorer_query_parse_def)
  with Inl show ?thesis by (auto simp: explorer_api_def split: sum.splits)
qed

lemma timeline_api_outcome:
  assumes "timeline_query_parse parse_str timestamp_opt raw = Inr q" and "authorize_read ct_eq p (bearer_token h) = Inr ()"
  shows "case timeline_api ct_eq simple parse_str timestamp_opt p h raw snap of
      Inr page \<Rightarrow> TimelineQuery.cursor q = None \<or>
        map_option TimelineCursor.revision (TimelineQuery.cursor q) = Some (Snapshot.revision snap)
    | Inl e \<Rightarrow> \<exists>k. TimelineQuery.cursor q = Some k \<and> TimelineCursor.revision k \<noteq> Snapshot.revision snap \<and>
        e = TimelineConflict (TimelineCursor.revision k) (Snapshot.revision snap)"
  using timeline_query_policy_within [OF assms(1)] assms
  by (cases "TimelineQuery.cursor q")
    (auto simp: timeline_api_def build_timeline_page_def validate_timeline_policy_def MAX_TIMELINE_PAGE_LIMIT_def)

text \<open>
  C24. The read APIs answer every query with data or with an error of the client: an authorized call
  of the coordination or explorer API whose query parses always succeeds, with limits within the
  bounds of the API, so that the internal errors of these APIs never occur; and an authorized timeline
  call whose query parses fails only for a cursor of another revision.
\<close>
theorem read_apis_never_fail_internally:
  "(\<forall>m. plan_api ct_eq since p h raw snap \<noteq> Inl (PlanningFailed m)) \<and>
   (\<forall>plan. plan_api ct_eq since p h raw snap = Inr plan \<longrightarrow> planning_policy_within (CoordinationPlan.planning_policy plan)) \<and>
   (\<forall>m. explorer_api ct_eq uuid_str since p h raw snap \<noteq> Inl (ProjectionFailed m)) \<and>
   (\<forall>x. explorer_api ct_eq uuid_str since p h raw snap = Inr x \<longrightarrow> explorer_policy_within (ExplorerSnapshot.policy x)) \<and>
   (\<forall>q. timeline_query_parse parse_str timestamp_opt raw = Inr q \<and> authorize_read ct_eq p (bearer_token h) = Inr () \<longrightarrow>
      (case timeline_api ct_eq simple parse_str timestamp_opt p h raw snap of
         Inr page \<Rightarrow> TimelineQuery.cursor q = None \<or>
           map_option TimelineCursor.revision (TimelineQuery.cursor q) = Some (Snapshot.revision snap)
       | Inl e \<Rightarrow> \<exists>k. TimelineQuery.cursor q = Some k \<and> TimelineCursor.revision k \<noteq> Snapshot.revision snap \<and>
           e = TimelineConflict (TimelineCursor.revision k) (Snapshot.revision snap)))"
  using plan_api_outcome [of ct_eq since p h raw snap] explorer_api_outcome [of ct_eq uuid_str since p h raw snap]
    timeline_api_outcome by auto

theorem read_apis_never_fail_internally_witness:
  "\<forall>snap. \<exists>page. timeline_api (=) (\<lambda>_. []) (\<lambda>_. None) (\<lambda>_ _. None) \<lparr>AuthPolicy.token = None, protect_reads = False\<rparr> None
     (Some ''limit=7'') snap = Inr page"
proof
  fix snap
  let ?p = "\<lparr>AuthPolicy.token = None, protect_reads = False\<rparr>"
  have "timeline_query_parse (\<lambda>_. None) (\<lambda>_ _. None) (Some ''limit=7'') = Inr \<lparr>TimelineQuery.limit = Some 7, cursor = None\<rparr>"
    by code_simp
  moreover have "authorize_read (=) ?p (bearer_token None) = Inr ()" by (simp add: authorize_read_def ok_def)
  ultimately have "case timeline_api (=) (\<lambda>_. []) (\<lambda>_. None) (\<lambda>_ _. None) ?p None (Some ''limit=7'') snap of
      Inr page \<Rightarrow> True | Inl e \<Rightarrow> False"
    using read_apis_never_fail_internally [of "(=)" _ ?p None "Some ''limit=7''" snap _ "\<lambda>_. None" "\<lambda>_ _. None" "\<lambda>_. []",
        THEN conjunct2, THEN conjunct2, THEN conjunct2, THEN conjunct2, rule_format]
    by (fastforce split: sum.splits)
  then show "\<exists>page. timeline_api (=) (\<lambda>_. []) (\<lambda>_. None) (\<lambda>_ _. None) ?p None (Some ''limit=7'') snap = Inr page"
    by (simp split: sum.splits)
qed

section \<open>The runtime API\<close>

text \<open>
  The runtime API changes the monitor only for a caller with the token, and only as its state
  machine allows. With a token configured and another one presented, every handler answers
  Unauthorized and leaves the monitor as it is; whoever calls, each handler leaves the state as it is
  or takes it one step of the state machine further, and never changes the configuration.
\<close>
theorem runtime_api_is_guarded:
  assumes fresh: "new_v4 \<notin> ControlCommand.command_id ` set (commands (RuntimeMonitor.state m))"
  shows "(constant_time_eq ct_eq \<and> AuthPolicy.token p = Some secret \<and> bearer_token h \<noteq> Some secret \<longrightarrow>
      api_ingest_hook ct_eq p h hook m = (Inl RuntimeUnauthorized, m) \<and>
      api_set_collection ct_eq p h flag m = (Inl RuntimeUnauthorized, m) \<and>
      api_enqueue_command ct_eq new_v4 now p h request m = (Inl RuntimeUnauthorized, m) \<and>
      api_pending_commands ct_eq p h poll m = (Inl RuntimeUnauthorized, m) \<and>
      api_acknowledge_command ct_eq now p h ack m = (Inl RuntimeUnauthorized, m)) \<and>
    (\<forall>m'. m' \<in> {snd (api_ingest_hook ct_eq p h hook m), snd (api_set_collection ct_eq p h flag m),
        snd (api_enqueue_command ct_eq new_v4 now p h request m), snd (api_pending_commands ct_eq p h poll m),
        snd (api_acknowledge_command ct_eq now p h ack m)} \<longrightarrow>
      RuntimeMonitor.config m' = RuntimeMonitor.config m \<and>
      (RuntimeMonitor.state m' = RuntimeMonitor.state m \<or>
       runtime_step (RuntimeMonitor.config m) (RuntimeMonitor.state m) (RuntimeMonitor.state m')))"
proof (intro conjI)
  show "constant_time_eq ct_eq \<and> AuthPolicy.token p = Some secret \<and> bearer_token h \<noteq> Some secret \<longrightarrow>
      api_ingest_hook ct_eq p h hook m = (Inl RuntimeUnauthorized, m) \<and>
      api_set_collection ct_eq p h flag m = (Inl RuntimeUnauthorized, m) \<and>
      api_enqueue_command ct_eq new_v4 now p h request m = (Inl RuntimeUnauthorized, m) \<and>
      api_pending_commands ct_eq p h poll m = (Inl RuntimeUnauthorized, m) \<and>
      api_acknowledge_command ct_eq now p h ack m = (Inl RuntimeUnauthorized, m)"
    by (simp add: api_ingest_hook_def api_set_collection_def api_enqueue_command_def api_pending_commands_def
        api_acknowledge_command_def runtime_guarded_def constant_time_eq.authorize_ingest_refused)
next
  let ?c = "RuntimeMonitor.config m" and ?s = "RuntimeMonitor.state m"
  have steps: "runtime_step ?c ?s (snd (ingest_hook ?c x ?s))" "runtime_step ?c ?s (snd (enqueue_command ?c new_v4 now q ?s))"
    "runtime_step ?c ?s (snd (acknowledge_command now a ?s))" for x q a
    using fresh by (auto intro: runtime_step.intros)
  show "\<forall>m'. m' \<in> {snd (api_ingest_hook ct_eq p h hook m), snd (api_set_collection ct_eq p h flag m),
        snd (api_enqueue_command ct_eq new_v4 now p h request m), snd (api_pending_commands ct_eq p h poll m),
        snd (api_acknowledge_command ct_eq now p h ack m)} \<longrightarrow>
      RuntimeMonitor.config m' = ?c \<and> (RuntimeMonitor.state m' = ?s \<or> runtime_step ?c ?s (RuntimeMonitor.state m'))"
    using steps
    by (auto simp: api_ingest_hook_def api_set_collection_def api_enqueue_command_def api_pending_commands_def
        api_acknowledge_command_def runtime_guarded_def set_collection_enabled_def prod.case_eq_if split: sum.splits)
qed

theorem runtime_api_is_guarded_witness:
  "api_set_collection (\<lambda>a b. list_all2 (=) a b) \<lparr>AuthPolicy.token = Some ''secret'', protect_reads = False\<rparr> None (Inr False)
     (runtime_new (runtime_config_from_env (\<lambda>_. None))) =
   (Inl RuntimeUnauthorized, runtime_new (runtime_config_from_env (\<lambda>_. None)))"
proof -
  let ?m = "runtime_new (runtime_config_from_env (\<lambda>_. None))"
  have "(9 :: Uuid) \<notin> ControlCommand.command_id ` set (commands (RuntimeMonitor.state ?m))"
    by (simp add: runtime_new_def)
  from runtime_api_is_guarded [OF this, THEN conjunct1, rule_format,
      of "\<lambda>a b. list_all2 (=) a b" "\<lparr>AuthPolicy.token = Some ''secret'', protect_reads = False\<rparr>" "''secret''" None]
  show ?thesis using byte_eq.constant_time_eq_axioms by (simp add: bearer_token_def)
qed

end
