(* ===== verification/Client.thy ===== *)
theory Client
  imports Ingress
begin

text \<open>
  The embedded event client, \<open>src/client.rs\<close>: its configuration rules, the four ways it sends an
  event, and the checks on the answer.

  The network and the JSON codec are third-party code and appear as arguments. A network operation
  under the client's time limit yields \<open>None\<close> when the limit passes, and otherwise the error
  of the operation as its text or its result. The record \<open>Network\<close> holds these operations; what the
  peer answers may depend on what it was sent. \<open>Codec\<close> holds the encodings and decodings of
  \<open>serde_json\<close>. \<open>parse_uri\<close>, \<open>into_client_request\<close> and \<open>header_value\<close> are those of \<open>http\<close> and
  \<open>tungstenite\<close>. Each operation yields the byte strings it handed to the network, in order, and its
  result; the pong that answers a ping of the peer echoes the ping and is not listed.
\<close>

section \<open>Types\<close>

definition DEFAULT_TIMEOUT :: nat where "DEFAULT_TIMEOUT = 10 * 10 ^ 9"
definition DEFAULT_MAX_RESPONSE_BYTES :: nat where "DEFAULT_MAX_RESPONSE_BYTES = 256 * 1024"
definition MAX_CLIENT_RESPONSE_BYTES :: nat where "MAX_CLIENT_RESPONSE_BYTES = 16 * 1024 * 1024"
definition MAX_HTTP_HEADER_BYTES :: nat where "MAX_HTTP_HEADER_BYTES = 16 * 1024"
definition CLIENT_UDP_DATAGRAM_BYTES :: nat where "CLIENT_UDP_DATAGRAM_BYTES = 65507"

datatype ClientTransport =
    HttpTo string
  | WebSocketTo string
  | TcpTo SocketAddr
  | UdpTo SocketAddr

fun protocol_transport :: "ClientTransport \<Rightarrow> Transport" where
  "protocol_transport (HttpTo _) = Http"
| "protocol_transport (WebSocketTo _) = WebSocket"
| "protocol_transport (TcpTo _) = Tcp"
| "protocol_transport (UdpTo _) = Udp"

text \<open>A duration is its number of nanoseconds.\<close>

record ClientConfig =
  transport :: ClientTransport
  token :: "string option"
  timeout :: nat
  max_response_bytes :: nat

definition client_config_new :: "ClientTransport \<Rightarrow> string option \<Rightarrow> ClientConfig" where
  "client_config_new to tok =
     \<lparr>ClientConfig.transport = to, token = tok, timeout = DEFAULT_TIMEOUT, max_response_bytes = DEFAULT_MAX_RESPONSE_BYTES\<rparr>"

definition with_timeout :: "nat \<Rightarrow> ClientConfig \<Rightarrow> ClientConfig" where
  "with_timeout t c = c\<lparr>timeout := t\<rparr>"

definition with_max_response_bytes :: "nat \<Rightarrow> ClientConfig \<Rightarrow> ClientConfig" where
  "with_max_response_bytes n c = c\<lparr>max_response_bytes := n\<rparr>"

datatype ClientError =
    InvalidConfig string
  | InvalidEndpoint string
  | InvalidClientEvent ValidationError
  | Timeout
  | ConnectionClosed
  | RemoteRejected string string
  | HttpStatus nat
  | ResponseTooLarge nat
  | InvalidResponse string
  | UnexpectedAcknowledgement string
  | UdpPolicy string
  | WebSocketFailed string
  | Framing string
  | Io string
  | Json string

record RemoteError =
  error :: string
  message :: "string option"

record Codec =
  encode_event :: "EventEnvelope \<Rightarrow> string + string"
  encode_frame :: "TransportFrame \<Rightarrow> string + string"
  ack_from_slice :: "string \<Rightarrow> string + IngestAck"
  remote_from_slice :: "string \<Rightarrow> RemoteError option"

text \<open>The authority and the other parts of a parsed URI, and what the client keeps of them.\<close>

record Authority =
  as_str :: string
  host :: string
  port_u16 :: "nat option"

record Uri =
  scheme_str :: "string option"
  authority :: "Authority option"
  path_and_query :: "string option"

record HttpEndpoint =
  connect_address :: string
  host_header :: string
  path :: string

section \<open>Operations under the time limit\<close>

type_synonym 'x timed_result = "(string + 'x) option"

definition timed :: "'x option \<Rightarrow> ClientError + 'x" where
  "timed r = (case r of None \<Rightarrow> Inl Timeout | Some x \<Rightarrow> Inr x)"

definition timed_err :: "(string \<Rightarrow> ClientError) \<Rightarrow> 'x timed_result \<Rightarrow> ClientError + 'x" where
  "timed_err wrap r = (case timed r of Inl err \<Rightarrow> Inl err | Inr (Inl text) \<Rightarrow> Inl (wrap text) | Inr (Inr x) \<Rightarrow> Inr x)"

datatype ws_frame = TextFrame string | BinaryFrame string | PingFrame string | PongFrame string | RawFrame | CloseFrame

text \<open>
  What the WebSocket delivers: the end of the stream, an error, or a message together with the
  outcome of sending a pong, which matters for a ping only.
\<close>

datatype ws_arrival = WsClosed | WsError string | WsMessage ws_frame "unit timed_result"

record Network =
  http_connect :: "string \<Rightarrow> unit timed_result"
  http_write :: "string \<Rightarrow> unit timed_result"
  http_flush :: "unit timed_result"
  http_answer :: "string \<Rightarrow> string \<Rightarrow> string timed_result"
  ws_connect :: "string \<Rightarrow> string option \<Rightarrow> unit timed_result"
  ws_send :: "string \<Rightarrow> unit timed_result"
  ws_arrivals :: "string \<Rightarrow> ws_arrival list"
  tcp_connect :: "SocketAddr \<Rightarrow> unit timed_result"
  tcp_nodelay :: "string + unit"
  tcp_send :: "string \<Rightarrow> unit timed_result"
  tcp_next :: "string \<Rightarrow> (string + string) option option"
  udp_bind :: "SocketAddr \<Rightarrow> string + unit"
  udp_send_to :: "string \<Rightarrow> SocketAddr \<Rightarrow> unit timed_result"
  udp_recv_from :: "string \<Rightarrow> (string \<times> SocketAddr) timed_result"

text \<open>Computations that write to the network and may stop early, as the question-mark operator does.\<close>

type_synonym 'x client = "string list \<times> (ClientError + 'x)"

definition attempt :: "ClientError + 'x \<Rightarrow> 'x client" where
  "attempt r = ([], r)"

definition emit :: "string \<Rightarrow> ClientError + 'x \<Rightarrow> 'x client" where
  "emit written r = ([written], r)"

definition and_then :: "'x client \<Rightarrow> ('x \<Rightarrow> 'y client) \<Rightarrow> 'y client" where
  "and_then m f =
     (case snd m of
        Inl err \<Rightarrow> (fst m, Inl err)
      | Inr x \<Rightarrow> (fst m @ fst (f x), snd (f x)))"

section \<open>Endpoints and configuration\<close>

definition parse_http_endpoint :: "(string \<Rightarrow> string + Uri) \<Rightarrow> string \<Rightarrow> ClientError + HttpEndpoint" where
  "parse_http_endpoint parse_uri endpoint =
     (case parse_uri endpoint of
        Inl err \<Rightarrow> Inl (InvalidEndpoint err)
      | Inr uri \<Rightarrow>
          if scheme_str uri \<noteq> Some ''http'' then
            Inl (InvalidEndpoint ''embedded HTTP client currently requires http://; use a local TLS terminator for https://'')
          else (case authority uri of
              None \<Rightarrow> Inl (InvalidEndpoint ''HTTP endpoint has no authority'')
            | Some a \<Rightarrow>
                if host a = [] then Inl (InvalidEndpoint ''HTTP endpoint has no host'')
                else
                  let port = (case port_u16 a of None \<Rightarrow> 80 | Some p \<Rightarrow> p) in
                  Inr \<lparr>connect_address =
                         (if CHR '':'' \<in> set (host a) then ''['' @ host a @ '']:'' @ dec_nat port
                          else host a @ '':'' @ dec_nat port),
                       host_header = as_str a,
                       path = (case path_and_query uri of None \<Rightarrow> ''/'' | Some t \<Rightarrow> t)\<rparr>))"

definition token_is_bad :: "string option \<Rightarrow> bool" where
  "token_is_bad tok = (case tok of None \<Rightarrow> False | Some t \<Rightarrow> t = [] \<or> list_ex is_ascii_whitespace t)"

definition client_validate ::
  "(string \<Rightarrow> string + Uri) \<Rightarrow> (string \<Rightarrow> string + unit) \<Rightarrow> ClientConfig \<Rightarrow> ClientError check" where
  "client_validate parse_uri into_client_request c =
     (if timeout c = 0 then Inl (InvalidConfig ''timeout must be greater than zero'')
      else if max_response_bytes c = 0 \<or> max_response_bytes c > MAX_CLIENT_RESPONSE_BYTES then
        Inl (InvalidConfig ''maximum response bytes must be between 1 and 16777216'')
      else if token_is_bad (ClientConfig.token c) then
        Inl (InvalidConfig ''authentication tokens must be non-empty and contain no whitespace'')
      else (case ClientConfig.transport c of
          HttpTo endpoint \<Rightarrow>
            (case parse_http_endpoint parse_uri endpoint of
               Inl err \<Rightarrow> Inl err
             | Inr ep \<Rightarrow>
                 if path ep = [] then Inl (InvalidEndpoint ''HTTP endpoint must include an ingestion path'') else ok)
        | WebSocketTo endpoint \<Rightarrow>
            if \<not> str_starts_with endpoint ''ws://'' then
              Inl (InvalidEndpoint ''embedded WebSocket client currently requires a ws:// endpoint; use a local TLS terminator for wss://'')
            else (case into_client_request endpoint of Inl err \<Rightarrow> Inl (InvalidEndpoint err) | Inr _ \<Rightarrow> ok)
        | TcpTo _ \<Rightarrow> ok
        | UdpTo _ \<Rightarrow> ok))"

text \<open>An \<open>EventClient\<close> is its validated configuration.\<close>

definition event_client_new ::
  "(string \<Rightarrow> string + Uri) \<Rightarrow> (string \<Rightarrow> string + unit) \<Rightarrow> ClientConfig \<Rightarrow> ClientError + ClientConfig" where
  "event_client_new parse_uri into_client_request c =
     (case client_validate parse_uri into_client_request c of Inl err \<Rightarrow> Inl err | Inr _ \<Rightarrow> Inr c)"

section \<open>Answers\<close>

definition ensure_response_size :: "nat \<Rightarrow> nat \<Rightarrow> ClientError check" where
  "ensure_response_size size_read maximum = (if size_read > maximum then Inl (ResponseTooLarge maximum) else ok)"

definition validate_ack :: "IngestAck \<Rightarrow> EventEnvelope \<Rightarrow> Transport \<Rightarrow> ClientError check" where
  "validate_ack ack ev expected =
     (if \<not> IngestAck.accepted ack then Inl (UnexpectedAcknowledgement ''server returned accepted=false'')
      else if IngestAck.event_id ack \<noteq> EventEnvelope.event_id ev then
        Inl (UnexpectedAcknowledgement ''event ID did not match the submitted event'')
      else if IngestAck.transport ack \<noteq> expected then
        Inl (UnexpectedAcknowledgement
          (''transport was '' @ transport_as_str (IngestAck.transport ack) @ '', expected '' @ transport_as_str expected))
      else ok)"

definition remote_rejection :: "RemoteError \<Rightarrow> ClientError" where
  "remote_rejection r =
     RemoteRejected (error r) (case message r of None \<Rightarrow> ''request rejected'' | Some m \<Rightarrow> m)"

definition decode_ack :: "Codec \<Rightarrow> string \<Rightarrow> ClientError + IngestAck" where
  "decode_ack C data =
     (case ack_from_slice C data of
        Inr ack \<Rightarrow> Inr ack
      | Inl err \<Rightarrow>
          (case remote_from_slice C data of
             Some remote \<Rightarrow> Inl (remote_rejection remote)
           | None \<Rightarrow> Inl (InvalidResponse err)))"

definition decode_remote_error :: "Codec \<Rightarrow> string \<Rightarrow> nat option \<Rightarrow> ClientError" where
  "decode_remote_error C data http_code =
     (case remote_from_slice C data of
        Some remote \<Rightarrow> remote_rejection remote
      | None \<Rightarrow>
          (case http_code of
             Some s \<Rightarrow> HttpStatus s
           | None \<Rightarrow> InvalidResponse ''remote error was not valid JSON''))"

text \<open>\<open>windows(n).position(..)\<close>: the index of the first window equal to the needle.\<close>

fun find_subsequence :: "'c list \<Rightarrow> 'c list \<Rightarrow> nat option" where
  "find_subsequence haystack needle =
     (if length haystack < length needle then None
      else if take (length needle) haystack = needle then Some 0
      else (case haystack of
          [] \<Rightarrow> None
        | _ # rest \<Rightarrow> map_option Suc (find_subsequence rest needle)))"

declare find_subsequence.simps [simp del]

definition crlf :: string where
  "crlf = [char_of (13 :: int), char_of (10 :: int)]"

section \<open>HTTP\<close>

definition http_request_head :: "HttpEndpoint \<Rightarrow> string option \<Rightarrow> nat \<Rightarrow> string" where
  "http_request_head ep tok body_len =
     ''POST '' @ path ep @ '' HTTP/1.1'' @ crlf @
     ''Host: '' @ host_header ep @ crlf @
     ''Content-Type: application/json'' @ crlf @
     ''Accept: application/json'' @ crlf @
     ''Connection: close'' @ crlf @
     ''Content-Length: '' @ dec_nat body_len @ crlf @
     (case tok of None \<Rightarrow> [] | Some t \<Rightarrow> ''Authorization: Bearer '' @ t @ crlf) @
     crlf"

definition saturating_usize_add :: "nat \<Rightarrow> nat \<Rightarrow> nat" where
  "saturating_usize_add a b = min (a + b) (2 ^ 64 - 1)"

definition total_limit :: "ClientConfig \<Rightarrow> nat" where
  "total_limit c = saturating_usize_add (saturating_usize_add (max_response_bytes c) MAX_HTTP_HEADER_BYTES) 1"

definition http_status :: "string \<Rightarrow> nat option" where
  "http_status headers =
     (case str_lines headers of
        [] \<Rightarrow> None
      | line # _ \<Rightarrow>
          (case split_whitespace line of
             _ # value # _ \<Rightarrow> parse_uint 16 value
           | _ \<Rightarrow> None))"

definition decode_http_response :: "Codec \<Rightarrow> ClientConfig \<Rightarrow> string \<Rightarrow> ClientError + IngestAck" where
  "decode_http_response C c response =
     (if length response \<ge> total_limit c then Inl (ResponseTooLarge (max_response_bytes c))
      else (case find_subsequence response (crlf @ crlf) of
          None \<Rightarrow> Inl (InvalidResponse ''HTTP headers were incomplete'')
        | Some separator \<Rightarrow>
            if separator > MAX_HTTP_HEADER_BYTES then
              Inl (InvalidResponse ''HTTP response headers exceeded the client limit'')
            else
              let header_bytes = take separator response; body = drop (separator + 4) response in
              if length body > max_response_bytes c then Inl (ResponseTooLarge (max_response_bytes c))
              else if \<not> utf8_valid header_bytes then Inl (InvalidResponse ''HTTP headers were not UTF-8'')
              else (case http_status header_bytes of
                  None \<Rightarrow> Inl (InvalidResponse ''HTTP status line was invalid'')
                | Some http_code \<Rightarrow>
                    if \<not> (200 \<le> http_code \<and> http_code < 300) then Inl (decode_remote_error C body (Some http_code))
                    else decode_ack C body)))"

definition send_http ::
  "(string \<Rightarrow> string + Uri) \<Rightarrow> Codec \<Rightarrow> Network \<Rightarrow> ClientConfig \<Rightarrow> string \<Rightarrow> EventEnvelope \<Rightarrow> IngestAck client" where
  "send_http parse_uri C N c endpoint ev =
     and_then (attempt (parse_http_endpoint parse_uri endpoint)) (\<lambda>ep.
     and_then (attempt (map_sum Json id (encode_event C ev))) (\<lambda>body.
     let request = http_request_head ep (ClientConfig.token c) (length body) in
     and_then (attempt (timed_err Io (http_connect N (connect_address ep)))) (\<lambda>_.
     and_then (emit request (timed_err Io (http_write N request))) (\<lambda>_.
     and_then (emit body (timed_err Io (http_write N body))) (\<lambda>_.
     and_then (attempt (timed_err Io (http_flush N))) (\<lambda>_.
     and_then (attempt (timed_err Io (http_answer N request body))) (\<lambda>response.
     attempt (decode_http_response C c (take (total_limit c) response)))))))))"

section \<open>WebSocket\<close>

text \<open>The loop that waits for the answer; when nothing more arrives, the time limit passes.\<close>

fun ws_receive :: "Codec \<Rightarrow> ClientConfig \<Rightarrow> ws_arrival list \<Rightarrow> IngestAck client" where
  "ws_receive C c [] = attempt (Inl Timeout)"
| "ws_receive C c (WsClosed # _) = attempt (Inl ConnectionClosed)"
| "ws_receive C c (WsError text # _) = attempt (Inl (WebSocketFailed text))"
| "ws_receive C c (WsMessage m pong # rest) =
     (case m of
        TextFrame data \<Rightarrow>
          and_then (attempt (ensure_response_size (length data) (max_response_bytes c))) (\<lambda>_. attempt (decode_ack C data))
      | BinaryFrame data \<Rightarrow>
          and_then (attempt (ensure_response_size (length data) (max_response_bytes c))) (\<lambda>_. attempt (decode_ack C data))
      | PingFrame data \<Rightarrow> and_then (attempt (timed_err WebSocketFailed pong)) (\<lambda>_. ws_receive C c rest)
      | PongFrame _ \<Rightarrow> ws_receive C c rest
      | RawFrame \<Rightarrow> ws_receive C c rest
      | CloseFrame \<Rightarrow> attempt (Inl ConnectionClosed))"

definition authorization_value :: "string \<Rightarrow> string" where
  "authorization_value t = ''Bearer '' @ t"

definition ws_authorization :: "(string \<Rightarrow> bool) \<Rightarrow> string option \<Rightarrow> ClientError + string option" where
  "ws_authorization header_value tok =
     (case tok of
        None \<Rightarrow> Inr None
      | Some t \<Rightarrow>
          if header_value (authorization_value t) then Inr (Some (authorization_value t))
          else Inl (InvalidConfig ''authentication token is not a valid header value''))"

definition send_websocket ::
  "(string \<Rightarrow> string + unit) \<Rightarrow> (string \<Rightarrow> bool) \<Rightarrow> Codec \<Rightarrow> Network \<Rightarrow> ClientConfig \<Rightarrow> string \<Rightarrow> EventEnvelope \<Rightarrow>
   IngestAck client" where
  "send_websocket into_client_request header_value C N c endpoint ev =
     and_then (attempt (map_sum InvalidEndpoint id (into_client_request endpoint))) (\<lambda>_.
     and_then (attempt (ws_authorization header_value (ClientConfig.token c))) (\<lambda>auth.
     and_then (attempt (timed_err WebSocketFailed (ws_connect N endpoint auth))) (\<lambda>_.
     and_then (attempt (map_sum Json id (encode_event C ev))) (\<lambda>payload.
     and_then (emit payload (timed_err WebSocketFailed (ws_send N payload))) (\<lambda>_.
     ws_receive C c (ws_arrivals N payload))))))"

section \<open>TCP and UDP\<close>

definition client_frame :: "ClientConfig \<Rightarrow> EventEnvelope \<Rightarrow> TransportFrame" where
  "client_frame c ev = \<lparr>TransportFrame.token = ClientConfig.token c, event = ev\<rparr>"

definition send_tcp :: "Codec \<Rightarrow> Network \<Rightarrow> ClientConfig \<Rightarrow> SocketAddr \<Rightarrow> EventEnvelope \<Rightarrow> IngestAck client" where
  "send_tcp C N c address ev =
     and_then (attempt (timed_err Io (tcp_connect N address))) (\<lambda>_.
     and_then (attempt (map_sum Io id (tcp_nodelay N))) (\<lambda>_.
     and_then (attempt (map_sum Json id (encode_frame C (client_frame c ev)))) (\<lambda>payload.
     and_then (emit payload (timed_err Framing (tcp_send N payload))) (\<lambda>_.
     and_then (attempt (timed (tcp_next N payload))) (\<lambda>arrival.
     attempt
       (case arrival of
          None \<Rightarrow> Inl ConnectionClosed
        | Some (Inl text) \<Rightarrow> Inl (Framing text)
        | Some (Inr response) \<Rightarrow> decode_ack C response))))))"

definition unspecified_like :: "SocketAddr \<Rightarrow> SocketAddr" where
  "unspecified_like address =
     (case SocketAddr.ip address of
        V4 _ _ _ _ \<Rightarrow> \<lparr>ip = V4 0 0 0 0, port = 0\<rparr>
      | V6 _ \<Rightarrow> \<lparr>ip = V6 0, port = 0\<rparr>)"

definition send_udp :: "Codec \<Rightarrow> Network \<Rightarrow> ClientConfig \<Rightarrow> SocketAddr \<Rightarrow> EventEnvelope \<Rightarrow> IngestAck client" where
  "send_udp C N c address ev =
     (if \<not> allowed_over_udp (EventEnvelope.event ev) then
        attempt (Inl (UdpPolicy (event_kind (EventEnvelope.event ev))))
      else
        and_then (attempt (map_sum Io id (udp_bind N (unspecified_like address)))) (\<lambda>_.
        and_then (attempt (map_sum Json id (encode_frame C (client_frame c ev)))) (\<lambda>payload.
        if length payload > CLIENT_UDP_DATAGRAM_BYTES then
          attempt (Inl (InvalidConfig ''serialized UDP event exceeds the protocol datagram ceiling''))
        else
          and_then (emit payload (timed_err Io (udp_send_to N payload address))) (\<lambda>_.
          and_then (attempt (timed_err Io (udp_recv_from N payload))) (\<lambda>(datagram, peer).
          attempt
            (if peer \<noteq> address then Inl (InvalidResponse ''UDP acknowledgement came from an unexpected peer'')
             else decode_ack C (take (min (max_response_bytes c) CLIENT_UDP_DATAGRAM_BYTES) datagram)))))))"

section \<open>Sending\<close>

definition client_dispatch ::
  "(string \<Rightarrow> string + Uri) \<Rightarrow> (string \<Rightarrow> string + unit) \<Rightarrow> (string \<Rightarrow> bool) \<Rightarrow> Codec \<Rightarrow> Network \<Rightarrow> ClientConfig \<Rightarrow>
   EventEnvelope \<Rightarrow> IngestAck client" where
  "client_dispatch parse_uri into_client_request header_value C N c ev =
     (case ClientConfig.transport c of
        HttpTo endpoint \<Rightarrow> send_http parse_uri C N c endpoint ev
      | WebSocketTo endpoint \<Rightarrow> send_websocket into_client_request header_value C N c endpoint ev
      | TcpTo address \<Rightarrow> send_tcp C N c address ev
      | UdpTo address \<Rightarrow> send_udp C N c address ev)"

definition client_send ::
  "(string \<Rightarrow> string + Uri) \<Rightarrow> (string \<Rightarrow> string + unit) \<Rightarrow> (string \<Rightarrow> bool) \<Rightarrow> Codec \<Rightarrow> Network \<Rightarrow> ClientConfig \<Rightarrow>
   EventEnvelope \<Rightarrow> IngestAck client" where
  "client_send parse_uri into_client_request header_value C N c ev =
     and_then (attempt (map_sum InvalidClientEvent id (validate_envelope ev))) (\<lambda>_.
     and_then (client_dispatch parse_uri into_client_request header_value C N c ev) (\<lambda>ack.
     and_then (attempt (validate_ack ack ev (protocol_transport (ClientConfig.transport c)))) (\<lambda>_.
     attempt (Inr ack))))"

end
