(* ===== verification/Decimal.thy ===== *)
theory Decimal
  imports Ingress
begin

text \<open>
  Decimal numbers and fields of text: a number that was written in decimal is read back, and fields
  of visible characters are separated at spaces. Used for status lines and query strings.
\<close>

lemma digit_cases: "0 \<le> d \<Longrightarrow> d < 10 \<Longrightarrow> d \<in> {0, 1, 2, 3, 4, 5, 6, 7, 8, 9 :: int}"
  by simp presburger

lemma of_char_nat: "(of_char c :: nat) = nat (of_char c :: int)"
  by (metis nat_int of_nat_of_char)

lemma dec_value_digit: "0 \<le> d \<Longrightarrow> d < 10 \<Longrightarrow> dec_value (char_of (48 + d :: int)) = Some (nat d)"
proof -
  assume "0 \<le> d" "d < 10"
  then have "d \<in> {0, 1, 2, 3, 4, 5, 6, 7, 8, 9}" by (rule digit_cases)
  then show ?thesis by (auto simp: dec_value_def Let_def of_char_nat)
qed

lemma dec_parse_snoc:
  "dec_parse acc (xs @ [c]) =
     (case dec_parse acc xs of None \<Rightarrow> None | Some v \<Rightarrow> (case dec_value c of None \<Rightarrow> None | Some d \<Rightarrow> Some (10 * v + d)))"
  by (induction xs arbitrary: acc) (auto split: option.splits)

lemma dec_parse_digits: "0 \<le> n \<Longrightarrow> dec_parse 0 (dec_digits n) = Some (nat n)"
proof (induction n rule: dec_digits.induct)
  case (1 n)
  show ?case
  proof (cases "n < 10")
    case True
    with 1 show ?thesis by (simp add: dec_digits.simps [of n] dec_value_digit)
  next
    case False
    then have "dec_digits n = dec_digits (n div 10) @ [char_of (48 + n mod 10)]" by (simp add: dec_digits.simps [of n])
    moreover have "dec_parse 0 (dec_digits (n div 10)) = Some (nat (n div 10))" using 1 False by simp
    moreover have "10 * nat (n div 10) + nat (n mod 10) = nat n" using 1(2) by (intro int_int_eq [THEN iffD1]) (simp add: pos_imp_zdiv_nonneg_iff)
    ultimately show ?thesis by (simp add: dec_parse_snoc dec_value_digit)
  qed
qed

definition visible :: "char \<Rightarrow> bool" where
  "visible c \<longleftrightarrow> 33 \<le> (of_char c :: int) \<and> (of_char c :: int) \<le> 126"

lemma visible_digit: "0 \<le> d \<Longrightarrow> d < 10 \<Longrightarrow> visible (char_of (48 + d :: int)) \<and> char_of (48 + d :: int) \<noteq> CHR ''+''"
proof -
  assume "0 \<le> d" "d < 10"
  then have "d \<in> {0, 1, 2, 3, 4, 5, 6, 7, 8, 9}" by (rule digit_cases)
  then show ?thesis by (auto simp: visible_def char_of_eq_iff)
qed

lemma dec_digits_visible: "0 \<le> n \<Longrightarrow> c \<in> set (dec_digits n) \<Longrightarrow> visible c \<and> c \<noteq> CHR ''+''"
proof (induction n arbitrary: c rule: dec_digits.induct)
  case (1 n)
  then show ?case by (auto simp: dec_digits.simps [of n] visible_digit pos_imp_zdiv_nonneg_iff split: if_splits)
qed

lemma dec_digits_not_Nil [simp]: "dec_digits n \<noteq> []"
  by (subst dec_digits.simps) simp

lemma parse_uint_dec_nat: "n < 2 ^ w \<Longrightarrow> parse_uint w (dec_nat n) = Some n"
  using dec_digits_visible [of "int n" "hd (dec_digits (int n))"]
  by (simp add: parse_uint_def dec_nat_def Let_def dec_parse_digits)

lemma ws_len_visible: "visible c \<Longrightarrow> ws_len (bytes (c # s)) = 0"
  by (auto simp: ws_len_def bytes_def visible_def split: list.splits)

lemma fields_from_word: "list_all visible w \<Longrightarrow> fields_from 0 cur (w @ rest) = fields_from 0 (rev w @ cur) rest"
  by (induction w arbitrary: cur) (simp_all add: Let_def ws_len_visible)

lemma fields_from_space: "fields_from 0 cur (CHR '' '' # rest) = rev cur # fields_from 0 [] rest"
  by (simp add: Let_def ws_len_def bytes_def)

lemma status_field:
  assumes "list_all visible v" "v \<noteq> []" "list_all visible w" "w \<noteq> []"
  shows "\<exists>fs. split_whitespace (v @ '' '' @ w @ '' '' @ rest) = v # w # fs"
  using fields_from_word [OF assms(1), of "[]" "'' '' @ w @ '' '' @ rest"] fields_from_word [OF assms(3), of "[]" "'' '' @ rest"]
  by (simp add: split_whitespace_def fields_from_space assms(2,4) del: fields_from.simps)

lemma dec_digits_range: "0 \<le> n \<Longrightarrow> c \<in> set (dec_digits n) \<Longrightarrow> 48 \<le> (of_char c :: int) \<and> (of_char c :: int) \<le> 57"
proof (induction n arbitrary: c rule: dec_digits.induct)
  case (1 n)
  have digit: "48 \<le> (of_char (char_of (48 + d :: int)) :: int) \<and> (of_char (char_of (48 + d :: int)) :: int) \<le> 57" if "0 \<le> d" "d < 10" for d
    using that by simp
  from 1 digit [of n] digit [of "n mod 10"] show ?case
    by (auto simp: dec_digits.simps [of n] pos_imp_zdiv_nonneg_iff split: if_splits)
qed

lemma dec_nat_no_char: "\<not> (48 \<le> (of_char c :: int) \<and> (of_char c :: int) \<le> 57) \<Longrightarrow> c \<notin> set (dec_nat n)"
  using dec_digits_range [of "int n" c] by (auto simp: dec_nat_def)

end
