(* ===== verification/ClientSpec.thy ===== *)
theory ClientSpec
  imports Client IngressSpec Decimal
begin

text \<open>
  The properties of the client: what a successful send guarantees, how HTTP answers are read, and
  the delivery of an event from the client through a transport into the store.
\<close>

section \<open>Computations that write to the network\<close>

lemma and_then_simps [simp]:
  "and_then (attempt (Inl err)) f = ([], Inl err)"
  "and_then (attempt (Inr x)) f = f x"
  "and_then (emit w (Inl err)) f = ([w], Inl err)"
  "and_then (emit w (Inr x)) f = (w # fst (f x), snd (f x))"
  by (simp_all add: and_then_def attempt_def emit_def)

lemma and_then_Inr:
  "and_then m f = (sent, Inr y) \<longleftrightarrow>
     (\<exists>x before after. m = (before, Inr x) \<and> f x = (after, Inr y) \<and> sent = before @ after)"
  by (cases m) (auto simp: and_then_def prod_eq_iff split: sum.splits)

lemma attempt_Inr [simp]: "attempt r = (sent, Inr x) \<longleftrightarrow> sent = [] \<and> r = Inr x"
  by (auto simp: attempt_def)

lemma emit_Inr [simp]: "emit w r = (sent, Inr x) \<longleftrightarrow> sent = [w] \<and> r = Inr x"
  by (auto simp: emit_def)

lemma attempt_sel [simp]: "fst (attempt r) = []" "snd (attempt r) = r"
  by (simp_all add: attempt_def)

lemma timed_err_simps [simp]:
  "timed_err wrap None = Inl Timeout" "timed_err wrap (Some (Inl text)) = Inl (wrap text)" "timed_err wrap (Some (Inr x)) = Inr x"
  by (simp_all add: timed_err_def timed_def)

lemma timed_simps [simp]: "timed None = Inl Timeout" "timed (Some x) = Inr x"
  by (simp_all add: timed_def)

lemma map_sum_Inr_iff: "map_sum f id r = Inr x \<longleftrightarrow> r = Inr x"
  by (cases r) simp_all

lemmas client_success = and_then_Inr map_sum_Inr_iff

lemma validate_ack_ok:
  "validate_ack ack ev via = Inr u \<longleftrightarrow>
     IngestAck.accepted ack \<and> IngestAck.event_id ack = EventEnvelope.event_id ev \<and> IngestAck.transport ack = via"
  by (simp add: validate_ack_def ok_def)

section \<open>What a successful send means\<close>

lemma ws_receive_writes_nothing: "fst (ws_receive C c arrivals) = []"
proof (induction arrivals)
  case (Cons a arrivals)
  then show ?case
    by (cases a)
      (auto simp: and_then_def attempt_def split: ws_frame.splits sum.splits)
qed (simp add: attempt_def)

lemma send_http_Inr:
  assumes "send_http parse_uri C N c endpoint ev = (sent, Inr ack)"
  shows "\<exists>ep body. parse_http_endpoint parse_uri endpoint = Inr ep \<and> encode_event C ev = Inr body \<and>
    sent = [http_request_head ep (ClientConfig.token c) (length body), body]"
  using assms by (auto simp: send_http_def client_success Let_def)

lemma send_websocket_Inr:
  assumes "send_websocket into_client_request header_value C N c endpoint ev = (sent, Inr ack)"
  shows "encode_event C ev = Inr (concat sent) \<and> length sent = 1"
proof -
  from assms obtain payload after where "encode_event C ev = Inr payload" "sent = payload # after"
    "ws_receive C c (ws_arrivals N payload) = (after, Inr ack)"
    by (auto simp: send_websocket_def client_success)
  with ws_receive_writes_nothing [of C c "ws_arrivals N payload"] show ?thesis by simp
qed

lemma send_tcp_Inr:
  assumes "send_tcp C N c address ev = (sent, Inr ack)"
  shows "encode_frame C (client_frame c ev) = Inr (concat sent) \<and> length sent = 1"
  using assms by (auto simp: send_tcp_def client_success)

lemma send_udp_Inr:
  assumes "send_udp C N c address ev = (sent, Inr ack)"
  shows "allowed_over_udp (EventEnvelope.event ev) \<and> encode_frame C (client_frame c ev) = Inr (concat sent) \<and>
    length sent = 1 \<and> length (concat sent) \<le> 65507"
  using assms
  by (auto simp: send_udp_def client_success CLIENT_UDP_DATAGRAM_BYTES_def split: if_splits)

text \<open>
  The host of an authority that names an IPv6 address keeps its brackets, so the address the HTTP client connects to
  has two pairs of them, which no resolver accepts.
\<close>

lemma ipv6_endpoint_bracketed_twice:
  assumes "parse_uri endpoint = Inr uri" "scheme_str uri = Some ''http''" "authority uri = Some a"
    and "host a = ''[::1]''" "port_u16 a = Some 8787"
  shows "map_sum id connect_address (parse_http_endpoint parse_uri endpoint) = Inr ''[[::1]]:8787''"
proof -
  have "dec_nat 8787 = ''8787''" by code_simp
  with assms show ?thesis by (simp add: parse_http_endpoint_def)
qed

text \<open>
  C25. A send that reports success has an acknowledgement of exactly this event on exactly this
  transport, and wrote exactly one encoding of it to the network: with HTTP the request head
  and the body, otherwise a single message, which over UDP fits a datagram and carries an event that UDP
  may carry. An event that does not validate is refused without writing anything, and so is an event that
  UDP may not carry.
\<close>
theorem client_send_is_sound:
  fixes parse_uri :: "string \<Rightarrow> string + Uri" and into_client_request :: "string \<Rightarrow> string + unit"
    and header_value :: "string \<Rightarrow> bool" and C :: Codec and N :: Network and c :: ClientConfig
  defines "send \<equiv> client_send parse_uri into_client_request header_value C N c"
  shows "(\<forall>err. validate_envelope ev = Inl err \<longrightarrow> send ev = ([], Inl (InvalidClientEvent err))) \<and>
    (\<forall>address. ClientConfig.transport c = UdpTo address \<and> \<not> allowed_over_udp (EventEnvelope.event ev) \<longrightarrow> fst (send ev) = []) \<and>
    (\<forall>sent ack. send ev = (sent, Inr ack) \<longrightarrow>
      validate_envelope ev = Inr () \<and> IngestAck.accepted ack \<and>
      IngestAck.event_id ack = EventEnvelope.event_id ev \<and>
      IngestAck.transport ack = protocol_transport (ClientConfig.transport c) \<and>
      (case ClientConfig.transport c of
         HttpTo endpoint \<Rightarrow> \<exists>ep body. parse_http_endpoint parse_uri endpoint = Inr ep \<and> encode_event C ev = Inr body \<and>
           sent = [http_request_head ep (ClientConfig.token c) (length body), body]
       | WebSocketTo _ \<Rightarrow> encode_event C ev = Inr (concat sent) \<and> length sent = 1
       | TcpTo _ \<Rightarrow> encode_frame C (client_frame c ev) = Inr (concat sent) \<and> length sent = 1
       | UdpTo _ \<Rightarrow> allowed_over_udp (EventEnvelope.event ev) \<and> encode_frame C (client_frame c ev) = Inr (concat sent) \<and>
           length sent = 1 \<and> length (concat sent) \<le> 65507))"
proof (intro conjI allI impI)
  show "send ev = ([], Inl (InvalidClientEvent err))" if "validate_envelope ev = Inl err" for err
    using that by (simp add: send_def client_send_def)
  show "fst (send ev) = []"
    if "ClientConfig.transport c = UdpTo address \<and> \<not> allowed_over_udp (EventEnvelope.event ev)" for address
    using that
    by (cases "validate_envelope ev") (simp_all add: send_def client_send_def client_dispatch_def send_udp_def)
  fix sent ack assume sent: "send ev = (sent, Inr ack)"
  then have dispatch: "client_dispatch parse_uri into_client_request header_value C N c ev = (sent, Inr ack)"
    and ack: "validate_ack ack ev (protocol_transport (ClientConfig.transport c)) = Inr ()" and "validate_envelope ev = Inr ()"
    by (auto simp: send_def client_send_def client_success)
  then show "validate_envelope ev = Inr ()" "IngestAck.accepted ack" "IngestAck.event_id ack = EventEnvelope.event_id ev"
    "IngestAck.transport ack = protocol_transport (ClientConfig.transport c)"
    by (simp_all add: validate_ack_ok)
  show "case ClientConfig.transport c of
         HttpTo endpoint \<Rightarrow> \<exists>ep body. parse_http_endpoint parse_uri endpoint = Inr ep \<and> encode_event C ev = Inr body \<and>
           sent = [http_request_head ep (ClientConfig.token c) (length body), body]
       | WebSocketTo _ \<Rightarrow> encode_event C ev = Inr (concat sent) \<and> length sent = 1
       | TcpTo _ \<Rightarrow> encode_frame C (client_frame c ev) = Inr (concat sent) \<and> length sent = 1
       | UdpTo _ \<Rightarrow> allowed_over_udp (EventEnvelope.event ev) \<and> encode_frame C (client_frame c ev) = Inr (concat sent) \<and>
           length sent = 1 \<and> length (concat sent) \<le> 65507"
    using dispatch send_http_Inr send_websocket_Inr send_tcp_Inr send_udp_Inr
    by (cases "ClientConfig.transport c") (simp_all add: client_dispatch_def)
qed

section \<open>Reading an HTTP answer\<close>

lemma find_subsequence_Some:
  "find_subsequence h n = Some i \<Longrightarrow> i + length n \<le> length h \<and> take (length n) (drop i h) = n"
proof (induction h arbitrary: i)
  case Nil
  then show ?case by (simp add: find_subsequence.simps [of "[]"] split: if_splits)
next
  case (Cons x h)
  from Cons.prems show ?case
    by (auto simp: find_subsequence.simps [of "x # h"] split: if_splits dest!: Cons.IH)
qed

lemma find_subsequence_first:
  "find_subsequence h n = Some i \<Longrightarrow> j < i \<Longrightarrow> take (length n) (drop j h) \<noteq> n"
proof (induction h arbitrary: i j)
  case Nil
  then show ?case by (simp add: find_subsequence.simps [of "[]"] split: if_splits)
next
  case (Cons x h)
  from Cons.prems obtain k where k: "take (length n) (x # h) \<noteq> n" "find_subsequence h n = Some k" "i = Suc k"
    by (auto simp: find_subsequence.simps [of "x # h"] split: if_splits)
  with Cons.IH [of k] Cons.prems(2) show ?case by (cases j) auto
qed

lemma find_blank_line_skip:
  "char_of (13 :: int) \<notin> set l \<Longrightarrow>
   find_subsequence (l @ rest) (crlf @ crlf) = map_option ((+) (length l)) (find_subsequence rest (crlf @ crlf))"
proof (induction l)
  case Nil
  then show ?case by (cases "find_subsequence rest (crlf @ crlf)") simp_all
next
  case (Cons x l)
  have "find_subsequence rest (crlf @ crlf) = None" if "length rest < 4"
    using that by (simp add: find_subsequence.simps [of rest] crlf_def)
  with Cons show ?case
    by (auto simp: find_subsequence.simps [of "x # l @ rest"] crlf_def option.map_comp comp_def)
qed

lemma find_blank_line_next:
  assumes "x \<noteq> char_of (13 :: int)"
  shows "find_subsequence (crlf @ x # rest) (crlf @ crlf) = map_option (\<lambda>i. Suc (Suc i)) (find_subsequence (x # rest) (crlf @ crlf))"
proof -
  let ?n = "crlf @ crlf"
  have short: "find_subsequence (x # rest) ?n = None" if "length (x # rest) < 4"
    using that by (simp add: find_subsequence.simps [of "x # rest"] crlf_def)
  have "find_subsequence (char_of (10 :: int) # x # rest) ?n = map_option Suc (find_subsequence (x # rest) ?n)"
    using short by (auto simp: find_subsequence.simps [of "char_of (10 :: int) # x # rest"] crlf_def)
  with short assms show ?thesis
    by (auto simp: find_subsequence.simps [of "char_of (13 :: int) # char_of (10 :: int) # x # rest"] crlf_def option.map_comp comp_def)
qed

text \<open>A line of a message head: not empty and without line ends.\<close>

definition head_line :: "string \<Rightarrow> bool" where
  "head_line l \<longleftrightarrow> l \<noteq> [] \<and> char_of (13 :: int) \<notin> set l \<and> char_of (10 :: int) \<notin> set l"

lemma find_blank_line:
  assumes "ls \<noteq> []" and "list_all head_line ls"
  shows "find_subsequence (str_join crlf ls @ crlf @ crlf @ body) (crlf @ crlf) = Some (length (str_join crlf ls))"
  using assms
proof (induction ls)
  case (Cons l ls)
  then have cr: "char_of (13 :: int) \<notin> set l" by (simp add: head_line_def)
  show ?case
  proof (cases ls)
    case Nil
    have "find_subsequence (crlf @ crlf @ body) (crlf @ crlf) = Some 0"
      by (subst find_subsequence.simps) (simp add: crlf_def)
    with find_blank_line_skip [OF cr] Nil show ?thesis by simp
  next
    case (Cons m ms)
    with Cons.prems obtain x xs where "m = x # xs" "x \<noteq> char_of (13 :: int)"
      by (cases m) (auto simp: head_line_def)
    then obtain rest where rest: "str_join crlf ls @ crlf @ crlf @ body = x # rest" "x \<noteq> char_of (13 :: int)"
      using Cons by (cases ms) auto
    have join: "str_join crlf (l # ls) = l @ crlf @ str_join crlf ls" using Cons by simp
    have "find_subsequence (str_join crlf (l # ls) @ crlf @ crlf @ body) (crlf @ crlf) =
        map_option ((+) (length l)) (find_subsequence (crlf @ x # rest) (crlf @ crlf))"
      using find_blank_line_skip [OF cr, of "crlf @ x # rest"] rest(1) by (simp add: join)
    also have "\<dots> = Some (length l + (2 + length (str_join crlf ls)))"
      using find_blank_line_next [OF rest(2), of rest] Cons.IH Cons.prems(2) Cons rest(1) by simp
    also have "\<dots> = Some (length (str_join crlf (l # ls)))"
      by (simp only: join length_append) (simp add: crlf_def)
    finally show ?thesis .
  qed
qed simp

lemma lines_from_line:
  assumes "char_of (10 :: int) \<notin> set l"
  shows "lines_from cur (l @ rest) = lines_from (rev l @ cur) rest"
  using assms by (induction l arbitrary: cur) auto

lemma first_line:
  assumes "head_line l"
  shows "\<exists>ls. str_lines (str_join crlf (l # hs)) = l # ls"
proof (cases hs)
  case Nil
  with assms lines_from_line [of l "[]" "[]"] show ?thesis by (simp add: str_lines_def head_line_def)
next
  case (Cons h hs')
  then have "str_lines (str_join crlf (l # hs)) = lines_from (rev l) (crlf @ str_join crlf hs)"
    using assms lines_from_line [of l "[]" "crlf @ str_join crlf hs"] by (simp add: str_lines_def head_line_def)
  also have "\<dots> = l # lines_from [] (str_join crlf hs)" by (simp add: crlf_def char_of_eq_iff)
  finally show ?thesis by blast
qed

text \<open>A response as a server writes it: the status line, header lines, an empty line and the body.\<close>

definition status_line :: "nat \<Rightarrow> string \<Rightarrow> string" where
  "status_line sc phrase = ''HTTP/1.1 '' @ dec_nat sc @ '' '' @ phrase"

definition http_message :: "nat \<Rightarrow> string \<Rightarrow> string list \<Rightarrow> string \<Rightarrow> string" where
  "http_message sc phrase hs body = str_join crlf (status_line sc phrase # hs) @ crlf @ crlf @ body"

lemma http_status_message:
  assumes "sc < 2 ^ 16" and "head_line (status_line sc phrase)"
  shows "http_status (str_join crlf (status_line sc phrase # hs)) = Some sc"
proof -
  have "list_all visible (dec_nat sc)"
    using dec_digits_visible [of "int sc"] by (auto simp: list_all_iff dec_nat_def)
  moreover have "list_all visible ''HTTP/1.1''" by (simp add: visible_def)
  moreover have "dec_nat sc \<noteq> []" by (simp add: dec_nat_def)
  ultimately obtain fs where "split_whitespace (status_line sc phrase) = ''HTTP/1.1'' # dec_nat sc # fs"
    using status_field [of "''HTTP/1.1''" "dec_nat sc" phrase] by (auto simp: status_line_def)
  with first_line [OF assms(2), of hs] parse_uint_dec_nat [OF assms(1)] show ?thesis
    by (auto simp: http_status_def)
qed

lemma http_message_decoded:
  assumes valid: "max_response_bytes c \<le> MAX_CLIENT_RESPONSE_BYTES"
    and sc: "sc < 2 ^ 16" and ls: "list_all head_line (status_line sc phrase # hs)"
    and utf: "utf8_valid (str_join crlf (status_line sc phrase # hs))"
    and size: "length (str_join crlf (status_line sc phrase # hs)) + 4 \<le> MAX_HTTP_HEADER_BYTES" "length body \<le> max_response_bytes c"
  shows "decode_http_response C c (http_message sc phrase hs body) =
    (if 200 \<le> sc \<and> sc < 300 then decode_ack C body else Inl (decode_remote_error C body (Some sc)))"
proof -
  let ?head = "str_join crlf (status_line sc phrase # hs)"
  have limit: "total_limit c = max_response_bytes c + 16385"
    using valid by (simp add: total_limit_def saturating_usize_add_def MAX_HTTP_HEADER_BYTES_def MAX_CLIENT_RESPONSE_BYTES_def)
  have [simp]: "length crlf = 2" by (simp add: crlf_def)
  have "find_subsequence (http_message sc phrase hs body) (crlf @ crlf) = Some (length ?head)"
    using find_blank_line [OF _ ls, of body] by (simp only: http_message_def) simp
  moreover have "take (length ?head) (http_message sc phrase hs body) = ?head"
    "drop (length ?head + 4) (http_message sc phrase hs body) = body"
    "length (http_message sc phrase hs body) = length ?head + 4 + length body"
    by (simp_all add: http_message_def del: str_join.simps)
  moreover have "http_status ?head = Some sc" using ls by (intro http_status_message sc) simp
  ultimately show ?thesis
    using size utf limit by (simp add: decode_http_response_def Let_def MAX_HTTP_HEADER_BYTES_def del: str_join.simps)
qed

text \<open>
  C26. The client reads HTTP answers as they were written. Of a well-formed response within the limits
  it takes the status and exactly the body, so that a success status yields the acknowledgement in
  the body and every other status an error; and whatever the peer sends, an acknowledgement comes from a body
  after the first empty line, with a head of at most 16384 bytes and a body within the configured
  limit, and nothing longer is accepted.
\<close>
theorem http_answers_are_read_exactly:
  assumes valid: "max_response_bytes c \<le> MAX_CLIENT_RESPONSE_BYTES"
  shows "(\<forall>sc phrase hs body.
      sc < 2 ^ 16 \<and> list_all head_line (status_line sc phrase # hs) \<and>
      utf8_valid (str_join crlf (status_line sc phrase # hs)) \<and>
      length (str_join crlf (status_line sc phrase # hs)) + 4 \<le> MAX_HTTP_HEADER_BYTES \<and> length body \<le> max_response_bytes c \<longrightarrow>
      decode_http_response C c (http_message sc phrase hs body) =
        (if 200 \<le> sc \<and> sc < 300 then decode_ack C body else Inl (decode_remote_error C body (Some sc)))) \<and>
    (\<forall>response ack. decode_http_response C c response = Inr ack \<longrightarrow>
      (\<exists>head body. response = head @ crlf @ crlf @ body \<and> decode_ack C body = Inr ack \<and>
        (\<forall>j < length head. take 4 (drop j response) \<noteq> crlf @ crlf) \<and>
        length head \<le> 16384 \<and> length body \<le> max_response_bytes c \<and>
        (\<exists>sc. http_status head = Some sc \<and> 200 \<le> sc \<and> sc < 300)))"
proof (intro conjI allI impI)
  fix sc phrase hs and body :: string
  assume "sc < 2 ^ 16 \<and> list_all head_line (status_line sc phrase # hs) \<and>
      utf8_valid (str_join crlf (status_line sc phrase # hs)) \<and>
      length (str_join crlf (status_line sc phrase # hs)) + 4 \<le> MAX_HTTP_HEADER_BYTES \<and> length body \<le> max_response_bytes c"
  then show "decode_http_response C c (http_message sc phrase hs body) =
      (if 200 \<le> sc \<and> sc < 300 then decode_ack C body else Inl (decode_remote_error C body (Some sc)))"
    by (intro http_message_decoded [OF valid]) simp_all
next
  fix response ack assume ack: "decode_http_response C c response = Inr ack"
  then obtain i where i: "find_subsequence response (crlf @ crlf) = Some i" "i \<le> 16384"
    "length (drop (i + 4) response) \<le> max_response_bytes c" "decode_ack C (drop (i + 4) response) = Inr ack"
    "\<exists>sc. http_status (take i response) = Some sc \<and> 200 \<le> sc \<and> sc < 300"
    by (auto simp: decode_http_response_def Let_def MAX_HTTP_HEADER_BYTES_def split: if_splits option.splits)
  have "length (crlf @ crlf) = 4" by (simp add: crlf_def)
  with find_subsequence_Some [OF i(1)] have found: "i + 4 \<le> length response" "take 4 (drop i response) = crlf @ crlf" by auto
  have "response = take i response @ take 4 (drop i response) @ drop 4 (drop i response)" by (simp only: append_take_drop_id)
  then have "response = take i response @ crlf @ crlf @ drop (i + 4) response"
    unfolding found(2) by (simp add: add.commute)
  moreover have "\<forall>j < length (take i response). take 4 (drop j response) \<noteq> crlf @ crlf"
    using find_subsequence_first [OF i(1)] \<open>length (crlf @ crlf) = 4\<close> by auto
  ultimately show "\<exists>head body. response = head @ crlf @ crlf @ body \<and> decode_ack C body = Inr ack \<and>
        (\<forall>j < length head. take 4 (drop j response) \<noteq> crlf @ crlf) \<and>
        length head \<le> 16384 \<and> length body \<le> max_response_bytes c \<and>
        (\<exists>sc. http_status head = Some sc \<and> 200 \<le> sc \<and> sc < 300)"
    using i by (intro exI [of _ "take i response"] exI [of _ "drop (i + 4) response"]) simp
qed

lemma demo_http_answer:
  "list_all head_line (status_line 202 ''Accepted'' # [''content-type: application/json''])"
  "utf8_valid (str_join crlf (status_line 202 ''Accepted'' # [''content-type: application/json'']))"
  "length (str_join crlf (status_line 202 ''Accepted'' # [''content-type: application/json''])) + 4 \<le> MAX_HTTP_HEADER_BYTES"
  by code_simp+

definition demo_codec :: "IngestAck \<Rightarrow> Codec" where
  "demo_codec ack = \<lparr>encode_event = (\<lambda>_. Inr ''{}''), encode_frame = (\<lambda>_. Inr ''{}''),
     ack_from_slice = (\<lambda>b. if b = ''ack'' then Inr ack else Inl ''no acknowledgement''), remote_from_slice = (\<lambda>_. None)\<rparr>"

theorem http_answers_are_read_exactly_witness:
  "\<forall>ack. decode_http_response (demo_codec ack) (client_config_new (HttpTo []) None)
     (http_message 202 ''Accepted'' [''content-type: application/json''] ''ack'') = Inr ack"
proof
  fix ack
  let ?c = "client_config_new (HttpTo []) None"
  have size: "max_response_bytes ?c \<le> MAX_CLIENT_RESPONSE_BYTES" "length ''ack'' \<le> max_response_bytes ?c"
    by (simp_all add: client_config_new_def DEFAULT_MAX_RESPONSE_BYTES_def MAX_CLIENT_RESPONSE_BYTES_def)
  have "decode_http_response (demo_codec ack) ?c (http_message 202 ''Accepted'' [''content-type: application/json''] ''ack'') =
      (if 200 \<le> (202 :: nat) \<and> 202 < (300 :: nat) then decode_ack (demo_codec ack) ''ack''
       else Inl (decode_remote_error (demo_codec ack) ''ack'' (Some 202)))"
    by (rule http_answers_are_read_exactly [OF size(1), THEN conjunct1, rule_format])
      (intro conjI demo_http_answer size(2); simp)
  then show "decode_http_response (demo_codec ack) ?c (http_message 202 ''Accepted'' [''content-type: application/json''] ''ack'') = Inr ack"
    by (simp add: decode_ack_def demo_codec_def)
qed

section \<open>Delivery\<close>

lemma ingest_acks:
  assumes "store_caches E" and "store_inv E s" and "validate_envelope ev = Inr ()"
  shows "\<exists>ack. fst (ingest E ev via now s) = Inr ack \<and> IngestAck.accepted ack \<and>
    IngestAck.event_id ack = EventEnvelope.event_id ev \<and> IngestAck.transport ack = via \<and>
    (IngestAck.duplicate ack \<longleftrightarrow> seen_of E s (EventEnvelope.event_id ev) \<noteq> None)"
proof (cases "seen_of E s (EventEnvelope.event_id ev)")
  case None
  have wf: "caches_wf E s" by (rule store_caches.store_inv_wf [OF assms(1,2)])
  from store_caches.ingest_fresh [OF assms(1) wf assms(3) None, of via now] None show ?thesis
    by (auto simp: Let_def prod.case_eq_if store_caches.ingest_new_ack [OF assms(1)])
next
  case (Some r)
  have wf: "caches_wf E s" by (rule store_caches.store_inv_wf [OF assms(1,2)])
  from store_caches.ingest_known [OF assms(1) wf assms(3) Some, of via now] Some show ?thesis by auto
qed

lemma ingest_remembers:
  assumes "store_caches E" and "store_inv E s" and "validate_envelope ev = Inr ()"
  shows "seen_of E (snd (snd (ingest E ev via now s))) (EventEnvelope.event_id ev) \<noteq> None"
proof -
  have wf: "caches_wf E s" by (rule store_caches.store_inv_wf [OF assms(1,2)])
  show ?thesis
  proof (cases "seen_of E s (EventEnvelope.event_id ev)")
    case None
    have lru: "lru_cache (seen_lru E)" using assms(1) by (simp add: store_caches_def)
    obtain c where c: "lru_wf (seen_lru E) c"
      "ingest E ev via now s = (let (ack, update, s') = ingest_new E ev via now (s\<lparr>seen_event_ids := c\<rparr>)
                               in (Inr ack, Some update, s'))"
      using store_caches.ingest_fresh [OF assms(1) wf assms(3) None, of via now] by blast
    with lru show ?thesis
      by (simp add: Let_def prod.case_eq_if store_caches.ingest_new_state [OF assms(1)] seen_of_def
          store_caches.push_with_eviction_snd [OF assms(1)] lru_cache.push_found)
  next
    case (Some r)
    from store_caches.ingest_known [OF assms(1) wf assms(3) Some, of via now] Some show ?thesis
      by (auto simp: seen_of_def)
  qed
qed

lemma ingest_again:
  assumes "store_caches E" and "store_inv E s" and "validate_envelope ev = Inr ()"
    and "seen_of E s (EventEnvelope.event_id ev) \<noteq> None"
  shows "projection (snd (snd (ingest E ev via now s))) = projection s"
proof -
  have wf: "caches_wf E s" by (rule store_caches.store_inv_wf [OF assms(1,2)])
  from assms(4) obtain r where "seen_of E s (EventEnvelope.event_id ev) = Some r" by blast
  from store_caches.ingest_known [OF assms(1) wf assms(3) this, of via now] show ?thesis
    by (auto simp: projection_def)
qed

text \<open>The token a client sends is the token the server reads.\<close>

lemma bearer_token_authorization:
  "\<not> token_is_bad (Some t) \<Longrightarrow> bearer_token (Some (Some (authorization_value t))) = Some t"
  by (auto simp: bearer_token_Some token_is_bad_def authorization_value_def str_lower_def ascii_lower_def char_of_eq_iff
      intro!: exI [of _ "''Bearer''"])

text \<open>Whether a client's token satisfies a server's policy.\<close>

definition token_accepted :: "AuthPolicy \<Rightarrow> string option \<Rightarrow> bool" where
  "token_accepted p tok \<longleftrightarrow> AuthPolicy.token p = None \<or> tok = AuthPolicy.token p"

lemma authorize_ingest_accepted:
  "constant_time_eq ct_eq \<Longrightarrow> token_accepted p tok \<Longrightarrow> authorize_ingest ct_eq p tok = Inr ()"
  by (auto simp: constant_time_eq.authorize_ingest_iff token_accepted_def ingestion_is_protected_def)

lemma tcp_frame_accepts:
  assumes "constant_time_eq ct_eq" and "token_accepted p (ClientConfig.token c)" and "decode line = Inr (Frame (client_frame c ev))"
  shows "tcp_frame ct_eq decode E p (Inr line) now s =
    (ingest_result (fst (ingest E ev Tcp now s)), snd (snd (ingest E ev Tcp now s)))"
  using authorize_ingest_accepted [OF assms(1,2)] assms(3)
  by (simp add: tcp_frame_def tcp_line_def client_frame_def prod.case_eq_if)

text \<open>
  A network whose peer is the TCP listener: it accepts the connection and the line, and answers with
  what the connection handler replies in state \<open>s\<close>, rendered by \<open>render\<close>.
\<close>

definition tcp_peer :: "Network \<Rightarrow> SocketAddr \<Rightarrow> string \<Rightarrow> string \<Rightarrow> bool" where
  "tcp_peer N address line answer \<longleftrightarrow>
     tcp_connect N address = Some (Inr ()) \<and> tcp_nodelay N = Inr () \<and> tcp_send N line = Some (Inr ()) \<and>
     tcp_next N line = Some (Some (Inr answer))"

lemma client_send_tcp:
  assumes c: "ClientConfig.transport c = TcpTo address" and ev: "validate_envelope ev = Inr ()"
    and line: "encode_frame C (client_frame c ev) = Inr line" and peer: "tcp_peer N address line answer"
    and ack: "ack_from_slice C answer = Inr ack"
    and good: "IngestAck.accepted ack" "IngestAck.event_id ack = EventEnvelope.event_id ev" "IngestAck.transport ack = Tcp"
  shows "client_send parse_uri into_client_request header_value C N c ev = ([line], Inr ack)"
proof -
  have "client_dispatch parse_uri into_client_request header_value C N c ev = ([line], Inr ack)"
    using c line peer ack by (simp add: client_dispatch_def send_tcp_def tcp_peer_def decode_ack_def prod_eq_iff)
  with ev c good show ?thesis
    by (simp add: client_send_def and_then_def validate_ack_def ok_def prod_eq_iff)
qed

text \<open>
  C27. Delivery over TCP with retries. If the client and the server agree on the token and the codec reads back
  what it wrote, then a valid event that is sent to a server in a state of its invariant is ingested, and
  the client returns the store's acknowledgement. If the client sends the event once more, because the first
  answer was lost, the answer is a duplicate acknowledgement of the same event and the second delivery
  changes no projection: the event takes effect once.
\<close>
theorem tcp_delivery_takes_effect_once:
  fixes now later :: DateTime
  assumes eq: "constant_time_eq ct_eq" and E: "store_caches E" and inv: "store_inv E s"
    and c: "ClientConfig.transport c = TcpTo address" and ev: "validate_envelope ev = Inr ()"
    and tok: "token_accepted p (ClientConfig.token c)"
    and line: "encode_frame C (client_frame c ev) = Inr line" "decode line = Inr (Frame (client_frame c ev))"
  defines "s1 \<equiv> snd (tcp_frame ct_eq decode E p (Inr line) now s)"
    and "s2 \<equiv> snd (tcp_frame ct_eq decode E p (Inr line) later (snd (tcp_frame ct_eq decode E p (Inr line) now s)))"
  assumes first: "tcp_peer N1 address line (render (fst (tcp_frame ct_eq decode E p (Inr line) now s)))"
    and retry: "tcp_peer N2 address line (render (fst (tcp_frame ct_eq decode E p (Inr line) later s1)))"
    and acks: "\<And>ack. Acked ack \<in> {fst (tcp_frame ct_eq decode E p (Inr line) now s), fst (tcp_frame ct_eq decode E p (Inr line) later s1)} \<Longrightarrow>
      ack_from_slice C (render (Acked ack)) = Inr ack"
  shows "\<exists>ack again.
    fst (ingest E ev Tcp now s) = Inr ack \<and> s1 = snd (snd (ingest E ev Tcp now s)) \<and>
    client_send parse_uri into_client_request header_value C N1 c ev = ([line], Inr ack) \<and>
    client_send parse_uri into_client_request header_value C N2 c ev = ([line], Inr again) \<and>
    IngestAck.duplicate again \<and> IngestAck.event_id again = IngestAck.event_id ack \<and> projection s2 = projection s1"
proof -
  note frame = tcp_frame_accepts [where decode = decode, OF eq tok line(2)]
  have s1: "s1 = snd (snd (ingest E ev Tcp now s))" by (simp add: s1_def frame)
  then have s2: "s2 = snd (snd (ingest E ev Tcp later s1))" by (simp add: s2_def frame)
  have inv1: "store_inv E s1" unfolding s1 by (rule store_caches.inv_ingest [OF E inv])
  have known: "seen_of E s1 (EventEnvelope.event_id ev) \<noteq> None" unfolding s1 by (rule ingest_remembers [OF E inv ev])
  obtain ack where ack: "fst (ingest E ev Tcp now s) = Inr ack" "IngestAck.accepted ack"
    "IngestAck.event_id ack = EventEnvelope.event_id ev" "IngestAck.transport ack = Tcp"
    using ingest_acks [OF E inv ev, of Tcp now] by blast
  obtain again where again: "fst (ingest E ev Tcp later s1) = Inr again" "IngestAck.accepted again"
    "IngestAck.event_id again = EventEnvelope.event_id ev" "IngestAck.transport again = Tcp" "IngestAck.duplicate again"
    using ingest_acks [OF E inv1 ev, of Tcp later] known by blast
  have "tcp_peer N1 address line (render (Acked ack))" using first ack(1) by (simp add: frame ingest_result_def)
  from client_send_tcp [OF c ev line(1) this acks ack(2-4)] ack(1)
  have sent: "client_send parse_uri into_client_request header_value C N1 c ev = ([line], Inr ack)" by (simp add: frame ingest_result_def)
  have "tcp_peer N2 address line (render (Acked again))" using retry again(1) by (simp add: frame ingest_result_def)
  from client_send_tcp [OF c ev line(1) this acks again(2-4)] again(1)
  have resent: "client_send parse_uri into_client_request header_value C N2 c ev = ([line], Inr again)" by (simp add: frame ingest_result_def)
  have "projection s2 = projection s1" unfolding s2 by (rule ingest_again [OF E inv1 ev known])
  with ack(1,3) again(3,5) s1 sent resent show ?thesis by auto
qed

definition demo_first_ack :: IngestAck where
  "demo_first_ack = projr (fst (ingest list_caches demo_e2 Tcp (11, 5) demo_s0))"

definition demo_second_ack :: IngestAck where
  "demo_second_ack = projr (fst (ingest list_caches demo_e2 Tcp (12, 0) (snd (snd (ingest list_caches demo_e2 Tcp (11, 5) demo_s0)))))"

definition demo_render :: "ingest_reply \<Rightarrow> string" where
  "demo_render r = (case r of Acked ack \<Rightarrow> if IngestAck.duplicate ack then ''d'' else ''n'' | _ \<Rightarrow> [])"

definition demo_line_codec :: Codec where
  "demo_line_codec = \<lparr>encode_event = (\<lambda>_. Inr ''{}''), encode_frame = (\<lambda>_. Inr ''{}''),
     ack_from_slice = (\<lambda>b. Inr (if b = ''d'' then demo_second_ack else demo_first_ack)), remote_from_slice = (\<lambda>_. None)\<rparr>"

definition demo_network :: "string \<Rightarrow> string \<Rightarrow> Network" where
  "demo_network answer response =
     \<lparr>http_connect = (\<lambda>_. Some (Inr ())), http_write = (\<lambda>_. Some (Inr ())), http_flush = Some (Inr ()),
      http_answer = (\<lambda>_ _. Some (Inr response)), ws_connect = (\<lambda>_ _. Some (Inr ())), ws_send = (\<lambda>_. Some (Inr ())),
      ws_arrivals = (\<lambda>_. []), tcp_connect = (\<lambda>_. Some (Inr ())), tcp_nodelay = Inr (), tcp_send = (\<lambda>_. Some (Inr ())),
      tcp_next = (\<lambda>_. Some (Some (Inr answer))), udp_bind = (\<lambda>_. Inr ()), udp_send_to = (\<lambda>_ _. Some (Inr ())),
      udp_recv_from = (\<lambda>_. None)\<rparr>"

lemma demo_acks:
  "fst (ingest list_caches demo_e2 Tcp (11, 5) demo_s0) = Inr demo_first_ack" "\<not> IngestAck.duplicate demo_first_ack"
  "fst (ingest list_caches demo_e2 Tcp (12, 0) (snd (snd (ingest list_caches demo_e2 Tcp (11, 5) demo_s0)))) = Inr demo_second_ack"
  "IngestAck.duplicate demo_second_ack"
  by code_simp+

abbreviation demo_open :: AuthPolicy where
  "demo_open \<equiv> \<lparr>AuthPolicy.token = None, protect_reads = False\<rparr>"

abbreviation demo_addr :: SocketAddr where
  "demo_addr \<equiv> \<lparr>ip = V4 127 0 0 1, port = 8788\<rparr>"

theorem tcp_delivery_takes_effect_once_witness:
  "client_send (\<lambda>_. Inl []) (\<lambda>_. Inr ()) (\<lambda>_. True) demo_line_codec (demo_network ''d'' [])
     (client_config_new (TcpTo demo_addr) None) demo_e2 = ([''{}''], Inr demo_second_ack)"
proof -
  let ?c = "client_config_new (TcpTo demo_addr) None" and ?eq = "\<lambda>a b. list_all2 (=) a b"
  let ?decode = "\<lambda>_ :: string. Inr (Frame (client_frame ?c demo_e2)) :: string + TransportPayload"
  have tok: "token_accepted demo_open (ClientConfig.token ?c)" by (simp add: token_accepted_def)
  note frame = tcp_frame_accepts [where decode = ?decode, OF byte_eq.constant_time_eq_axioms tok refl]
  let ?s1 = "snd (snd (ingest list_caches demo_e2 Tcp (11, 5) demo_s0))"
  have first: "tcp_frame ?eq ?decode list_caches demo_open (Inr ''{}'') (11, 5) demo_s0 = (Acked demo_first_ack, ?s1)"
    and second: "fst (tcp_frame ?eq ?decode list_caches demo_open (Inr ''{}'') (12, 0) ?s1) = Acked demo_second_ack"
    by (simp_all add: frame demo_acks ingest_result_def)
  let ?frame = "tcp_frame ?eq ?decode list_caches demo_open (Inr ''{}'')"
  have c: "ClientConfig.transport ?c = TcpTo demo_addr" by (simp add: client_config_new_def)
  have line: "encode_frame demo_line_codec (client_frame ?c demo_e2) = Inr ''{}''" by (simp add: demo_line_codec_def)
  have peers: "tcp_peer (demo_network ''n'' []) demo_addr ''{}'' (demo_render (fst (?frame (11, 5) demo_s0)))"
    "tcp_peer (demo_network ''d'' []) demo_addr ''{}'' (demo_render (fst (?frame (12, 0) (snd (?frame (11, 5) demo_s0)))))"
    unfolding first fst_conv snd_conv second by (simp_all add: demo_acks demo_render_def tcp_peer_def demo_network_def)
  have acks: "ack_from_slice demo_line_codec (demo_render (Acked ack)) = Inr ack"
    if "Acked ack \<in> {fst (?frame (11, 5) demo_s0), fst (?frame (12, 0) (snd (?frame (11, 5) demo_s0)))}" for ack
    using that unfolding first fst_conv snd_conv second by (auto simp: demo_acks demo_render_def demo_line_codec_def)
  have "\<exists>again. client_send (\<lambda>_. Inl []) (\<lambda>_. Inr ()) (\<lambda>_. True) demo_line_codec (demo_network ''d'' []) ?c demo_e2 = ([''{}''], Inr again)"
    using tcp_delivery_takes_effect_once [OF byte_eq.constant_time_eq_axioms list_store.store_caches_axioms demo_inv(1) c demo_valid(2) tok
        line refl peers acks] by blast
  then show ?thesis
    by (auto simp: client_send_def client_success client_dispatch_def send_tcp_def client_config_new_def demo_network_def
        demo_line_codec_def decode_ack_def)
qed

lemma demo_first_ack_good:
  "IngestAck.accepted demo_first_ack" "IngestAck.event_id demo_first_ack = EventEnvelope.event_id demo_e2"
  "IngestAck.transport demo_first_ack = Tcp"
  using ingest_acks [OF list_store.store_caches_axioms demo_inv(1) demo_valid(2), of Tcp "(11, 5)"] demo_acks(1) by auto

theorem client_send_is_sound_witness:
  "\<exists>ack. client_send (\<lambda>_. Inl []) (\<lambda>_. Inr ()) (\<lambda>_. True) demo_line_codec (demo_network ''n'' [])
     (client_config_new (TcpTo demo_addr) None) demo_e2 = ([''{}''], Inr ack) \<and> IngestAck.transport ack = Tcp"
proof -
  let ?c = "client_config_new (TcpTo demo_addr) None"
  have c: "ClientConfig.transport ?c = TcpTo demo_addr" by (simp add: client_config_new_def)
  have "client_send (\<lambda>_. Inl []) (\<lambda>_. Inr ()) (\<lambda>_. True) demo_line_codec (demo_network ''n'' []) ?c demo_e2 = ([''{}''], Inr demo_first_ack)"
    by (rule client_send_tcp [OF c demo_valid(2), where answer = "''n''"])
      (simp_all add: demo_line_codec_def tcp_peer_def demo_network_def demo_first_ack_good)
  with client_send_is_sound [of demo_e2 "\<lambda>_. Inl []" "\<lambda>_. Inr ()" "\<lambda>_. True" demo_line_codec "demo_network ''n'' []" ?c] c
  show ?thesis by auto
qed

text \<open>The \<open>Authorization\<close> header of a request, as the server receives it.\<close>

definition request_authorization :: "ClientConfig \<Rightarrow> header" where
  "request_authorization c = map_option (\<lambda>t. Some (authorization_value t)) (ClientConfig.token c)"

lemma bearer_token_request:
  "\<not> token_is_bad (ClientConfig.token c) \<Longrightarrow> bearer_token (request_authorization c) = ClientConfig.token c"
  by (cases "ClientConfig.token c")
    (simp_all add: request_authorization_def bearer_token_authorization, simp add: bearer_token_def)

lemma client_validate_ok:
  assumes "client_validate parse_uri into_client_request c = Inr u"
  shows "\<not> token_is_bad (ClientConfig.token c)" "max_response_bytes c \<le> MAX_CLIENT_RESPONSE_BYTES"
    "ClientConfig.transport c = HttpTo endpoint \<Longrightarrow> \<exists>ep. parse_http_endpoint parse_uri endpoint = Inr ep"
  using assms by (auto simp: client_validate_def split: if_splits sum.splits ClientTransport.splits)

text \<open>
  Delivery over HTTP. A client whose configuration passed validation presents its token in a
  form from which the server reads the same token; so if the server expects that token (or none), the codec
  reads back what it wrote, and the server's response is a well-formed message within the
  client's limits, then a valid event is ingested and the client returns the store's acknowledgement.
\<close>
theorem http_delivery:
  fixes now :: DateTime
  assumes eq: "constant_time_eq ct_eq" and E: "store_caches E" and inv: "store_inv E s"
    and c: "client_validate parse_uri into_client_request c = Inr ()" "ClientConfig.transport c = HttpTo endpoint"
    and ev: "validate_envelope ev = Inr ()" and tok: "token_accepted p (ClientConfig.token c)"
    and body: "encode_event C ev = Inr body" "decode_body body = Inr ev"
    and net: "\<And>a. http_connect N a = Some (Inr ())" "\<And>w. http_write N w = Some (Inr ())" "http_flush N = Some (Inr ())"
  defines "result \<equiv> ingest_event ct_eq E p (request_authorization c) (decode_body body) now s"
  assumes answer: "\<And>sc ack head. fst result = Inr (sc, ack) \<Longrightarrow>
      http_answer N head body = Some (Inr (http_message sc phrase hs (render ack))) \<and> ack_from_slice C (render ack) = Inr ack \<and>
      list_all head_line (status_line sc phrase # hs) \<and> utf8_valid (str_join crlf (status_line sc phrase # hs)) \<and>
      length (str_join crlf (status_line sc phrase # hs)) + 4 \<le> MAX_HTTP_HEADER_BYTES \<and> length (render ack) \<le> max_response_bytes c"
  shows "\<exists>ack head. fst (ingest E ev Http now s) = Inr ack \<and> snd result = snd (snd (ingest E ev Http now s)) \<and>
    client_send parse_uri into_client_request header_value C N c ev = ([head, body], Inr ack)"
proof -
  obtain ack where ack: "fst (ingest E ev Http now s) = Inr ack" "IngestAck.accepted ack"
    "IngestAck.event_id ack = EventEnvelope.event_id ev" "IngestAck.transport ack = Http"
    using ingest_acks [OF E inv ev, of Http now] by blast
  obtain ep where ep: "parse_http_endpoint parse_uri endpoint = Inr ep" using client_validate_ok(3) [OF c] by blast
  let ?head = "http_request_head ep (ClientConfig.token c) (length body)"
  define sc :: nat where "sc = (if IngestAck.duplicate ack then 200 else 202)"
  have result: "result = (Inr (sc, ack), snd (snd (ingest E ev Http now s)))"
    using authorize_ingest_accepted [OF eq tok] ack(1) body(2)
    by (simp add: result_def ingest_event_def bearer_token_request client_validate_ok(1) [OF c(1)] prod.case_eq_if sc_def)
  note answer = answer [of sc ack ?head, unfolded result fst_conv, OF refl]
  let ?message = "http_message sc phrase hs (render ack)"
  have "length ?message \<le> total_limit c"
    using answer client_validate_ok(2) [OF c(1)]
    by (auto simp: http_message_def crlf_def total_limit_def saturating_usize_add_def MAX_HTTP_HEADER_BYTES_def
        MAX_CLIENT_RESPONSE_BYTES_def simp del: str_join.simps)
  then have "take (total_limit c) ?message = ?message" by simp
  moreover have "decode_http_response C c ?message = Inr ack"
    using http_message_decoded [OF client_validate_ok(2) [OF c(1)], of sc phrase hs "render ack" C] answer
    by (simp add: sc_def decode_ack_def del: str_join.simps)
  ultimately have "client_dispatch parse_uri into_client_request header_value C N c ev = ([?head, body], Inr ack)"
    using c(2) ep body(1) net answer by (simp add: client_dispatch_def send_http_def Let_def prod_eq_iff del: str_join.simps)
  with ev c(2) ack have "client_send parse_uri into_client_request header_value C N c ev = ([?head, body], Inr ack)"
    by (simp add: client_send_def and_then_def validate_ack_def ok_def prod_eq_iff)
  with ack(1) result show ?thesis by auto
qed

definition demo_uri :: Uri where
  "demo_uri = \<lparr>scheme_str = Some ''http'', authority = Some \<lparr>as_str = ''daemon'', host = ''daemon'', port_u16 = None\<rparr>,
     path_and_query = Some ''/api/v1/events''\<rparr>"

definition demo_http_ack :: IngestAck where
  "demo_http_ack = projr (fst (ingest list_caches demo_e2 Http (11, 5) demo_s0))"

lemma demo_http_ack: "fst (ingest list_caches demo_e2 Http (11, 5) demo_s0) = Inr demo_http_ack" "\<not> IngestAck.duplicate demo_http_ack"
  by code_simp+

theorem http_delivery_witness:
  "\<exists>head. client_send (\<lambda>_. Inr demo_uri) (\<lambda>_. Inr ()) (\<lambda>_. True) (demo_codec demo_http_ack)
     (demo_network [] (http_message 202 ''Accepted'' [''content-type: application/json''] ''ack''))
     (client_config_new (HttpTo ''http://daemon/api/v1/events'') (Some ''a-shared-secret'')) demo_e2 = ([head, ''{}''], Inr demo_http_ack)"
proof -
  let ?c = "client_config_new (HttpTo ''http://daemon/api/v1/events'') (Some ''a-shared-secret'')"
  let ?p = "\<lparr>AuthPolicy.token = Some ''a-shared-secret'', protect_reads = False\<rparr>" and ?eq = "\<lambda>a b. list_all2 (=) a b"
  let ?N = "demo_network [] (http_message 202 ''Accepted'' [''content-type: application/json''] ''ack'')"
  let ?result = "ingest_event ?eq list_caches ?p (request_authorization ?c) (Inr demo_e2) (11, 5) demo_s0"
  have c: "client_validate (\<lambda>_. Inr demo_uri) (\<lambda>_. Inr ()) ?c = Inr ()"
    "ClientConfig.transport ?c = HttpTo ''http://daemon/api/v1/events''"
    by (simp_all add: client_validate_def client_config_new_def DEFAULT_TIMEOUT_def DEFAULT_MAX_RESPONSE_BYTES_def
        MAX_CLIENT_RESPONSE_BYTES_def token_is_bad_def is_ascii_whitespace_def parse_http_endpoint_def demo_uri_def Let_def ok_def)
  have tok: "token_accepted ?p (ClientConfig.token ?c)" by (simp add: token_accepted_def client_config_new_def)
  have result: "fst ?result = Inr (202, demo_http_ack)"
    using authorize_ingest_accepted [OF byte_eq.constant_time_eq_axioms tok] demo_http_ack
    by (simp add: ingest_event_def bearer_token_request client_validate_ok(1) [OF c(1)] prod.case_eq_if)
  have "\<exists>ack head. fst (ingest list_caches demo_e2 Http (11, 5) demo_s0) = Inr ack \<and>
    snd ?result = snd (snd (ingest list_caches demo_e2 Http (11, 5) demo_s0)) \<and>
    client_send (\<lambda>_. Inr demo_uri) (\<lambda>_. Inr ()) (\<lambda>_. True) (demo_codec demo_http_ack) ?N ?c demo_e2 = ([head, ''{}''], Inr ack)"
  proof (rule http_delivery [OF byte_eq.constant_time_eq_axioms list_store.store_caches_axioms demo_inv(1) c demo_valid(2) tok,
      where phrase = "''Accepted''" and hs = "[''content-type: application/json'']" and render = "\<lambda>_. ''ack''"])
    fix sc ack head assume "fst ?result = Inr (sc, ack)"
    with result have "sc = 202" "ack = demo_http_ack" by simp_all
    with demo_http_answer show "http_answer ?N head ''{}'' = Some (Inr (http_message sc ''Accepted'' [''content-type: application/json''] ''ack'')) \<and>
        ack_from_slice (demo_codec demo_http_ack) ''ack'' = Inr ack \<and>
        list_all head_line (status_line sc ''Accepted'' # [''content-type: application/json'']) \<and>
        utf8_valid (str_join crlf (status_line sc ''Accepted'' # [''content-type: application/json''])) \<and>
        length (str_join crlf (status_line sc ''Accepted'' # [''content-type: application/json''])) + 4 \<le> MAX_HTTP_HEADER_BYTES \<and>
        length ''ack'' \<le> max_response_bytes ?c"
      by (simp only: demo_network_def demo_codec_def Network.simps Codec.simps client_config_new_def ClientConfig.simps
          DEFAULT_MAX_RESPONSE_BYTES_def) simp
  qed (simp_all add: demo_codec_def demo_network_def)
  with demo_http_ack(1) show ?thesis by simp
qed

end
