(* ===== verification/UiStream.thy ===== *)
theory UiStream
  imports Ingress
begin

text \<open>
  The live stream of store updates to an operator page: \<open>ui_websocket\<close> and \<open>handle_ui_socket\<close> of
  \<open>src/http.rs\<close>. The select loop appears as the list of what it meets, in order: an item of the broadcast
  channel, or a message of the socket, each with the outcome of the send it causes. \<open>encode_update\<close> is
  the JSON encoding of an update, \<open>None\<close> if it fails. The result is the list of messages the page is
  sent, without the pongs that answer pings before the page has authenticated.

  The broadcast channel of \<open>tokio\<close> is third-party code; what it yields for a sequence of updates is
  described by \<open>channel_yields\<close>: every update in order, except that a receiver that falls behind is told how
  many it missed.
\<close>

datatype channel_item = Update StoreUpdate | Lagged nat | ChannelClosed

datatype ui_event =
    FromChannel channel_item bool
  | FromSocket "ws_message option" bool

datatype ui_message =
    UiUnauthorized
  | UiAuthenticated
  | UiUpdate StoreUpdate string
  | UiResyncRequired nat
  | UiPong string

section \<open>The stream\<close>

fun ui_stream :: "(StoreUpdate \<Rightarrow> string option) \<Rightarrow> ui_event list \<Rightarrow> ui_message list" where
  "ui_stream encode_update [] = []"
| "ui_stream encode_update (FromChannel item sent # evs) =
     (case item of
        Update u \<Rightarrow>
          (case encode_update u of
             None \<Rightarrow> ui_stream encode_update evs
           | Some payload \<Rightarrow> UiUpdate u payload # (if sent then ui_stream encode_update evs else []))
      | Lagged skipped \<Rightarrow> UiResyncRequired skipped # (if sent then ui_stream encode_update evs else [])
      | ChannelClosed \<Rightarrow> [])"
| "ui_stream encode_update (FromSocket incoming sent # evs) =
     (case incoming of
        Some (WsPing data) \<Rightarrow> UiPong data # (if sent then ui_stream encode_update evs else [])
      | Some WsClose \<Rightarrow> []
      | None \<Rightarrow> []
      | Some WsProtocolError \<Rightarrow> []
      | Some _ \<Rightarrow> ui_stream encode_update evs)"

definition handle_ui_socket ::
  "(string \<Rightarrow> string \<Rightarrow> bool) \<Rightarrow> (string \<Rightarrow> string option) \<Rightarrow> (StoreUpdate \<Rightarrow> string option) \<Rightarrow> AuthPolicy \<Rightarrow>
   (ws_message \<times> bool) list \<Rightarrow> bool \<Rightarrow> ui_event list \<Rightarrow> ui_message list" where
  "handle_ui_socket ct_eq decode_auth encode_update p greeting handshake_sent evs =
     (if \<not> ui_socket_streams ct_eq decode_auth p greeting then [UiUnauthorized]
      else UiAuthenticated # (if handshake_sent then ui_stream encode_update evs else []))"

definition ui_websocket ::
  "(string \<Rightarrow> string \<Rightarrow> bool) \<Rightarrow> (string \<Rightarrow> string option) \<Rightarrow> (StoreUpdate \<Rightarrow> string option) \<Rightarrow> AuthPolicy \<Rightarrow> bool \<Rightarrow>
   header \<Rightarrow> header \<Rightarrow> (ws_message \<times> bool) list \<Rightarrow> bool \<Rightarrow> ui_event list \<Rightarrow> HttpApiError + ui_message list" where
  "ui_websocket ct_eq decode_auth encode_update p any origin host greeting handshake_sent evs =
     (if \<not> websocket_origin_allowed origin host any then Inl HttpForbidden
      else Inr (handle_ui_socket ct_eq decode_auth encode_update p greeting handshake_sent evs))"

section \<open>The channel\<close>

text \<open>
  The items a receiver gets for the updates sent since it subscribed. It may not have read all of them.
\<close>

fun channel_yields :: "StoreUpdate list \<Rightarrow> channel_item list \<Rightarrow> bool" where
  "channel_yields us [] = True"
| "channel_yields us (Update u # items) = (case us of [] \<Rightarrow> False | v # vs \<Rightarrow> u = v \<and> channel_yields vs items)"
| "channel_yields us (Lagged n # items) = (0 < n \<and> n \<le> length us \<and> channel_yields (drop n us) items)"
| "channel_yields us (ChannelClosed # items) = (us = [] \<and> items = [])"

definition channel_items :: "ui_event list \<Rightarrow> channel_item list" where
  "channel_items evs = concat (map (\<lambda>e. case e of FromChannel item _ \<Rightarrow> [item] | _ \<Rightarrow> []) evs)"

lemma channel_items_simps [simp]:
  "channel_items [] = []" "channel_items (FromChannel item sent # evs) = item # channel_items evs"
  "channel_items (FromSocket m sent # evs) = channel_items evs"
  by (simp_all add: channel_items_def)

text \<open>
  What the page can conclude from the messages it got: a list of updates is accounted for if each
  message stands for the next update or for the stated number of missed ones. Pongs stand for nothing.
\<close>

fun page_accounts :: "ui_message list \<Rightarrow> StoreUpdate list \<Rightarrow> bool" where
  "page_accounts [] us = (us = [])"
| "page_accounts (UiUpdate u payload # ms) us = (case us of [] \<Rightarrow> False | v # vs \<Rightarrow> u = v \<and> page_accounts ms vs)"
| "page_accounts (UiResyncRequired n # ms) us = (n \<le> length us \<and> page_accounts ms (drop n us))"
| "page_accounts (UiPong data # ms) us = page_accounts ms us"
| "page_accounts (UiUnauthorized # ms) us = False"
| "page_accounts (UiAuthenticated # ms) us = False"

fun lost_nothing :: "channel_item list \<Rightarrow> bool" where
  "lost_nothing [] = True"
| "lost_nothing (Lagged n # items) = False"
| "lost_nothing (_ # items) = lost_nothing items"

definition updates_of :: "ui_message list \<Rightarrow> StoreUpdate list" where
  "updates_of ms = concat (map (\<lambda>m. case m of UiUpdate u _ \<Rightarrow> [u] | _ \<Rightarrow> []) ms)"

lemma updates_of_simps [simp]:
  "updates_of [] = []" "updates_of (UiUpdate u payload # ms) = u # updates_of ms"
  "updates_of (UiResyncRequired n # ms) = updates_of ms" "updates_of (UiPong data # ms) = updates_of ms"
  "updates_of (UiAuthenticated # ms) = updates_of ms"
  by (simp_all add: updates_of_def)

section \<open>Who is let in\<close>

text \<open>
  The token that a page presents: that of its first data frame, before which it may have sent pongs and
  pings that could be answered.
\<close>

definition presents :: "(string \<Rightarrow> string option) \<Rightarrow> (ws_message \<times> bool) list \<Rightarrow> string \<Rightarrow> bool" where
  "presents decode_auth greeting tok \<longleftrightarrow>
     (\<exists>pre m ok_sent data post. greeting = pre @ (m, ok_sent) # post \<and>
        (\<forall>(w, answered) \<in> set pre. \<exists>x. w = WsPong x \<or> w = WsPing x \<and> answered) \<and>
        (m = WsText data \<or> m = WsBinary data) \<and> decode_auth data = Some tok)"

lemma presents_nil: "\<not> presents decode_auth [] tok"
  by (simp add: presents_def)

lemma presents_skip:
  assumes "\<exists>x. w = WsPong x \<or> w = WsPing x \<and> answered"
  shows "presents decode_auth ((w, answered) # ms) tok \<longleftrightarrow> presents decode_auth ms tok"
proof
  assume "presents decode_auth ((w, answered) # ms) tok"
  then obtain pre m ok_sent data post where p: "(w, answered) # ms = pre @ (m, ok_sent) # post"
    "\<forall>(w, answered) \<in> set pre. \<exists>x. w = WsPong x \<or> w = WsPing x \<and> answered" "m = WsText data \<or> m = WsBinary data"
    "decode_auth data = Some tok"
    unfolding presents_def by blast
  from p(1,3) assms obtain pre' where "pre = (w, answered) # pre'" by (cases pre) auto
  with p show "presents decode_auth ms tok" unfolding presents_def by auto
next
  assume "presents decode_auth ms tok"
  then obtain pre m ok_sent data post where "ms = pre @ (m, ok_sent) # post"
    "\<forall>(w, answered) \<in> set pre. \<exists>x. w = WsPong x \<or> w = WsPing x \<and> answered" "m = WsText data \<or> m = WsBinary data"
    "decode_auth data = Some tok"
    unfolding presents_def by blast
  with assms show "presents decode_auth ((w, answered) # ms) tok"
    unfolding presents_def by (intro exI [of _ "(w, answered) # pre"]) auto
qed

lemma presents_first:
  assumes "\<not> (\<exists>x. w = WsPong x \<or> w = WsPing x \<and> answered)"
  shows "presents decode_auth ((w, answered) # ms) tok \<longleftrightarrow> (\<exists>data. (w = WsText data \<or> w = WsBinary data) \<and> decode_auth data = Some tok)"
proof
  assume "presents decode_auth ((w, answered) # ms) tok"
  then obtain pre m ok_sent data post where p: "(w, answered) # ms = pre @ (m, ok_sent) # post"
    "\<forall>(w, answered) \<in> set pre. \<exists>x. w = WsPong x \<or> w = WsPing x \<and> answered" "m = WsText data \<or> m = WsBinary data"
    "decode_auth data = Some tok"
    unfolding presents_def by blast
  from p(1,2) assms have "pre = []" by (cases pre) auto
  with p show "\<exists>data. (w = WsText data \<or> w = WsBinary data) \<and> decode_auth data = Some tok" by auto
next
  assume "\<exists>data. (w = WsText data \<or> w = WsBinary data) \<and> decode_auth data = Some tok"
  then show "presents decode_auth ((w, answered) # ms) tok"
    unfolding presents_def by (intro exI [of _ "[]"]) auto
qed

lemma authenticate_ui_socket_iff:
  assumes "constant_time_eq ct_eq" and "reads_are_protected p"
  shows "authenticate_ui_socket ct_eq decode_auth p greeting \<longleftrightarrow>
    (\<exists>tok. presents decode_auth greeting tok \<and> AuthPolicy.token p \<in> {None, Some tok})"
proof (induction greeting)
  case (Cons g ms)
  obtain w answered where g: "g = (w, answered)" by (cases g)
  have read: "authorize_read ct_eq p (Some tok) = ok \<longleftrightarrow> AuthPolicy.token p \<in> {None, Some tok}" for tok
    using constant_time_eq.authorize_read_iff [OF assms(1), of p "Some tok"] assms(2) by (auto simp: ok_def ingestion_is_protected_def)
  show ?case
  proof (cases "\<exists>x. w = WsPong x \<or> w = WsPing x \<and> answered")
    case True
    then show ?thesis unfolding g presents_skip [OF True] using Cons.IH by auto
  next
    case False
    then show ?thesis unfolding g presents_first [OF False] by (cases w) (auto simp: read split: option.splits)
  qed
qed (simp add: presents_nil)

section \<open>What a page is sent\<close>

text \<open>The events after which the stream is over, and the number of updates that the items of the channel stand for.\<close>

fun ends_stream :: "ui_event \<Rightarrow> bool" where
  "ends_stream (FromChannel item ok_sent) = (item = ChannelClosed \<or> \<not> ok_sent)"
| "ends_stream (FromSocket incoming ok_sent) =
     (incoming \<in> {None, Some WsClose, Some WsProtocolError} \<or> (\<exists>data. incoming = Some (WsPing data)) \<and> \<not> ok_sent)"

fun covered :: "channel_item list \<Rightarrow> nat" where
  "covered [] = 0"
| "covered (Update u # items) = Suc (covered items)"
| "covered (Lagged n # items) = n + covered items"
| "covered (ChannelClosed # items) = covered items"

lemma stream_accounts:
  assumes "\<And>u. encode_update u \<noteq> None" and "channel_yields us (channel_items evs)"
  shows "page_accounts (ui_stream encode_update evs) (take (covered (channel_items (up_to ends_stream evs))) us) \<and>
    (lost_nothing (channel_items (up_to ends_stream evs)) \<longrightarrow>
      updates_of (ui_stream encode_update evs) = take (covered (channel_items (up_to ends_stream evs))) us)"
  using assms(2)
proof (induction evs arbitrary: us)
  case (Cons e evs)
  show ?case
  proof (cases e)
    case (FromChannel item ok_sent)
    show ?thesis
    proof (cases item)
      case (Update u)
      obtain payload where payload: "encode_update u = Some payload" using assms(1) by blast
      from Cons.prems FromChannel Update obtain vs where us: "us = u # vs" "channel_yields vs (channel_items evs)"
        by (cases us) auto
      from Cons.IH [OF us(2)] show ?thesis
        using FromChannel Update us(1) payload by simp
    next
      case (Lagged n)
      with Cons.prems FromChannel have n: "n \<le> length us" "channel_yields (drop n us) (channel_items evs)" by auto
      have "drop n (take (n + k) us) = take k (drop n us)" for k by (simp add: drop_take)
      with Cons.IH [OF n(2)] n(1) show ?thesis
        using FromChannel Lagged by simp
    next
      case ChannelClosed
      with FromChannel show ?thesis by simp
    qed
  next
    case (FromSocket incoming ok_sent)
    with Cons.prems Cons.IH [of us] show ?thesis
      by (auto split: option.splits ws_message.splits)
  qed
qed simp

text \<open>
  C30. The operator stream is guarded, ordered and complete. Where reads are protected, a page is let in exactly if its first
  data frame decodes to the configured token (to any token, if none is configured); every other page is sent a refusal and
  nothing else. A page that is let in is greeted first. If the greeting can be sent, what follows accounts for exactly the
  updates that the receiver took from the channel before the stream ended: each message stands for the next update, in the order in
  which they were sent, or for a stated number of updates that the receiver missed, and if it missed none the page is sent exactly
  these updates. The stream ends only when a message cannot be sent, the channel or the socket is closed, or the protocol is broken.
\<close>
theorem ui_stream_is_guarded_and_complete:
  fixes ct_eq :: "string \<Rightarrow> string \<Rightarrow> bool" and decode_auth :: "string \<Rightarrow> string option" and p :: AuthPolicy
    and greeting :: "(ws_message \<times> bool) list" and handshake_sent :: bool
  assumes eq: "constant_time_eq ct_eq" and encode: "\<And>u. encode_update u \<noteq> None" and yields: "channel_yields us (channel_items evs)"
  defines "messages \<equiv> handle_ui_socket ct_eq decode_auth encode_update p greeting handshake_sent evs"
    and "taken \<equiv> channel_items (up_to ends_stream evs)"
    and "let_in \<equiv> \<not> reads_are_protected p \<or> (\<exists>tok. presents decode_auth greeting tok \<and> AuthPolicy.token p \<in> {None, Some tok})"
  shows "(\<not> let_in \<longrightarrow> messages = [UiUnauthorized]) \<and>
    (let_in \<and> \<not> handshake_sent \<longrightarrow> messages = [UiAuthenticated]) \<and>
    (let_in \<and> handshake_sent \<longrightarrow> (\<exists>ms. messages = UiAuthenticated # ms \<and> page_accounts ms (take (covered taken) us) \<and>
      (lost_nothing taken \<longrightarrow> updates_of ms = take (covered taken) us)))"
proof -
  have "ui_socket_streams ct_eq decode_auth p greeting \<longleftrightarrow> let_in"
    unfolding let_in_def ui_socket_streams_def using authenticate_ui_socket_iff [OF eq, of p decode_auth greeting] by blast
  then show ?thesis
    using stream_accounts [OF encode yields] by (simp add: messages_def handle_ui_socket_def taken_def)
qed

definition demo_update :: "u64 \<Rightarrow> StoreUpdate" where
  "demo_update n = \<lparr>StoreUpdate.revision = n, event_id = 1, kind = ''heartbeat'', agent_id = ''a'', task_id = None,
     transport = Tcp, received_at = (0, 0)\<rparr>"

theorem ui_stream_is_guarded_and_complete_witness:
  "updates_of (tl (handle_ui_socket (\<lambda>a b. list_all2 (=) a b) Some (\<lambda>_. Some []) \<lparr>AuthPolicy.token = Some ''secret'', protect_reads = True\<rparr>
     [(WsPing [], True), (WsText ''secret'', True)] True
     [FromChannel (Update (demo_update 1)) True, FromSocket (Some (WsPing [])) True, FromChannel (Update (demo_update 2)) True])) =
   [demo_update 1, demo_update 2]"
proof -
  let ?evs = "[FromChannel (Update (demo_update 1)) True, FromSocket (Some (WsPing [])) True, FromChannel (Update (demo_update 2)) True]"
  let ?greeting = "[(WsPing [], True), (WsText ''secret'', True)]"
  have "presents Some ?greeting ''secret''" by (simp add: presents_skip presents_first)
  with ui_stream_is_guarded_and_complete [OF byte_eq.constant_time_eq_axioms, of "\<lambda>_. Some []" "[demo_update 1, demo_update 2]" ?evs
      "\<lparr>AuthPolicy.token = Some ''secret'', protect_reads = True\<rparr>" Some ?greeting True]
  show ?thesis by (auto simp: reads_are_protected_def)
qed

end
