(* ===== verification/OpenApi.thy ===== *)
theory OpenApi
  imports Provider Ingress
begin

text \<open>
  The description of the API that the daemon serves, \<open>document\<close> of \<open>src/openapi.rs\<close>, as a JSON value: one
  definition for each path and each schema, composed as the source composes them. The members of an
  object are listed in the order of the source; numbers are their text. The version of the package and the
  textual form of a socket address are arguments.
\<close>

record BoundAddresses =
  http :: SocketAddr
  tcp :: SocketAddr
  udp :: SocketAddr

definition security_requirement :: "bool \<Rightarrow> json" where
  "security_requirement protected =
     (if protected then JArray [JObject [(''bearerAuth'', JArray [])]] else JArray [])"

section \<open>Paths\<close>

definition events_path :: "json \<Rightarrow> json" where
  "events_path ingestion_security =
     JObject [
       (''post'', JObject [
         (''summary'', JString ''Ingest one agent event''),
         (''security'', ingestion_security),
         (''requestBody'', JObject [
           (''required'', JBool True),
           (''content'', JObject [
             (''application/json'', JObject [(''schema'', JObject [(''$ref'', JString ''#/components/schemas/EventEnvelope'')])])])]),
         (''responses'', JObject [
           (''202'', JObject [
             (''description'', JString ''Event accepted''),
             (''content'', JObject [
               (''application/json'', JObject [(''schema'', JObject [(''$ref'', JString ''#/components/schemas/IngestAck'')])])])]),
           (''400'', JObject [(''description'', JString ''Malformed or invalid event'')]),
           (''401'', JObject [(''description'', JString ''Authentication failed'')])])])]"

definition coordination_path :: "json \<Rightarrow> json" where
  "coordination_path read_security =
     JObject [
       (''get'', JObject [
         (''summary'', JString ''Build the current deterministic coordination plan''),
         (''description'', JString ''Returns bounded dependency-safe assignments, operator interventions, and held tasks derived from the same visible retained snapshot and metacognition rules. The endpoint is read-only and never dispatches or mutates agent work.''),
         (''security'', read_security),
         (''parameters'', JArray [
           JObject [
             (''name'', JString ''max_assignments''),
             (''in'', JString ''query''),
             (''required'', JBool False),
             (''schema'', JObject [
               (''type'', JString ''integer''),
               (''minimum'', JNumber ''1''),
               (''maximum'', JNumber ''256''),
               (''default'', JNumber ''16'')])],
           JObject [
             (''name'', JString ''max_assignments_per_agent''),
             (''in'', JString ''query''),
             (''required'', JBool False),
             (''schema'', JObject [
               (''type'', JString ''integer''),
               (''minimum'', JNumber ''1''),
               (''maximum'', JNumber ''32''),
               (''default'', JNumber ''2'')])],
           JObject [
             (''name'', JString ''max_interventions''),
             (''in'', JString ''query''),
             (''required'', JBool False),
             (''schema'', JObject [
               (''type'', JString ''integer''),
               (''minimum'', JNumber ''1''),
               (''maximum'', JNumber ''512''),
               (''default'', JNumber ''32'')])],
           JObject [
             (''name'', JString ''max_holds''),
             (''in'', JString ''query''),
             (''required'', JBool False),
             (''schema'', JObject [
               (''type'', JString ''integer''),
               (''minimum'', JNumber ''1''),
               (''maximum'', JNumber ''1024''),
               (''default'', JNumber ''64'')])]]),
         (''responses'', JObject [
           (''200'', JObject [
             (''description'', JString ''Current coordination plan''),
             (''content'', JObject [
               (''application/json'', JObject [(''schema'', JObject [(''$ref'', JString ''#/components/schemas/CoordinationPlan'')])])])]),
           (''400'', JObject [
             (''description'', JString ''Planning query was malformed, unknown, duplicated, zero, or above its server cap'')]),
           (''401'', JObject [(''description'', JString ''Read API authentication failed'')]),
           (''500'', JObject [(''description'', JString ''The configured planning policy could not produce a plan'')])])])]"

definition explorer_path :: "json \<Rightarrow> json" where
  "explorer_path read_security =
     JObject [
       (''get'', JObject [
         (''summary'', JString ''Read the bounded operator explorer projection''),
         (''description'', JString ''Returns sorted agents, retained sessions, recent timeline events, lessons, cache pressure, counters, and explicit retention omissions from one coherent snapshot. The endpoint is read-only.''),
         (''security'', read_security),
         (''parameters'', JArray [
           JObject [
             (''name'', JString ''timeline_limit''),
             (''in'', JString ''query''),
             (''required'', JBool False),
             (''schema'', JObject [
               (''type'', JString ''integer''),
               (''minimum'', JNumber ''1''),
               (''maximum'', JNumber ''250''),
               (''default'', JNumber ''100'')])],
           JObject [
             (''name'', JString ''session_limit''),
             (''in'', JString ''query''),
             (''required'', JBool False),
             (''schema'', JObject [
               (''type'', JString ''integer''),
               (''minimum'', JNumber ''1''),
               (''maximum'', JNumber ''250''),
               (''default'', JNumber ''100'')])],
           JObject [
             (''name'', JString ''lesson_limit''),
             (''in'', JString ''query''),
             (''required'', JBool False),
             (''schema'', JObject [
               (''type'', JString ''integer''),
               (''minimum'', JNumber ''1''),
               (''maximum'', JNumber ''1000''),
               (''default'', JNumber ''250'')])]]),
         (''responses'', JObject [
           (''200'', JObject [
             (''description'', JString ''Current operator explorer projection''),
             (''content'', JObject [
               (''application/json'', JObject [(''schema'', JObject [(''$ref'', JString ''#/components/schemas/ExplorerSnapshot'')])])])]),
           (''400'', JObject [
             (''description'', JString ''Explorer query was malformed, unknown, duplicated, zero, or above its server cap'')]),
           (''401'', JObject [(''description'', JString ''Read API authentication failed'')]),
           (''500'', JObject [(''description'', JString ''The explorer projection could not be produced'')])])])]"

definition metacognition_path :: "json \<Rightarrow> json" where
  "metacognition_path read_security =
     JObject [
       (''get'', JObject [
         (''summary'', JString ''Read the current explainable metacognition projection''),
         (''description'', JString ''Returns deterministic diagnostics, evidence-backed progress, critical paths, stalls, retry loops, and recommended actions derived only from visible retained state.''),
         (''security'', read_security),
         (''responses'', JObject [
           (''200'', JObject [
             (''description'', JString ''Current metacognition projection''),
             (''content'', JObject [
               (''application/json'', JObject [(''schema'', JObject [(''$ref'', JString ''#/components/schemas/MetacognitionSnapshot'')])])])]),
           (''401'', JObject [(''description'', JString ''Read API authentication failed'')])])])]"

definition snapshot_path :: "json \<Rightarrow> json" where
  "snapshot_path read_security =
     JObject [
       (''get'', JObject [
         (''summary'', JString ''Read the current bounded in-memory projection''),
         (''security'', read_security),
         (''responses'', JObject [
           (''200'', JObject [
             (''description'', JString ''Current state''),
             (''content'', JObject [
               (''application/json'', JObject [(''schema'', JObject [(''$ref'', JString ''#/components/schemas/Snapshot'')])])])]),
           (''401'', JObject [(''description'', JString ''Read API authentication failed'')])])])]"

definition ws_agent_path :: "json \<Rightarrow> json" where
  "ws_agent_path ingestion_security =
     JObject [
       (''get'', JObject [
         (''summary'', JString ''WebSocket agent ingestion''),
         (''description'', JString ''Authenticate during the WebSocket upgrade with a Bearer header or token query parameter, then send EventEnvelope JSON messages.''),
         (''security'', ingestion_security)])]"

definition ws_ui_path :: "json" where
  "ws_ui_path =
     JObject [
       (''get'', JObject [
         (''summary'', JString ''Live projection invalidation stream''),
         (''description'', JString ''Emits an authenticated handshake followed by StoreUpdate messages; clients refetch the snapshot after each update. When read protection is enabled, the first client message must be JSON with a token field.'')])]"

definition healthz_path :: "json" where
  "healthz_path =
     JObject [
       (''get'', JObject [
         (''summary'', JString ''Liveness probe''),
         (''responses'', JObject [(''200'', JObject [(''description'', JString ''Alive'')])])])]"

definition readyz_path :: "json" where
  "readyz_path =
     JObject [
       (''get'', JObject [
         (''summary'', JString ''Readiness probe''),
         (''responses'', JObject [(''200'', JObject [(''description'', JString ''Ready'')])])])]"

definition metrics_path :: "json \<Rightarrow> json" where
  "metrics_path read_security =
     JObject [
       (''get'', JObject [
         (''summary'', JString ''Prometheus text exposition''),
         (''security'', read_security),
         (''responses'', JObject [(''200'', JObject [(''description'', JString ''Metrics'')])])])]"

section \<open>Components\<close>

definition agent_ref_schema :: "json" where
  "agent_ref_schema =
     JObject [
       (''type'', JString ''object''),
       (''additionalProperties'', JBool False),
       (''required'', JArray [JString ''agent_id'', JString ''provider'', JString ''model'']),
       (''properties'', JObject [
         (''agent_id'', JObject [(''type'', JString ''string''), (''minLength'', JNumber ''1''), (''maxLength'', JNumber ''256'')]),
         (''provider'', JObject [(''type'', JString ''string''), (''minLength'', JNumber ''1''), (''maxLength'', JNumber ''128'')]),
         (''model'', JObject [(''type'', JString ''string''), (''minLength'', JNumber ''1''), (''maxLength'', JNumber ''256'')]),
         (''instance_id'', JObject [(''type'', JArray [JString ''string'', JString ''null'']), (''maxLength'', JNumber ''256'')])])]"

definition event_envelope_schema :: "json" where
  "event_envelope_schema =
     JObject [
       (''type'', JString ''object''),
       (''additionalProperties'', JBool True),
       (''required'', JArray [
         JString ''protocol_version'',
         JString ''event_id'',
         JString ''occurred_at'',
         JString ''agent'',
         JString ''kind'',
         JString ''data'']),
       (''properties'', JObject [
         (''protocol_version'', JObject [(''const'', JString ''v1'')]),
         (''event_id'', JObject [(''type'', JString ''string''), (''format'', JString ''uuid'')]),
         (''occurred_at'', JObject [(''type'', JString ''string''), (''format'', JString ''date-time'')]),
         (''agent'', JObject [(''$ref'', JString ''#/components/schemas/AgentRef'')]),
         (''session_id'', JObject [(''type'', JArray [JString ''string'', JString ''null''])]),
         (''correlation_id'', JObject [(''type'', JArray [JString ''string'', JString ''null''])]),
         (''sequence'', JObject [(''type'', JArray [JString ''integer'', JString ''null'']), (''minimum'', JNumber ''0'')]),
         (''kind'', JObject [(''type'', JString ''string''), (''enum'', JArray (map JString EVENT_KINDS))]),
         (''data'', JObject [
           (''type'', JString ''object''),
           (''description'', JString ''Payload selected by kind. See docs/protocol.md for every event shape.'')])])]"

definition transport_frame_schema :: "json" where
  "transport_frame_schema =
     JObject [
       (''type'', JString ''object''),
       (''required'', JArray [JString ''event'']),
       (''properties'', JObject [
         (''token'', JObject [(''type'', JArray [JString ''string'', JString ''null'']), (''writeOnly'', JBool True)]),
         (''event'', JObject [(''$ref'', JString ''#/components/schemas/EventEnvelope'')])])]"

definition ingest_ack_schema :: "json" where
  "ingest_ack_schema =
     JObject [
       (''type'', JString ''object''),
       (''required'', JArray [
         JString ''accepted'',
         JString ''duplicate'',
         JString ''event_id'',
         JString ''revision'',
         JString ''transport'',
         JString ''received_at'']),
       (''properties'', JObject [
         (''accepted'', JObject [(''type'', JString ''boolean'')]),
         (''duplicate'', JObject [(''type'', JString ''boolean'')]),
         (''event_id'', JObject [(''type'', JString ''string''), (''format'', JString ''uuid'')]),
         (''revision'', JObject [(''type'', JString ''integer''), (''minimum'', JNumber ''0'')]),
         (''transport'', JObject [
           (''type'', JString ''string''),
           (''enum'', JArray [JString ''http'', JString ''websocket'', JString ''tcp'', JString ''udp''])]),
         (''received_at'', JObject [(''type'', JString ''string''), (''format'', JString ''date-time'')])])]"

definition snapshot_schema :: "json" where
  "snapshot_schema =
     JObject [
       (''type'', JString ''object''),
       (''description'', JString ''Bounded LRU projection containing agents, goals, tasks, lessons, recent events, an independent idempotency window, counters, and cache pressure.'')]"

definition explorer_snapshot_schema :: "json" where
  "explorer_snapshot_schema =
     JObject [
       (''type'', JString ''object''),
       (''description'', JString ''Read-only bounded operator projection containing sorted agents, retained session summaries, timeline events, lessons, system pressure, counters, policy, and explicit omission counts.'')]"

definition metacognition_snapshot_schema :: "json" where
  "metacognition_snapshot_schema =
     JObject [
       (''type'', JString ''object''),
       (''description'', JString ''Deterministic read-only projection of visible progress, evidence, dependency, retry, stall, and consistency diagnostics.'')]"

definition coordination_plan_schema :: "json" where
  "coordination_plan_schema =
     JObject [
       (''type'', JString ''object''),
       (''description'', JString ''Deterministic read-only plan containing bounded assignments, interventions, held tasks, planning policies, and source-event provenance.'')]"

definition security_schemes :: "json" where
  "security_schemes =
     JObject [
       (''bearerAuth'', JObject [(''type'', JString ''http''), (''scheme'', JString ''bearer''), (''bearerFormat'', JString ''opaque'')])]"

section \<open>The document\<close>

definition transports_note :: "(SocketAddr \<Rightarrow> string) \<Rightarrow> BoundAddresses \<Rightarrow> json" where
  "transports_note addr_str a =
     JObject [
       (''http'', JString ''/api/v1/events''),
       (''websocket'', JString ''/ws/agent''),
       (''tcp_ndjson'', JString (''<daemon-host>:'' @ dec_nat (unat (SocketAddr.port (tcp a))))),
       (''udp_json'', JString (''<daemon-host>:'' @ dec_nat (unat (SocketAddr.port (udp a))))),
       (''udp_policy'', JString ''heartbeat, progress_updated, reflection_recorded, error_observed, and agent_status_changed only''),
       (''bound_addresses'', JObject [
         (''http'', JString (addr_str (http a))),
         (''tcp'', JString (addr_str (tcp a))),
         (''udp'', JString (addr_str (udp a)))])]"

definition info_note :: "string \<Rightarrow> json" where
  "info_note version =
     JObject [
       (''title'', JString ''Meta-Agent Control Plane API''),
       (''version'', JString version),
       (''description'', JString ''Provider-neutral telemetry for observable agent goals, tasks, progress, explicit reflection, and learned lessons. The protocol intentionally excludes hidden chain-of-thought.'')]"

definition document_paths :: "json \<Rightarrow> json \<Rightarrow> (string \<times> json) list" where
  "document_paths ingestion_security read_security =
     [(''/api/v1/events'', events_path ingestion_security),
      (''/api/v1/coordination'', coordination_path read_security),
      (''/api/v1/explorer'', explorer_path read_security),
      (''/api/v1/metacognition'', metacognition_path read_security),
      (''/api/v1/snapshot'', snapshot_path read_security),
      (''/ws/agent'', ws_agent_path ingestion_security),
      (''/ws/ui'', ws_ui_path),
      (''/healthz'', healthz_path),
      (''/readyz'', readyz_path),
      (''/metrics'', metrics_path read_security)]"

definition document_schemas :: "(string \<times> json) list" where
  "document_schemas =
     [(''AgentRef'', agent_ref_schema),
      (''EventEnvelope'', event_envelope_schema),
      (''TransportFrame'', transport_frame_schema),
      (''IngestAck'', ingest_ack_schema),
      (''Snapshot'', snapshot_schema),
      (''ExplorerSnapshot'', explorer_snapshot_schema),
      (''MetacognitionSnapshot'', metacognition_snapshot_schema),
      (''CoordinationPlan'', coordination_plan_schema)]"

definition document :: "string \<Rightarrow> (SocketAddr \<Rightarrow> string) \<Rightarrow> BoundAddresses \<Rightarrow> bool \<Rightarrow> bool \<Rightarrow> json" where
  "document version addr_str a ingestion_protected reads_protected =
     (let ingestion_security = security_requirement ingestion_protected;
          read_security = security_requirement reads_protected
      in JObject
        [(''openapi'', JString ''3.1.0''),
         (''info'', info_note version),
         (''servers'', JArray [JObject [(''url'', JString ''/''), (''description'', JString ''Same-origin daemon API'')]]),
         (''paths'', JObject (document_paths ingestion_security read_security)),
         (''components'', JObject [(''securitySchemes'', security_schemes), (''schemas'', JObject document_schemas)]),
         (''x-meta-agent-transports'', transports_note addr_str a),
         (''x-meta-agent-event-kinds'', JArray (map JString EVENT_KINDS)),
         (''x-meta-agent-udp-event-kinds'', JArray (map JString UDP_EVENT_KINDS))])"

section \<open>Reading the document\<close>

definition json_member :: "string \<Rightarrow> json \<Rightarrow> json option" where
  "json_member key v = (case v of JObject ms \<Rightarrow> map_of ms key | _ \<Rightarrow> None)"

text \<open>The operation of a path: its description under the lower-case name of the method.\<close>

definition documented_operation :: "string \<Rightarrow> string \<Rightarrow> json \<Rightarrow> json option" where
  "documented_operation verb path doc =
     Option.bind (json_member ''paths'' doc) (\<lambda>ps. Option.bind (json_member path ps) (json_member verb))"

text \<open>Whether an operation is described as needing a bearer token: its security requirements are not empty.\<close>

definition documented_protected :: "json \<Rightarrow> bool" where
  "documented_protected operation = (case json_member ''security'' operation of Some (JArray (_ # _)) \<Rightarrow> True | _ \<Rightarrow> False)"

end
