(* ===== verification/Serve.thy ===== *)
theory Serve
  imports Ingress
begin

text \<open>
  The accept loop of \<open>src/tcp.rs\<close> with its connection limit and its shutdown, as a labelled state
  machine. The semaphore of \<open>tokio\<close> is third-party code: its operations are the record
  \<open>semaphore_api\<close> and its documented behaviour the locale \<open>semaphore\<close>. A connection task is known by
  the number of its accepted connection. It is opening its socket, waiting for a frame or the cancellation, or
  writing a reply, which nothing interrupts; what it does with a frame is in \<open>Ingress\<close>. The cancellation token of a connection is a
  child of the one of the loop, so one flag stands for both. A task gives its permit back when it ends, and the
  join set yields ended tasks one by one.
\<close>

section \<open>The semaphore\<close>

record 's semaphore_api =
  sem_new :: "nat \<Rightarrow> 's option"
  sem_try_acquire :: "'s \<Rightarrow> 's option"
  sem_release :: "'s \<Rightarrow> 's"

text \<open>
  \<open>available\<close> is the number of free permits; more permits than the largest supported number make
  the constructor panic. An acquisition fails exactly when no permit is free.
\<close>

definition MAX_PERMITS :: nat where "MAX_PERMITS = 2 ^ 61 - 1"

locale semaphore =
  fixes S :: "'s semaphore_api" and available :: "'s \<Rightarrow> nat"
  assumes new: "sem_new S n = Some l \<Longrightarrow> available l = n"
    and new_panics: "sem_new S n = None \<longleftrightarrow> n > MAX_PERMITS"
    and acquire_fails: "sem_try_acquire S l = None \<longleftrightarrow> available l = 0"
    and acquire: "sem_try_acquire S l = Some l' \<Longrightarrow> available l = Suc (available l')"
    and release: "available (sem_release S l) = Suc (available l)"

definition counter_semaphore :: "nat semaphore_api" where
  "counter_semaphore =
     \<lparr>sem_new = (\<lambda>n. if n > MAX_PERMITS then None else Some n),
      sem_try_acquire = (\<lambda>l. case l of 0 \<Rightarrow> None | Suc k \<Rightarrow> Some k), sem_release = Suc\<rparr>"

interpretation counter: semaphore counter_semaphore id
  by unfold_locales (auto simp: counter_semaphore_def split: if_splits nat.splits)

section \<open>The accept loop\<close>

datatype serve_phase = Accepting | Draining | Stopped | ListenerFailed

datatype connection_phase = Opening | Reading | Replying

record 's TcpServer =
  limiter :: 's
  running :: "nat list"
  activity :: "nat \<Rightarrow> connection_phase"
  ended :: "nat list"
  next_connection :: nat
  cancelled :: bool
  phase :: serve_phase

datatype serve_event =
    Spawned nat
  | Refused
  | AcceptFailed
  | CancelRequested
  | Opened nat
  | OpenFailed nat
  | FrameArrived nat
  | PeerClosed nat
  | ConnectionCancelled nat
  | ReplyWritten nat
  | WriteFailed nat
  | Aborted nat
  | Joined nat
  | LoopCancelled
  | ServeReturned

definition serve_start :: "'s semaphore_api \<Rightarrow> nat \<Rightarrow> 's TcpServer option" where
  "serve_start S max_connections =
     map_option (\<lambda>l. \<lparr>limiter = l, running = [], activity = (\<lambda>_. Opening), ended = [], next_connection = 0, cancelled = False,
       phase = Accepting\<rparr>) (sem_new S max_connections)"

text \<open>The end of a connection task: its permit is released, and the join set, if the loop still has it, holds its result.\<close>

definition finish :: "'s semaphore_api \<Rightarrow> nat \<Rightarrow> 's TcpServer \<Rightarrow> 's TcpServer" where
  "finish S i s = s\<lparr>limiter := sem_release S (limiter s), running := remove1 i (running s),
     ended := (if phase s = ListenerFailed then ended s else i # ended s)\<rparr>"

text \<open>
  The steps of \<open>serve\<close> and of its connections. While it accepts, the loop takes a permit for a new connection
  and spawns its task or, without a permit, drops the connection; a failing listener ends the loop with its
  error, which drops the join set and so requests the abort of the tasks; ended tasks are joined; once the
  token is cancelled the loop may stop accepting. Then the remaining tasks are joined, and \<open>serve\<close> returns when none is left.
  A connection sets up its socket, waits for a frame, the end of the stream or the cancellation, and writes
  one reply for each frame.
\<close>

inductive serve_step :: "'s semaphore_api \<Rightarrow> 's TcpServer \<Rightarrow> serve_event \<Rightarrow> 's TcpServer \<Rightarrow> bool" for S where
  spawn: "phase s = Accepting \<Longrightarrow> sem_try_acquire S (limiter s) = Some l \<Longrightarrow>
    serve_step S s (Spawned (next_connection s))
      (s\<lparr>limiter := l, running := next_connection s # running s, activity := (activity s)(next_connection s := Opening),
         next_connection := Suc (next_connection s)\<rparr>)"
| refuse: "phase s = Accepting \<Longrightarrow> sem_try_acquire S (limiter s) = None \<Longrightarrow> serve_step S s Refused s"
| accept_error: "phase s = Accepting \<Longrightarrow> serve_step S s AcceptFailed (s\<lparr>ended := [], phase := ListenerFailed\<rparr>)"
| cancel: "\<not> cancelled s \<Longrightarrow> serve_step S s CancelRequested (s\<lparr>cancelled := True\<rparr>)"
| opened: "i \<in> set (running s) \<Longrightarrow> activity s i = Opening \<Longrightarrow>
    serve_step S s (Opened i) (s\<lparr>activity := (activity s)(i := Reading)\<rparr>)"
| open_error: "i \<in> set (running s) \<Longrightarrow> activity s i = Opening \<Longrightarrow> serve_step S s (OpenFailed i) (finish S i s)"
| frame: "i \<in> set (running s) \<Longrightarrow> activity s i = Reading \<Longrightarrow>
    serve_step S s (FrameArrived i) (s\<lparr>activity := (activity s)(i := Replying)\<rparr>)"
| peer_closed: "i \<in> set (running s) \<Longrightarrow> activity s i = Reading \<Longrightarrow> serve_step S s (PeerClosed i) (finish S i s)"
| connection_cancelled: "i \<in> set (running s) \<Longrightarrow> activity s i = Reading \<Longrightarrow> cancelled s \<Longrightarrow>
    serve_step S s (ConnectionCancelled i) (finish S i s)"
| reply: "i \<in> set (running s) \<Longrightarrow> activity s i = Replying \<Longrightarrow>
    serve_step S s (ReplyWritten i) (s\<lparr>activity := (activity s)(i := Reading)\<rparr>)"
| write_error: "i \<in> set (running s) \<Longrightarrow> activity s i = Replying \<Longrightarrow> serve_step S s (WriteFailed i) (finish S i s)"
| abort: "phase s = ListenerFailed \<Longrightarrow> i \<in> set (running s) \<Longrightarrow> serve_step S s (Aborted i) (finish S i s)"
| join: "phase s \<in> {Accepting, Draining} \<Longrightarrow> i \<in> set (ended s) \<Longrightarrow>
    serve_step S s (Joined i) (s\<lparr>ended := remove1 i (ended s)\<rparr>)"
| stop_accepting: "phase s = Accepting \<Longrightarrow> cancelled s \<Longrightarrow> serve_step S s LoopCancelled (s\<lparr>phase := Draining\<rparr>)"
| return: "phase s = Draining \<Longrightarrow> running s = [] \<Longrightarrow> ended s = [] \<Longrightarrow> serve_step S s ServeReturned (s\<lparr>phase := Stopped\<rparr>)"

inductive_cases refusedE: "serve_step S s Refused t"
inductive_cases spawnedE: "serve_step S s (Spawned i) t"

inductive serve_reachable :: "'s semaphore_api \<Rightarrow> nat \<Rightarrow> 's TcpServer \<Rightarrow> bool" for S n where
  start: "serve_start S n = Some s \<Longrightarrow> serve_reachable S n s"
| step: "serve_reachable S n s \<Longrightarrow> serve_step S s e t \<Longrightarrow> serve_reachable S n t"

section \<open>The limit\<close>

definition serve_inv :: "('s \<Rightarrow> nat) \<Rightarrow> nat \<Rightarrow> 's TcpServer \<Rightarrow> bool" where
  "serve_inv available n s \<longleftrightarrow>
     available (limiter s) + length (running s) = n \<and> distinct (running s @ ended s) \<and>
     (\<forall>i \<in> set (running s @ ended s). i < next_connection s) \<and>
     (phase s = Stopped \<longrightarrow> running s = [] \<and> ended s = []) \<and> (phase s = ListenerFailed \<longrightarrow> ended s = []) \<and>
     (phase s \<in> {Draining, Stopped} \<longrightarrow> cancelled s)"

lemma length_running_end: "i \<in> set xs \<Longrightarrow> length xs = Suc (length (remove1 i xs))"
  by (induction xs) auto

context semaphore
begin

lemma serve_start_inv: "serve_start S n = Some s \<Longrightarrow> serve_inv available n s"
  by (auto simp: serve_start_def serve_inv_def new)

lemma finish_inv: "serve_inv available n s \<Longrightarrow> i \<in> set (running s) \<Longrightarrow> serve_inv available n (finish S i s)"
  by (auto simp: finish_def serve_inv_def release length_running_end [of i "running s"] distinct_remove1
      dest: set_mp [OF set_remove1_subset])

lemma serve_step_inv:
  assumes "serve_step S s e t" and "serve_inv available n s"
  shows "serve_inv available n t"
  using assms
proof cases
  case (spawn l)
  with assms(2) show ?thesis by (auto simp: serve_inv_def acquire less_Suc_eq)
next
  case (join i)
  with assms(2) show ?thesis by (auto simp: serve_inv_def distinct_remove1 dest: set_mp [OF set_remove1_subset])
qed (use assms(2) in \<open>simp_all add: finish_inv\<close>, simp_all add: serve_inv_def)

lemma serve_reachable_inv: "serve_reachable S n s \<Longrightarrow> serve_inv available n s"
  by (induction rule: serve_reachable.induct) (auto intro: serve_start_inv serve_step_inv)

lemma refused_iff:
  assumes "serve_inv available n s"
  shows "(\<exists>t. serve_step S s Refused t) \<longleftrightarrow> phase s = Accepting \<and> length (running s) = n"
  using assms acquire_fails [of "limiter s"] by (auto simp: serve_inv_def intro: refuse elim!: refusedE)

end

text \<open>
  C28. The connection limit holds. In every state the accept loop can reach, at most the configured number of
  connections is served, the permits that are not free are exactly those of the running
  connections, no connection is served twice, a new connection is refused exactly while the limit is
  reached, and when the loop has returned after a cancellation no connection is left. When it has returned
  because the listener failed, no connection is added, and every connection that still runs is about to be aborted.
\<close>
theorem tcp_connections_are_limited:
  assumes "semaphore S available" and "serve_reachable S n s"
  shows "length (running s) \<le> n \<and> available (limiter s) = n - length (running s) \<and> distinct (running s @ ended s) \<and>
    ((\<exists>t. serve_step S s Refused t) \<longleftrightarrow> phase s = Accepting \<and> length (running s) = n) \<and>
    (phase s = Stopped \<longrightarrow> running s = []) \<and>
    (phase s = ListenerFailed \<longrightarrow>
      (\<forall>i \<in> set (running s). \<exists>t. serve_step S s (Aborted i) t) \<and> \<not> (\<exists>i t. serve_step S s (Spawned i) t))"
  using semaphore.serve_reachable_inv [OF assms] semaphore.refused_iff [OF assms(1), of n s]
  by (auto simp: serve_inv_def intro: abort elim: spawnedE)

section \<open>Shutdown\<close>

text \<open>A run along a list of events, the frames it reads, and the steps that need nothing from a peer.\<close>

fun serve_run :: "'s semaphore_api \<Rightarrow> 's TcpServer \<Rightarrow> serve_event list \<Rightarrow> 's TcpServer \<Rightarrow> bool" where
  "serve_run S s [] t \<longleftrightarrow> t = s"
| "serve_run S s (e # es) t \<longleftrightarrow> (\<exists>u. serve_step S s e u \<and> serve_run S u es t)"

definition is_frame :: "serve_event \<Rightarrow> bool" where
  "is_frame e \<longleftrightarrow> (\<exists>i. e = FrameArrived i)"

definition own_step :: "serve_event \<Rightarrow> bool" where
  "own_step e \<longleftrightarrow> (\<exists>i. e \<in> {Opened i, ConnectionCancelled i, Joined i, ServeReturned})"

text \<open>What is left to do once the loop no longer accepts.\<close>

fun connection_work :: "connection_phase \<Rightarrow> nat" where
  "connection_work Opening = 3"
| "connection_work Reading = 2"
| "connection_work Replying = 3"

definition drain_measure :: "'s TcpServer \<Rightarrow> nat" where
  "drain_measure s = (\<Sum>i\<leftarrow>running s. connection_work (activity s i)) + length (ended s) + (if phase s = Draining then 1 else 0)"

lemma drain_measure_le: "drain_measure s \<le> 3 * length (running s) + length (ended s) + 1"
proof -
  have "(\<Sum>i\<leftarrow>xs. connection_work (activity s i)) \<le> 3 * length xs" for xs
  proof (induction xs)
    case (Cons i xs)
    then show ?case by (cases "activity s i") simp_all
  qed simp
  from this [of "running s"] show ?thesis by (simp add: drain_measure_def)
qed

lemma work_remove:
  "i \<in> set xs \<Longrightarrow> (\<Sum>j\<leftarrow>xs. f j) = f i + (\<Sum>j\<leftarrow>remove1 i xs. f j :: nat)"
  by (rule sum_list_map_remove1)

lemma work_update:
  assumes "i \<in> set xs" "distinct xs"
  shows "(\<Sum>j\<leftarrow>xs. connection_work ((act(i := p)) j)) + connection_work (act i) = (\<Sum>j\<leftarrow>xs. connection_work (act j)) + connection_work p"
proof -
  have "(\<Sum>j\<leftarrow>remove1 i xs. connection_work ((act(i := p)) j)) = (\<Sum>j\<leftarrow>remove1 i xs. connection_work (act j))"
    using assms(2) by (intro arg_cong [of _ _ sum_list] map_cong) auto
  then show ?thesis
    using work_remove [OF assms(1), of "\<lambda>j. connection_work ((act(i := p)) j)"] work_remove [OF assms(1), of "\<lambda>j. connection_work (act j)"]
    by simp
qed

lemma finish_measure:
  assumes "i \<in> set (running s)" "phase s = Draining"
  shows "drain_measure (finish S i s) < drain_measure s"
proof -
  have "2 \<le> connection_work (activity s i)" by (cases "activity s i") simp_all
  with assms show ?thesis
    using work_remove [OF assms(1), of "\<lambda>j. connection_work (activity s j)"] by (simp add: drain_measure_def finish_def)
qed

lemma finish_phase [simp]: "phase (finish S i s) = phase s" "cancelled (finish S i s) = cancelled s" "activity (finish S i s) = activity s"
  by (simp_all add: finish_def)

context semaphore
begin

lemma drain_decreases:
  assumes step: "serve_step S s e t" and "phase s = Draining" and inv: "serve_inv available n s"
  shows "drain_measure t + 1 \<le> drain_measure s + (if is_frame e then 2 else 0) \<and> phase t \<in> {Draining, Stopped} \<and> (\<forall>i. e \<noteq> Spawned i)"
proof -
  have d: "distinct (running s)" using inv by (simp add: serve_inv_def)
  have act: "drain_measure (s\<lparr>activity := (activity s)(i := p)\<rparr>) + connection_work (activity s i) = drain_measure s + connection_work p"
    if "i \<in> set (running s)" for i p
    using work_update [OF that d, of "activity s" p] by (simp add: drain_measure_def)
  have fin: "Suc (drain_measure (finish S i s)) \<le> drain_measure s" if "i \<in> set (running s)" for i
    using finish_measure [OF that assms(2), of S] by simp
  show ?thesis
    using step
  proof cases
    case (opened i)
    with act [of i Reading] assms(2) show ?thesis by (simp add: is_frame_def)
  next
    case (frame i)
    with act [of i Replying] assms(2) show ?thesis by (simp add: is_frame_def)
  next
    case (reply i)
    with act [of i Reading] assms(2) show ?thesis by (simp add: is_frame_def)
  next
    case (join i)
    with length_running_end [of i "ended s"] assms(2) show ?thesis by (simp add: is_frame_def drain_measure_def)
  next
    case return
    with assms(2) show ?thesis by (simp add: is_frame_def drain_measure_def)
  qed (use assms(2) inv in \<open>simp_all add: is_frame_def serve_inv_def fin\<close>)
qed

text \<open>While the loop drains, it can take a step of its own unless every running connection is writing a reply.\<close>

lemma drain_progress:
  assumes "phase s = Draining" and inv: "serve_inv available n s"
  shows "(\<exists>e t. own_step e \<and> serve_step S s e t) \<or>
    running s \<noteq> [] \<and> ended s = [] \<and> (\<forall>i \<in> set (running s). activity s i = Replying)"
proof (cases "ended s = [] \<and> (\<forall>i \<in> set (running s). activity s i = Replying)")
  case True
  with assms(1) return [of s] show ?thesis by (cases "running s") (auto simp: own_step_def)
next
  case False
  then consider i where "i \<in> set (ended s)" | i where "i \<in> set (running s)" "activity s i = Opening"
    | i where "i \<in> set (running s)" "activity s i = Reading"
    by (metis connection_phase.exhaust list.set_intros(1) neq_Nil_conv)
  then have "\<exists>e t. own_step e \<and> serve_step S s e t"
  proof cases
    case (1 i)
    have "own_step (Joined i)" by (auto simp: own_step_def)
    moreover have "phase s \<in> {Accepting, Draining}" using assms(1) by simp
    ultimately show ?thesis using join [OF _ 1] by blast
  next
    case (2 i)
    have "own_step (Opened i)" by (auto simp: own_step_def)
    then show ?thesis using opened [OF 2] by blast
  next
    case (3 i)
    have "own_step (ConnectionCancelled i)" by (auto simp: own_step_def)
    moreover have "cancelled s" using assms by (simp add: serve_inv_def)
    ultimately show ?thesis using connection_cancelled [OF 3] by blast
  qed
  then show ?thesis ..
qed

lemma stopped_is_final:
  assumes "serve_inv available n s" "phase s = Stopped" shows "\<not> serve_step S s e t"
proof
  assume "serve_step S s e t"
  then show False using assms by cases (simp_all add: serve_inv_def)
qed

lemma drain_run:
  assumes "serve_inv available n s" "phase s \<in> {Draining, Stopped}" "serve_run S s es t"
  shows "serve_inv available n t \<and> phase t \<in> {Draining, Stopped} \<and> (\<forall>i. Spawned i \<notin> set es) \<and>
    drain_measure t + length es \<le> drain_measure s + 2 * length (filter is_frame es)"
  using assms
proof (induction es arbitrary: s)
  case (Cons e es)
  then obtain u where u: "serve_step S s e u" "serve_run S u es t" by auto
  with Cons.prems have s: "phase s = Draining" using stopped_is_final [OF Cons.prems(1)] by auto
  note one = drain_decreases [OF u(1) s Cons.prems(1)]
  from Cons.IH [OF serve_step_inv [OF u(1) Cons.prems(1)] _ u(2)] one show ?case by (auto split: if_splits)
qed simp

text \<open>Without a reply under way, the loop and its connections come to an end on their own.\<close>

lemma own_step_keeps:
  assumes "serve_step S s e t" "own_step e" "\<forall>i \<in> set (running s). activity s i \<noteq> Replying"
  shows "(\<forall>i \<in> set (running t). activity t i \<noteq> Replying) \<and> \<not> is_frame e"
  using assms by cases (auto simp: own_step_def is_frame_def finish_def dest: set_mp [OF set_remove1_subset])

lemma drain_stops:
  assumes "serve_inv available n s" "phase s = Draining" "\<forall>i \<in> set (running s). activity s i \<noteq> Replying"
  shows "\<exists>es t. serve_run S s es t \<and> list_all own_step es \<and> phase t = Stopped"
  using assms
proof (induction "drain_measure s" arbitrary: s rule: less_induct)
  case less
  obtain e t where e: "own_step e" "serve_step S s e t"
    using drain_progress [OF less.prems(2,1)] less.prems(3) by (metis list.set_intros(1) neq_Nil_conv)
  note keeps = own_step_keeps [OF e(2,1) less.prems(3)]
  have t: "drain_measure t < drain_measure s" "phase t = Draining \<or> phase t = Stopped"
    using drain_decreases [OF e(2) less.prems(2,1)] keeps by (auto split: if_splits)
  show ?case
  proof (cases "phase t = Stopped")
    case True
    with e show ?thesis by (intro exI [of _ "[e]"] exI [of _ t]) simp
  next
    case False
    with less.hyps [OF t(1) serve_step_inv [OF e(2) less.prems(1)]] t(2) keeps obtain es u where
      "serve_run S t es u" "list_all own_step es" "phase u = Stopped" by blast
    with e show ?thesis by (intro exI [of _ "e # es"] exI [of _ u]) auto
  qed
qed

text \<open>A reply that is not written keeps the loop from returning.\<close>

lemma reply_blocks_step:
  assumes "serve_step S s e t" "phase s = Draining" "i \<in> set (running s)" "activity s i = Replying" "e \<notin> {ReplyWritten i, WriteFailed i}"
  shows "phase t = Draining \<and> i \<in> set (running t) \<and> activity t i = Replying"
  using assms by cases (auto simp: finish_def intro!: in_set_remove1 [THEN iffD2])

lemma reply_blocks:
  assumes "serve_run S s es t" "phase s = Draining" "i \<in> set (running s)" "activity s i = Replying"
    "ReplyWritten i \<notin> set es" "WriteFailed i \<notin> set es"
  shows "phase t = Draining"
  using assms
proof (induction es arbitrary: s)
  case (Cons e es)
  then obtain u where u: "serve_step S s e u" "serve_run S u es t" by auto
  have "e \<notin> {ReplyWritten i, WriteFailed i}" using Cons.prems(5,6) by auto
  from reply_blocks_step [OF u(1) Cons.prems(2-4) this] Cons.IH [OF u(2)] Cons.prems(5,6) show ?case by simp
qed simp

end

text \<open>
  C29. The shutdown waits for replies only. Once the loop is cancelled and drains, no connection is added, and the number of
  steps is bounded by what is left to do and the frames that connections still read. In every state that it reaches before it has
  returned, it can take a step that needs nothing from a peer, the cancellation of a waiting connection among them, unless every
  connection that is left is writing a reply. If no connection is writing a reply it can return by such steps alone, with no
  connection left and every permit given back. But a connection whose reply is neither written nor fails, because the peer does
  not read, keeps it from returning: no cancellation and no time limit ends the write.
\<close>
theorem shutdown_waits_for_replies_only:
  assumes "semaphore S available" and "serve_reachable S n s" and "phase s = Draining"
  shows "(\<forall>es t. serve_run S s es t \<longrightarrow>
      length es \<le> 3 * length (running s) + length (ended s) + 1 + 2 * length (filter is_frame es) \<and> (\<forall>i. Spawned i \<notin> set es) \<and>
      (phase t = Stopped \<or> phase t = Draining \<and>
        ((\<exists>e u. own_step e \<and> serve_step S t e u) \<or>
         running t \<noteq> [] \<and> (\<forall>i \<in> set (running t). activity t i = Replying)))) \<and>
    ((\<forall>i \<in> set (running s). activity s i \<noteq> Replying) \<longrightarrow>
      (\<exists>es t. serve_run S s es t \<and> list_all own_step es \<and> phase t = Stopped \<and> running t = [] \<and> ended t = [] \<and> available (limiter t) = n)) \<and>
    (\<forall>i es t. i \<in> set (running s) \<and> activity s i = Replying \<and> serve_run S s es t \<and> ReplyWritten i \<notin> set es \<and> WriteFailed i \<notin> set es \<longrightarrow>
      phase t \<noteq> Stopped)"
proof (intro conjI allI impI)
  have inv: "serve_inv available n s" by (rule semaphore.serve_reachable_inv [OF assms(1,2)])
  fix es t assume run: "serve_run S s es t"
  note facts = semaphore.drain_run [OF assms(1) inv _ run]
  show "length es \<le> 3 * length (running s) + length (ended s) + 1 + 2 * length (filter is_frame es)"
    using facts drain_measure_le [of s] assms(3) by simp
  show "Spawned i \<notin> set es" for i using facts assms(3) by simp
  show "phase t = Stopped \<or> phase t = Draining \<and>
      ((\<exists>e u. own_step e \<and> serve_step S t e u) \<or> running t \<noteq> [] \<and> (\<forall>i \<in> set (running t). activity t i = Replying))"
    using facts semaphore.drain_progress [OF assms(1), of t n] assms(3) by blast
next
  have inv: "serve_inv available n s" by (rule semaphore.serve_reachable_inv [OF assms(1,2)])
  assume "\<forall>i \<in> set (running s). activity s i \<noteq> Replying"
  from semaphore.drain_stops [OF assms(1) inv assms(3) this] obtain es t where
    t: "serve_run S s es t" "list_all own_step es" "phase t = Stopped" by blast
  with semaphore.drain_run [OF assms(1) inv _ t(1)] assms(3) show
    "\<exists>es t. serve_run S s es t \<and> list_all own_step es \<and> phase t = Stopped \<and> running t = [] \<and> ended t = [] \<and> available (limiter t) = n"
    by (intro exI [of _ es] exI [of _ t]) (auto simp: serve_inv_def)
next
  fix i es t
  assume "i \<in> set (running s) \<and> activity s i = Replying \<and> serve_run S s es t \<and> ReplyWritten i \<notin> set es \<and> WriteFailed i \<notin> set es"
  with semaphore.reply_blocks [OF assms(1), of s es t i] assms(3) show "phase t \<noteq> Stopped" by simp
qed

definition demo_server :: "nat TcpServer" where
  "demo_server = \<lparr>limiter = 1, running = [0], activity = (\<lambda>_. Opening), ended = [], next_connection = 1, cancelled = True, phase = Draining\<rparr>"

lemma demo_server_reachable: "serve_reachable counter_semaphore 2 demo_server" "phase demo_server = Draining"
proof -
  let ?s0 = "\<lparr>limiter = 2, running = [], activity = (\<lambda>_. Opening), ended = [], next_connection = 0, cancelled = False, phase = Accepting\<rparr> :: nat TcpServer"
  let ?s1 = "?s0\<lparr>limiter := 1, running := [0], next_connection := 1\<rparr>"
  have "serve_reachable counter_semaphore 2 ?s0"
    by (rule serve_reachable.start) (simp add: serve_start_def counter_semaphore_def MAX_PERMITS_def)
  moreover have "serve_step counter_semaphore ?s0 (Spawned 0) ?s1"
    using serve_step.spawn [of ?s0 counter_semaphore 1] by (simp add: counter_semaphore_def fun_upd_idem)
  moreover have "serve_step counter_semaphore ?s1 CancelRequested (?s1\<lparr>cancelled := True\<rparr>)"
    by (rule serve_step.cancel) simp
  moreover have "serve_step counter_semaphore (?s1\<lparr>cancelled := True\<rparr>) LoopCancelled demo_server"
    using serve_step.stop_accepting [of "?s1\<lparr>cancelled := True\<rparr>" counter_semaphore] by (simp add: demo_server_def)
  ultimately show "serve_reachable counter_semaphore 2 demo_server" by (blast intro: serve_reachable.step)
qed (simp add: demo_server_def)

theorem tcp_connections_are_limited_witness: "length (running demo_server) \<le> 2 \<and> limiter demo_server = 1"
  using tcp_connections_are_limited [OF counter.semaphore_axioms demo_server_reachable(1)] by (simp add: demo_server_def)

theorem shutdown_waits_for_replies_only_witness:
  "\<exists>es t. serve_run counter_semaphore demo_server es t \<and> list_all own_step es \<and> phase t = Stopped \<and> limiter t = 2"
proof -
  have "\<forall>i \<in> set (running demo_server). activity demo_server i \<noteq> Replying" by (simp add: demo_server_def)
  with shutdown_waits_for_replies_only [OF counter.semaphore_axioms demo_server_reachable, THEN conjunct2, THEN conjunct1] show ?thesis by auto
qed

end
