(* ===== verification/Web.thy ===== *)
theory Web
  imports Api UiStream OpenApi Serve
begin

text \<open>
  The HTTP surface as a whole: the route tables of every router with their layers (\<open>router\<close> of
  \<open>src/http.rs\<close> and of the \<open>_api.rs\<close> files), their composition (\<open>src/web.rs\<close>), the security
  headers, and the dispatch of a request to its handler.

  Routing belongs to \<open>axum\<close> and is modelled by its documented rules: a layer applies to the routes
  that exist when it is added, merging two routers keeps the layers of each and panics when both have a
  handler for the same method and path, and a route for GET also answers HEAD. A body over the limit of its
  route does not reach the decoder of the handler. Before the body of a handler runs, its extractors may reject the request: that
  of a WebSocket upgrade, whose verdict is part of the request, and that of the query with the token. Third-party functions are collected in the record \<open>Platform\<close>. The operator pages are
  static text and appear as the page with its protection label.
\<close>

section \<open>Routes\<close>

datatype http_method = GET | HEAD | POST | OtherMethod string

datatype endpoint =
    Index | Health | MetricsText | OpenApiDocument | SnapshotRead | EventsPost | AgentSocket | UiSocket
  | MetacognitionPage | MetacognitionRead | CoordinationPage | CoordinationRead | ExplorerPage | ExplorerRead | TimelineRead
  | RuntimePage | RuntimeRead | HookPost | CollectionPost | CommandPost | CommandPoll | CommandAck

record Layers =
  body_limit :: nat
  security_headers_layer :: bool
  permissive_cors :: bool

record Route =
  verb :: http_method
  path :: string
  target :: endpoint
  layers :: Layers

type_synonym Router = "Route list"

text \<open>The limit of \<open>axum\<close> for a body when no other is set.\<close>

definition AXUM_DEFAULT_BODY_LIMIT :: nat where "AXUM_DEFAULT_BODY_LIMIT = 2097152"

definition routes :: "(http_method \<times> string \<times> endpoint) list \<Rightarrow> Router" where
  "routes rs = map (\<lambda>(m, p, e). \<lparr>verb = m, path = p, target = e,
     layers = \<lparr>body_limit = AXUM_DEFAULT_BODY_LIMIT, security_headers_layer = False, permissive_cors = False\<rparr>\<rparr>) rs"

definition layer :: "(Layers \<Rightarrow> Layers) \<Rightarrow> Router \<Rightarrow> Router" where
  "layer f r = map (\<lambda>x. x\<lparr>layers := f (layers x)\<rparr>) r"

definition merge :: "Router \<Rightarrow> Router \<Rightarrow> Router option" where
  "merge r1 r2 =
     (if list_ex (\<lambda>x. list_ex (\<lambda>y. verb x = verb y \<and> path x = path y) r2) r1 then None else Some (r1 @ r2))"

definition http_router :: "Config \<Rightarrow> Router" where
  "http_router c =
     (let base = routes
        [(GET, ''/'', Index),
         (GET, ''/healthz'', Health),
         (GET, ''/readyz'', Health),
         (GET, ''/metrics'', MetricsText),
         (GET, ''/openapi.json'', OpenApiDocument),
         (GET, ''/api/v1/snapshot'', SnapshotRead),
         (POST, ''/api/v1/events'', EventsPost),
         (GET, ''/ws/agent'', AgentSocket),
         (GET, ''/ws/ui'', UiSocket)];
          limited = layer (\<lambda>l. l\<lparr>body_limit := max_payload_bytes c\<rparr>) base;
          secured = layer (\<lambda>l. l\<lparr>security_headers_layer := True\<rparr>) limited
      in if cors_any c then layer (\<lambda>l. l\<lparr>permissive_cors := True\<rparr>) secured else secured)"

definition metacognition_router :: Router where
  "metacognition_router = routes [(GET, ''/metacognition'', MetacognitionPage), (GET, ''/api/v1/metacognition'', MetacognitionRead)]"

definition coordination_router :: Router where
  "coordination_router = routes [(GET, ''/coordination'', CoordinationPage), (GET, ''/api/v1/coordination'', CoordinationRead)]"

definition explorer_router :: Router where
  "explorer_router = routes [(GET, ''/explorer'', ExplorerPage), (GET, ''/api/v1/explorer'', ExplorerRead)]"

definition timeline_router :: Router where
  "timeline_router = routes [(GET, ''/api/v1/timeline'', TimelineRead)]"

definition runtime_router :: Router where
  "runtime_router = routes
     [(GET, ''/runtime'', RuntimePage),
      (GET, ''/api/v1/runtime/snapshot'', RuntimeRead),
      (POST, ''/api/v1/runtime/hooks'', HookPost),
      (POST, ''/api/v1/runtime/collection'', CollectionPost),
      (POST, ''/api/v1/runtime/commands'', CommandPost),
      (POST, ''/api/v1/runtime/commands/poll'', CommandPoll),
      (POST, ''/api/v1/runtime/commands/ack'', CommandAck)]"

definition router_with_runtime :: "Config \<Rightarrow> Router option" where
  "router_with_runtime c =
     Option.bind (merge (http_router c) metacognition_router) (\<lambda>r1.
     Option.bind (merge r1 coordination_router) (\<lambda>r2.
     Option.bind (merge r2 explorer_router) (\<lambda>r3.
     Option.bind (merge r3 timeline_router) (\<lambda>r4. merge r4 runtime_router))))"

section \<open>Security headers\<close>

definition security_header_list :: "(string \<times> string) list" where
  "security_header_list =
     [(''content-security-policy'',
       ''default-src 'self'; script-src 'self' 'unsafe-inline'; style-src 'self' 'unsafe-inline'; connect-src 'self' ws: wss:; img-src 'self' data:; base-uri 'none'; frame-ancestors 'none'; form-action 'none'' @ [CHR 0x27]),
      (''x-content-type-options'', ''nosniff''),
      (''referrer-policy'', ''no-referrer''),
      (''permissions-policy'', ''camera=(), microphone=(), geolocation=()''),
      (''cross-origin-opener-policy'', ''same-origin'')]"

text \<open>\<open>HeaderMap::insert\<close>: the new value replaces every value of that name.\<close>

definition header_insert :: "string \<times> string \<Rightarrow> (string \<times> string) list \<Rightarrow> (string \<times> string) list" where
  "header_insert h hs = filter (\<lambda>x. fst x \<noteq> fst h) hs @ [h]"

definition security_headers :: "(string \<times> string) list \<Rightarrow> (string \<times> string) list" where
  "security_headers hs = fold header_insert security_header_list hs"

section \<open>Requests and responses\<close>

text \<open>What the handlers use of third-party code.\<close>

record Platform =
  p_ct_eq :: "string \<Rightarrow> string \<Rightarrow> bool"
  p_since :: "DateTime \<Rightarrow> DateTime \<Rightarrow> int"
  p_uuid_str :: "Uuid \<Rightarrow> string"
  p_simple :: "Uuid \<Rightarrow> string"
  p_parse_str :: "string \<Rightarrow> Uuid option"
  p_timestamp_opt :: "int \<Rightarrow> int \<Rightarrow> DateTime option"
  p_payload :: "string \<Rightarrow> string + TransportPayload"
  p_event :: "string \<Rightarrow> string + EventEnvelope"
  p_hook :: "string \<Rightarrow> string + RuntimeHookEnvelope"
  p_flag :: "string \<Rightarrow> string + bool"
  p_command :: "string \<Rightarrow> string + ControlCommandRequest"
  p_poll :: "string \<Rightarrow> string + string"
  p_ack :: "string \<Rightarrow> string + ControlCommandAck"
  p_version :: string
  p_addr_str :: "SocketAddr \<Rightarrow> string"

text \<open>
  A request with what its handling takes from the environment: the clock, a random identifier and the
  iteration orders of the hash maps. \<open>req_upgrade_rejection\<close> is the status with which \<open>WebSocketUpgrade\<close> rejects the request if it
  is not a proper upgrade (a wrong method, a missing header, a connection that cannot be upgraded), and \<open>req_query_rejected\<close>
  says whether \<open>Query\<close> cannot read the token parameter.
\<close>

record Request =
  req_verb :: http_method
  req_path :: string
  req_authorization :: header
  req_origin :: header
  req_host :: header
  req_query :: "string option"
  req_query_token :: "string option"
  req_query_rejected :: bool
  req_upgrade_rejection :: "nat option"
  req_body :: string
  req_now :: DateTime
  req_uuid :: Uuid
  req_agents :: "string list"
  req_pids :: "u32 list"

datatype answer =
    PageAnswer endpoint bool
  | HealthAnswer string string u64
  | TextAnswer string
  | DocumentAnswer json
  | SnapshotAnswer Snapshot
  | AckAnswer IngestAck
  | MetacognitionAnswer MetacognitionSnapshot
  | PlanAnswer CoordinationPlan
  | ExplorerAnswer ExplorerSnapshot
  | TimelineAnswer TimelinePage
  | RuntimeAnswer RuntimeSnapshot
  | HookAnswer HookAck
  | FlagAnswer bool
  | CommandAnswer ControlCommand
  | CommandsAnswer "ControlCommand list"
  | UpgradeAnswer
  | ErrorAnswer string
  | ExtractorRejection
  | NoRoute

text \<open>The state of a running daemon that the handlers share, with the number of open agent sockets.\<close>

record ('a, 'g, 't, 'l, 'e, 'i) AppState =
  store :: "('a, 'g, 't, 'l, 'e, 'i) StoreInner"
  monitor :: RuntimeMonitor
  auth :: AuthPolicy
  config :: Config
  addresses :: BoundAddresses
  agent_sockets :: nat

definition limited :: "Layers \<Rightarrow> (string \<Rightarrow> string + 'b) \<Rightarrow> string \<Rightarrow> string + 'b" where
  "limited l decode_body body = (if length body > body_limit l then Inl ''length limit exceeded'' else decode_body body)"

definition answered :: "('err \<Rightarrow> nat \<times> string \<times> string) \<Rightarrow> ('v \<Rightarrow> nat \<times> answer) \<Rightarrow> 'err + 'v \<Rightarrow> nat \<times> answer" where
  "answered err_response good r =
     (case r of Inl err \<Rightarrow> (case err_response err of (sc, ec, _) \<Rightarrow> (sc, ErrorAnswer ec)) | Inr v \<Rightarrow> good v)"

definition http_error :: "HttpApiError \<Rightarrow> nat \<times> string \<times> string" where
  "http_error err = (fst (http_error_response err), snd (http_error_response err), [])"

fun metacognition_error_response :: "MetacognitionApiError \<Rightarrow> nat \<times> string \<times> string" where
  "metacognition_error_response MetacognitionUnauthorized = (401, ''unauthorized'', ''Authentication failed'')"

section \<open>Dispatch\<close>

text \<open>
  The extractors that can reject a request before the handler runs, in the order of the parameters of \<open>agent_websocket\<close> and
  \<open>ui_websocket\<close>. All other handlers take their arguments in a form that cannot be rejected, or handle the rejection themselves.
\<close>

definition extractor_rejection :: "endpoint \<Rightarrow> Request \<Rightarrow> nat option" where
  "extractor_rejection e q =
     (case e of
        AgentSocket \<Rightarrow> (case req_upgrade_rejection q of Some sc \<Rightarrow> Some sc | None \<Rightarrow> if req_query_rejected q then Some 400 else None)
      | UiSocket \<Rightarrow> req_upgrade_rejection q
      | _ \<Rightarrow> None)"

text \<open>The bodies of the handlers that read, once the extractors have accepted the request.\<close>

definition read_handler ::
  "Platform \<Rightarrow> ('a, 'g, 't, 'l, 'e, 'i) caches \<Rightarrow> endpoint \<Rightarrow> Request \<Rightarrow> ('a, 'g, 't, 'l, 'e, 'i) AppState \<Rightarrow> nat \<times> answer" where
  "read_handler P E e q d =
     (let snap = snapshot E (req_now q) (store d); h = req_authorization q; p = auth d in
      case e of
        Health \<Rightarrow> (200, HealthAnswer ''ok'' (p_version P) (StoreInner.revision (store d)))
      | OpenApiDocument \<Rightarrow>
          (200, DocumentAnswer (document (p_version P) (p_addr_str P) (addresses d) (ingestion_is_protected p) (reads_are_protected p)))
      | MetricsText \<Rightarrow> answered http_error (\<lambda>t. (200, TextAnswer t)) (read_metrics (p_ct_eq P) E p h (store d))
      | SnapshotRead \<Rightarrow> answered http_error (\<lambda>s. (200, SnapshotAnswer s)) (read_snapshot (p_ct_eq P) E p h (req_now q) (store d))
      | MetacognitionRead \<Rightarrow>
          answered metacognition_error_response (\<lambda>m. (200, MetacognitionAnswer m)) (metacognition_api (p_ct_eq P) (p_since P) p h snap)
      | CoordinationRead \<Rightarrow>
          answered plan_error_response (\<lambda>x. (200, PlanAnswer x)) (plan_api (p_ct_eq P) (p_since P) p h (req_query q) snap)
      | ExplorerRead \<Rightarrow>
          answered explorer_error_response (\<lambda>x. (200, ExplorerAnswer x))
            (explorer_api (p_ct_eq P) (p_uuid_str P) (p_since P) p h (req_query q) snap)
      | TimelineRead \<Rightarrow>
          answered timeline_error_response (\<lambda>x. (200, TimelineAnswer x))
            (timeline_api (p_ct_eq P) (p_simple P) (p_parse_str P) (p_timestamp_opt P) p h (req_query q) snap)
      | RuntimeRead \<Rightarrow>
          answered runtime_error_response (\<lambda>x. (200, RuntimeAnswer x))
            (api_runtime_snapshot (p_ct_eq P) (req_agents q) (req_pids q) (req_now q) p h (monitor d))
      | UiSocket \<Rightarrow>
          if websocket_origin_allowed (req_origin q) (req_host q) (cors_any (config d)) then (101, UpgradeAnswer)
          else (403, ErrorAnswer ''forbidden'')
      | _ \<Rightarrow> (200, PageAnswer e (reads_are_protected p)))"

text \<open>The bodies of the handlers that write and of the upgrade of an agent socket, once the extractors have accepted the request.\<close>

definition write_handler ::
  "Platform \<Rightarrow> ('a, 'g, 't, 'l, 'e, 'i) caches \<Rightarrow> Layers \<Rightarrow> endpoint \<Rightarrow> Request \<Rightarrow> ('a, 'g, 't, 'l, 'e, 'i) AppState \<Rightarrow>
   (nat \<times> answer) \<times> ('a, 'g, 't, 'l, 'e, 'i) AppState" where
  "write_handler P E l e q d =
     (let h = req_authorization q; p = auth d; body = req_body q; m = monitor d in
      case e of
        EventsPost \<Rightarrow>
          (case ingest_event (p_ct_eq P) E p h (limited l (p_event P) body) (req_now q) (store d) of (r, t) \<Rightarrow>
             (answered http_error (\<lambda>(sc, ack). (sc, AckAnswer ack)) r, d\<lparr>store := t\<rparr>))
      | AgentSocket \<Rightarrow>
          (case agent_websocket (p_ct_eq P) (p_payload P) E p (cors_any (config d)) (req_origin q) (req_host q) h (req_query_token q) []
              (store d) of (r, t) \<Rightarrow>
             (answered http_error (\<lambda>_. (101, UpgradeAnswer)) r,
              d\<lparr>store := t, agent_sockets := agent_sockets d + (case r of Inl _ \<Rightarrow> 0 | Inr _ \<Rightarrow> 1)\<rparr>))
      | HookPost \<Rightarrow>
          (case api_ingest_hook (p_ct_eq P) p h (limited l (p_hook P) body) m of (r, t) \<Rightarrow>
             (answered runtime_error_response (\<lambda>(sc, a). (sc, HookAnswer a)) r, d\<lparr>monitor := t\<rparr>))
      | CollectionPost \<Rightarrow>
          (case api_set_collection (p_ct_eq P) p h (limited l (p_flag P) body) m of (r, t) \<Rightarrow>
             (answered runtime_error_response (\<lambda>b. (200, FlagAnswer b)) r, d\<lparr>monitor := t\<rparr>))
      | CommandPost \<Rightarrow>
          (case api_enqueue_command (p_ct_eq P) (req_uuid q) (req_now q) p h (limited l (p_command P) body) m of (r, t) \<Rightarrow>
             (answered runtime_error_response (\<lambda>(sc, x). (sc, CommandAnswer x)) r, d\<lparr>monitor := t\<rparr>))
      | CommandPoll \<Rightarrow>
          (case api_pending_commands (p_ct_eq P) p h (limited l (p_poll P) body) m of (r, t) \<Rightarrow>
             (answered runtime_error_response (\<lambda>xs. (200, CommandsAnswer xs)) r, d\<lparr>monitor := t\<rparr>))
      | CommandAck \<Rightarrow>
          (case api_acknowledge_command (p_ct_eq P) (req_now q) p h (limited l (p_ack P) body) m of (r, t) \<Rightarrow>
             (answered runtime_error_response (\<lambda>x. (200, CommandAnswer x)) r, d\<lparr>monitor := t\<rparr>))
      | _ \<Rightarrow> (read_handler P E e q d, d))"

definition verb_matches :: "http_method \<Rightarrow> http_method \<Rightarrow> bool" where
  "verb_matches registered requested = (requested = registered \<or> registered = GET \<and> requested = HEAD)"

definition find_route :: "Router \<Rightarrow> http_method \<Rightarrow> string \<Rightarrow> Route option" where
  "find_route r m x = List.find (\<lambda>route. path route = x \<and> verb_matches (verb route) m) r"

record Response =
  status_code :: nat
  response_headers :: "(string \<times> string) list"
  content :: answer

text \<open>
  The whole service: the route, its extractors, its handler, and the headers its layers add. \<open>base_headers\<close> are the
  headers the framework itself sets for a response, and \<open>fallback\<close> is its response to a request without a
  route. The headers of the permissive CORS layer are not listed.
\<close>

definition web_serve ::
  "Platform \<Rightarrow> ('a, 'g, 't, 'l, 'e, 'i) caches \<Rightarrow> Router \<Rightarrow> (Request \<Rightarrow> Response) \<Rightarrow> (string \<times> string) list \<Rightarrow> Request \<Rightarrow>
   ('a, 'g, 't, 'l, 'e, 'i) AppState \<Rightarrow> Response \<times> ('a, 'g, 't, 'l, 'e, 'i) AppState" where
  "web_serve P E r fallback base_headers q d =
     (case find_route r (req_verb q) (req_path q) of
        None \<Rightarrow> (fallback q, d)
      | Some x \<Rightarrow>
          (case (case extractor_rejection (target x) q of
                   Some sc \<Rightarrow> ((sc, ExtractorRejection), d)
                 | None \<Rightarrow> write_handler P E (layers x) (target x) q d) of ((sc, a), t) \<Rightarrow>
             (\<lparr>status_code = sc,
               response_headers = (if security_headers_layer (layers x) then security_headers base_headers else base_headers),
               content = a\<rparr>, t)))"

end
