(* ===== verification/Daemon.thy ===== *)
theory Daemon
  imports Web
begin

text \<open>
  The process as a whole: \<open>Daemon::bind\<close> and \<open>Daemon::serve\<close> of \<open>src/daemon.rs\<close>, \<open>web::serve\<close> of
  \<open>src/web.rs\<close> and \<open>run\<close> of \<open>src/main.rs\<close>. Binding a socket is an argument, \<open>bind_listener\<close>, with the result of
  \<open>local_addr\<close> on the bound socket; \<open>getenv\<close> is the environment. \<open>None\<close> stands for a panic.

  A running daemon is a machine over \<open>AppState\<close>. Its tasks interleave at the messages they handle, each under the
  lock of the store or of the monitor, so a run is the sequence of the handled messages.
\<close>

section \<open>Binding\<close>

datatype DaemonError =
    ConfigRejected ConfigError
  | BindFailed string SocketAddr string
  | ListenerError string

record ('a, 'g, 't, 'l, 'e, 'i) BoundDaemon =
  bound_config :: Config
  bound_store :: "('a, 'g, 't, 'l, 'e, 'i) StoreInner"
  bound_auth :: AuthPolicy
  bound_addresses :: BoundAddresses

text \<open>
  What \<open>tokio\<close> documents of the broadcast channel: the constructor panics on a capacity of zero and above half of the address
  range. It also reserves its memory, so it may panic for less.
\<close>

locale broadcast_channel =
  fixes fits :: "nat \<Rightarrow> bool"
  assumes positive: "fits n \<Longrightarrow> 0 < n"
    and at_most: "fits n \<Longrightarrow> n \<le> (2 ^ 64 - 1) div 2"
begin

lemma too_large: "n > (2 ^ 64 - 1) div 2 \<Longrightarrow> \<not> fits n"
  using at_most by (meson leD)

end

interpretation list_channel: broadcast_channel "channel_fits list_caches"
  by unfold_locales (simp_all add: list_caches_def)

definition bind_one ::
  "(string \<Rightarrow> SocketAddr \<Rightarrow> string + (string + SocketAddr)) \<Rightarrow> string \<Rightarrow> SocketAddr \<Rightarrow> DaemonError + (string + SocketAddr)" where
  "bind_one bind_listener name a = map_sum (BindFailed name a) id (bind_listener name a)"

definition daemon_bind ::
  "('a, 'g, 't, 'l, 'e, 'i) caches \<Rightarrow> (string \<Rightarrow> SocketAddr \<Rightarrow> string + (string + SocketAddr)) \<Rightarrow> DateTime \<Rightarrow> Config \<Rightarrow>
   (DaemonError + ('a, 'g, 't, 'l, 'e, 'i) BoundDaemon) option" where
  "daemon_bind E bind_listener now c =
     (case config_validate c of
        Inl err \<Rightarrow> Some (Inl (ConfigRejected err))
      | Inr _ \<Rightarrow>
     (case bind_one bind_listener ''HTTP'' (http_addr c) of
        Inl err \<Rightarrow> Some (Inl err)
      | Inr l1 \<Rightarrow>
     (case bind_one bind_listener ''TCP'' (tcp_addr c) of
        Inl err \<Rightarrow> Some (Inl err)
      | Inr l2 \<Rightarrow>
     (case bind_one bind_listener ''UDP'' (udp_addr c) of
        Inl err \<Rightarrow> Some (Inl err)
      | Inr l3 \<Rightarrow>
     (case (l1, l2, l3) of
        (Inl err, _, _) \<Rightarrow> Some (Inl (ListenerError err))
      | (Inr _, Inl err, _) \<Rightarrow> Some (Inl (ListenerError err))
      | (Inr _, Inr _, Inl err) \<Rightarrow> Some (Inl (ListenerError err))
      | (Inr a1, Inr a2, Inr a3) \<Rightarrow>
          if \<not> channel_fits E (update_channel_capacity c) then None
          else map_option (\<lambda>s. Inr \<lparr>bound_config = c, bound_store = s, bound_auth = auth_from_config c,
              bound_addresses = \<lparr>http = a1, tcp = a2, udp = a3\<rparr>\<rparr>)
            (store_new E (cache_config c) now))))))"

section \<open>Serving\<close>

text \<open>What \<open>Daemon::serve\<close> sets up before its three services run: the shared state, the router and the accept loop.\<close>

definition daemon_serve ::
  "'s semaphore_api \<Rightarrow> (string \<Rightarrow> string option) \<Rightarrow> ('a, 'g, 't, 'l, 'e, 'i) BoundDaemon \<Rightarrow>
   (('a, 'g, 't, 'l, 'e, 'i) AppState \<times> Router \<times> 's TcpServer) option" where
  "daemon_serve S getenv b =
     Option.bind (router_with_runtime (bound_config b)) (\<lambda>r.
     map_option (\<lambda>t.
       (\<lparr>store = bound_store b, monitor = runtime_new (runtime_config_from_env getenv), auth = bound_auth b, config = bound_config b,
         addresses = bound_addresses b, agent_sockets = 0\<rparr>, r, t))
       (serve_start S (max_tcp_connections (bound_config b))))"

text \<open>\<open>run\<close> of the executable, up to the point where the daemon serves.\<close>

definition run_daemon ::
  "('a, 'g, 't, 'l, 'e, 'i) caches \<Rightarrow> 's semaphore_api \<Rightarrow> (string \<Rightarrow> SocketAddr \<Rightarrow> string + (string + SocketAddr)) \<Rightarrow>
   (string \<Rightarrow> string option) \<Rightarrow> DateTime \<Rightarrow> Config \<Rightarrow>
   (DaemonError + ('a, 'g, 't, 'l, 'e, 'i) AppState \<times> Router \<times> 's TcpServer) option" where
  "run_daemon E S bind_listener getenv now c =
     (case config_validate c of
        Inl err \<Rightarrow> Some (Inl (ConfigRejected err))
      | Inr _ \<Rightarrow>
          (case daemon_bind E bind_listener now c of
             None \<Rightarrow> None
           | Some (Inl err) \<Rightarrow> Some (Inl err)
           | Some (Inr b) \<Rightarrow> map_option Inr (daemon_serve S getenv b)))"

section \<open>The running daemon\<close>

datatype daemon_input =
    HttpRequest Request
  | TcpLine "string + string" DateTime
  | Datagram string DateTime
  | AgentMessage ws_message DateTime
  | CollectorTick host_fs DateTime

definition daemon_next ::
  "Platform \<Rightarrow> ('a, 'g, 't, 'l, 'e, 'i) caches \<Rightarrow> Router \<Rightarrow> (Request \<Rightarrow> Response) \<Rightarrow> daemon_input \<Rightarrow>
   ('a, 'g, 't, 'l, 'e, 'i) AppState \<Rightarrow> ('a, 'g, 't, 'l, 'e, 'i) AppState" where
  "daemon_next P E r fallback i d =
     (case i of
        HttpRequest q \<Rightarrow> snd (web_serve P E r fallback [] q d)
      | TcpLine frame now \<Rightarrow> d\<lparr>store := snd (tcp_frame (p_ct_eq P) (p_payload P) E (auth d) frame now (store d))\<rparr>
      | Datagram x now \<Rightarrow>
          d\<lparr>store := snd (udp_datagram (p_ct_eq P) (p_payload P) E (auth d) (max_udp_payload_bytes (config d)) x now (store d))\<rparr>
      | AgentMessage m now \<Rightarrow>
          if agent_sockets d = 0 then d
          else d\<lparr>store := snd (handle_agent_socket (p_payload P) E [(m, now, True)] (store d))\<rparr>
      | CollectorTick fs now \<Rightarrow> d\<lparr>monitor := collect_tick fs now (monitor d)\<rparr>)"

text \<open>The random identifier of a new command is not one in use.\<close>

definition fresh_input :: "daemon_input \<Rightarrow> ('a, 'g, 't, 'l, 'e, 'i) AppState \<Rightarrow> bool" where
  "fresh_input i d =
     (case i of
        HttpRequest q \<Rightarrow> req_uuid q \<notin> ControlCommand.command_id ` set (commands (RuntimeMonitor.state (monitor d)))
      | _ \<Rightarrow> True)"

inductive daemon_reachable ::
  "Platform \<Rightarrow> ('a, 'g, 't, 'l, 'e, 'i) caches \<Rightarrow> (Request \<Rightarrow> Response) \<Rightarrow> Router \<Rightarrow> ('a, 'g, 't, 'l, 'e, 'i) AppState \<Rightarrow>
   ('a, 'g, 't, 'l, 'e, 'i) AppState \<Rightarrow> bool" for P E fallback r d0 where
  start: "daemon_reachable P E fallback r d0 d0"
| step: "daemon_reachable P E fallback r d0 d \<Longrightarrow> fresh_input i d \<Longrightarrow>
    daemon_reachable P E fallback r d0 (daemon_next P E r fallback i d)"

end
