(* ===== verification/WebSpec.thy ===== *)
theory WebSpec
  imports Web ApiSpec Decimal
begin

text \<open>
  The properties of the HTTP surface: the routers compose, the layers cover the routes they are meant to
  or not, the security headers are set, and the served API description agrees with the handlers.
\<close>

section \<open>Routes\<close>

lemma router_with_runtime_eq:
  "router_with_runtime c =
     Some (http_router c @ metacognition_router @ coordination_router @ explorer_router @ timeline_router @ runtime_router)"
  by (simp add: router_with_runtime_def merge_def http_router_def metacognition_router_def coordination_router_def
      explorer_router_def timeline_router_def runtime_router_def routes_def layer_def Let_def)

lemma header_insert_get:
  "map_of (header_insert h hs) k = (if k = fst h then Some (snd h) else map_of hs k)"
proof -
  have "map_of (filter (\<lambda>x. fst x \<noteq> fst h) hs) k = (if k = fst h then None else map_of hs k)"
    by (induction hs) auto
  then show ?thesis by (cases h) (auto simp: header_insert_def map_add_def split: option.split)
qed

lemma security_headers_get:
  "map_of (security_headers hs) k = (case map_of security_header_list k of None \<Rightarrow> map_of hs k | Some v \<Rightarrow> Some v)"
  by (simp add: security_headers_def security_header_list_def header_insert_get)

section \<open>Callers without the token\<close>

definition stranger :: "string \<Rightarrow> Request \<Rightarrow> bool" where
  "stranger secret q \<longleftrightarrow> bearer_token (req_authorization q) \<noteq> Some secret \<and> req_query_token q \<noteq> Some secret"

definition ingest_endpoints :: "endpoint list" where
  "ingest_endpoints = [EventsPost, AgentSocket, HookPost, CollectionPost, CommandPost, CommandPoll, CommandAck]"

definition read_endpoints :: "endpoint list" where
  "read_endpoints = [MetricsText, SnapshotRead, MetacognitionRead, CoordinationRead, ExplorerRead, TimelineRead, RuntimeRead]"

lemmas handler_defs = write_handler_def read_handler_def answered_def http_error_def

lemmas read_api_defs = read_snapshot_def read_metrics_def plan_api_def explorer_api_def timeline_api_def metacognition_api_def
  api_runtime_snapshot_def

lemmas ingest_api_defs = ingest_event_def agent_websocket_def api_ingest_hook_def api_set_collection_def api_enqueue_command_def
  api_pending_commands_def api_acknowledge_command_def runtime_guarded_def

lemma preferred_token_stranger: "stranger secret q \<Longrightarrow> preferred_token (req_authorization q) (req_query_token q) \<noteq> Some secret"
  by (simp add: stranger_def preferred_token_def)

lemma stranger_writes_refused:
  assumes eq: "constant_time_eq (p_ct_eq P)" and p: "AuthPolicy.token (auth d) = Some secret" and q: "stranger secret q"
    and e: "e \<in> set ingest_endpoints"
  shows "fst (fst (write_handler P E l e q d)) \<in> {401, 403} \<and>
    (snd (write_handler P E l e q d) = d \<or> (\<exists>via. snd (write_handler P E l e q d) = d\<lparr>store := record_rejection via (store d)\<rparr>))"
proof -
  have "authorize_ingest (p_ct_eq P) (auth d) (bearer_token (req_authorization q)) = Inl AuthorizationError"
    "authorize_ingest (p_ct_eq P) (auth d) (preferred_token (req_authorization q) (req_query_token q)) = Inl AuthorizationError"
    using constant_time_eq.authorize_ingest_refused [OF eq p] q preferred_token_stranger [OF q] by (auto simp: stranger_def)
  with e show ?thesis
    by (cases "websocket_origin_allowed (req_origin q) (req_host q) (cors_any (AppState.config d))")
      (auto simp: ingest_endpoints_def handler_defs ingest_api_defs)
qed

lemma stranger_reads_refused:
  assumes eq: "constant_time_eq (p_ct_eq P)" and p: "AuthPolicy.token (auth d) = Some secret" "reads_are_protected (auth d)"
    and q: "stranger secret q" and e: "e \<in> set read_endpoints"
  shows "read_handler P E e q d = (401, ErrorAnswer ''unauthorized'')"
proof -
  have "authorize_read (p_ct_eq P) (auth d) (bearer_token (req_authorization q)) = Inl AuthorizationError"
    using constant_time_eq.authorize_read_refused [OF eq p(2,1)] q by (simp add: stranger_def)
  with e show ?thesis by (auto simp: read_endpoints_def handler_defs read_api_defs)
qed

lemma read_not_written: "e \<notin> set ingest_endpoints \<Longrightarrow> write_handler P E l e q d = (read_handler P E e q d, d)"
  by (cases e) (simp_all add: write_handler_def ingest_endpoints_def)

text \<open>A request without any header or query.\<close>

definition bare_request :: Request where
  "bare_request = \<lparr>req_verb = GET, req_path = [], req_authorization = None, req_origin = None, req_host = None, req_query = None,
     req_query_token = None, req_query_rejected = False, req_upgrade_rejection = Some 400, req_body = [], req_now = (0, 0), req_uuid = 0, req_agents = [], req_pids = []\<rparr>"

lemma bare_stranger: "stranger secret bare_request"
  by (simp add: stranger_def bare_request_def bearer_token_def)

lemma no_origin_allowed [simp]: "websocket_origin_allowed None host any"
  by (simp add: websocket_origin_allowed_def)

lemma open_reads_answered:
  assumes "\<not> reads_are_protected (auth d)" and "e \<in> set read_endpoints"
  shows "fst (read_handler P E e bare_request d) \<notin> {401, 403}"
proof -
  have ok: "authorize_read (p_ct_eq P) (auth d) tok = Inr ()" for tok
    using assms(1) by (simp add: authorize_read_def reads_are_protected_def ok_def)
  have q: "planning_query_parse None = Inr planning_query_default" "explorer_query_parse None = Inr explorer_query_default"
    "\<exists>q. timeline_query_parse (p_parse_str P) (p_timestamp_opt P) None = Inr q"
    by (simp_all add: planning_query_parse_def explorer_query_parse_def timeline_query_parse_def parse_query_def)
  have timeline: "fst (timeline_error_response (timeline_error err)) \<noteq> 401" "fst (timeline_error_response (timeline_error err)) \<noteq> 403"
    for err by (cases err; simp)+
  obtain tq where tq: "timeline_query_parse (p_parse_str P) (p_timestamp_opt P) None = Inr tq" using q(3) by blast
  have answered_status: "fst (answered f g (map_sum h id r)) \<notin> {401, 403}"
    if "\<And>x. fst (f (h x)) \<notin> {401, 403}" "\<And>v. fst (g v) \<notin> {401, 403}" for f g h and r :: "'x + 'y"
    using that by (cases r) (auto simp: answered_def prod.case_eq_if)
  from assms(2) consider "e \<in> {MetricsText, SnapshotRead, MetacognitionRead, RuntimeRead}" | "e = CoordinationRead" | "e = ExplorerRead"
    | "e = TimelineRead" by (auto simp: read_endpoints_def)
  then show ?thesis
  proof cases
    case 1
    with ok show ?thesis by (auto simp: handler_defs read_api_defs bare_request_def)
  next
    case 2
    with ok q(1) show ?thesis
      by (auto simp: read_handler_def plan_api_def bare_request_def Let_def simp del: map_sum.simps intro!: answered_status [simplified])
  next
    case 3
    with ok q(2) show ?thesis
      by (auto simp: read_handler_def explorer_api_def bare_request_def Let_def simp del: map_sum.simps intro!: answered_status [simplified])
  next
    case 4
    with ok tq show ?thesis
      by (auto simp: timeline read_handler_def timeline_api_def bare_request_def Let_def simp del: map_sum.simps intro!: answered_status [simplified])
  qed
qed

section \<open>The served description\<close>

lemma documented_protected_simps:
  "json_member ''security'' op = Some (security_requirement b) \<Longrightarrow> documented_protected op = b"
  "json_member ''security'' op = None \<Longrightarrow> \<not> documented_protected op"
  by (simp_all add: documented_protected_def security_requirement_def)

lemmas path_defs = events_path_def coordination_path_def explorer_path_def metacognition_path_def snapshot_path_def
  ws_agent_path_def ws_ui_path_def healthz_path_def readyz_path_def metrics_path_def

lemma json_member_single: "json_member v (JObject [(m, op')]) = Some op \<longleftrightarrow> v = m \<and> op = op'"
  by (auto simp: json_member_def)

lemma path_operations:
  "json_member v (events_path sec) = Some op \<Longrightarrow> v = ''post'' \<and> json_member ''security'' op = Some sec"
  "json_member v (coordination_path sec) = Some op \<Longrightarrow> v = ''get'' \<and> json_member ''security'' op = Some sec"
  "json_member v (explorer_path sec) = Some op \<Longrightarrow> v = ''get'' \<and> json_member ''security'' op = Some sec"
  "json_member v (metacognition_path sec) = Some op \<Longrightarrow> v = ''get'' \<and> json_member ''security'' op = Some sec"
  "json_member v (snapshot_path sec) = Some op \<Longrightarrow> v = ''get'' \<and> json_member ''security'' op = Some sec"
  "json_member v (ws_agent_path sec) = Some op \<Longrightarrow> v = ''get'' \<and> json_member ''security'' op = Some sec"
  "json_member v (metrics_path sec) = Some op \<Longrightarrow> v = ''get'' \<and> json_member ''security'' op = Some sec"
  "json_member v ws_ui_path = Some op \<Longrightarrow> v = ''get'' \<and> json_member ''security'' op = None"
  "json_member v healthz_path = Some op \<Longrightarrow> v = ''get'' \<and> json_member ''security'' op = None"
  "json_member v readyz_path = Some op \<Longrightarrow> v = ''get'' \<and> json_member ''security'' op = None"
  by (simp_all only: path_defs json_member_single) (simp_all add: json_member_def)

lemma documented_operations:
  assumes "documented_operation v x (document version addr_str a iprot rprot) = Some op"
  shows "(v, x, documented_protected op) \<in>
    {(''post'', ''/api/v1/events'', iprot), (''get'', ''/api/v1/coordination'', rprot), (''get'', ''/api/v1/explorer'', rprot),
     (''get'', ''/api/v1/metacognition'', rprot), (''get'', ''/api/v1/snapshot'', rprot), (''get'', ''/ws/agent'', iprot),
     (''get'', ''/ws/ui'', False), (''get'', ''/healthz'', False), (''get'', ''/readyz'', False), (''get'', ''/metrics'', rprot)}"
proof -
  let ?paths = "document_paths (security_requirement iprot) (security_requirement rprot)"
  from assms obtain y where y: "map_of ?paths x = Some y" "json_member v y = Some op"
    by (auto simp: documented_operation_def document_def json_member_def Let_def split: Option.bind_splits)
  from y(1) have "(x, y) \<in> set ?paths" by (rule map_of_SomeD)
  then show ?thesis
    unfolding document_paths_def list.set prod.inject insert_iff empty_iff
    by (elim disjE conjE FalseE) (use y(2) in \<open>auto dest!: path_operations simp: documented_protected_simps\<close>)
qed

text \<open>The route of an operation by its name in the description.\<close>

definition documented_verb :: "string \<Rightarrow> http_method" where
  "documented_verb v = (if v = ''post'' then POST else GET)"

text \<open>
  C32. The API description that the daemon serves is true. Every operation it documents has a route, and it is
  documented as needing a token exactly when the handler, once its extractors accept the request, refuses every caller without the
  token.
\<close>
theorem api_document_is_truthful:
  assumes eq: "constant_time_eq (p_ct_eq P)" and p: "AuthPolicy.token (auth d) = Some secret"
    and doc: "documented_operation v x
      (document version addr_str a (ingestion_is_protected (auth d)) (reads_are_protected (auth d))) = Some op"
  shows "\<exists>r route. router_with_runtime c = Some r \<and> find_route r (documented_verb v) x = Some route \<and>
    (documented_protected op \<longleftrightarrow>
      (\<forall>q. stranger secret q \<longrightarrow> fst (fst (write_handler P E (layers route) (target route) q d)) \<in> {401, 403}))"
proof -
  let ?rp = "reads_are_protected (auth d)"
  have ip: "ingestion_is_protected (auth d)" using p by (simp add: ingestion_is_protected_def)
  have ingest: "\<forall>q. stranger secret q \<longrightarrow> fst (fst (write_handler P E l e q d)) \<in> {401, 403}" if "e \<in> set ingest_endpoints" for l e
    using stranger_writes_refused [OF eq p _ that] by blast
  have reads: "(\<forall>q. stranger secret q \<longrightarrow> fst (fst (write_handler P E l e q d)) \<in> {401, 403}) \<longleftrightarrow> ?rp"
    if "e \<in> set read_endpoints" for l e
  proof -
    have "e \<notin> set ingest_endpoints" using that by (auto simp: read_endpoints_def ingest_endpoints_def)
    note handler = read_not_written [OF this]
    show ?thesis
      using stranger_reads_refused [OF eq p _ _ that] open_reads_answered [OF _ that] bare_stranger by (fastforce simp: handler)
  qed
  have "fst (fst (write_handler P E l e bare_request d)) \<notin> {401, 403}" if "e \<in> {Health, UiSocket}" for l e
    using that by (auto simp: write_handler_def read_handler_def Let_def bare_request_def no_origin_allowed)
  then have unguarded: "\<not> (\<forall>q. stranger secret q \<longrightarrow> fst (fst (write_handler P E l e q d)) \<in> {401, 403})" if "e \<in> {Health, UiSocket}" for l e
    using that bare_stranger by blast
  note routes = router_with_runtime_eq http_router_def metacognition_router_def coordination_router_def explorer_router_def
    routes_def layer_def find_route_def verb_matches_def documented_verb_def Let_def
  have "\<exists>r route. router_with_runtime c = Some r \<and> find_route r (documented_verb v) x = Some route \<and>
     (if documented_protected op then target route \<in> set ingest_endpoints \<or> target route \<in> set read_endpoints \<and> ?rp
      else target route \<in> {Health, UiSocket} \<or> target route \<in> set read_endpoints \<and> \<not> ?rp)"
    using documented_operations [OF doc] ip
    by (elim insertE emptyE) (auto simp: routes ingest_endpoints_def read_endpoints_def split: if_splits)
  then show ?thesis using ingest reads unguarded by (fastforce split: if_splits)
qed

definition demo_platform :: Platform where
  "demo_platform =
     \<lparr>p_ct_eq = (\<lambda>a b. list_all2 (=) a b), p_since = (\<lambda>_ _. 0), p_uuid_str = (\<lambda>_. []), p_simple = (\<lambda>_. []), p_parse_str = (\<lambda>_. None),
      p_timestamp_opt = (\<lambda>_ _. None), p_payload = (\<lambda>_. Inl []), p_event = (\<lambda>_. Inl []), p_hook = (\<lambda>_. Inl []),
      p_flag = (\<lambda>_. Inl []), p_command = (\<lambda>_. Inl []), p_poll = (\<lambda>_. Inl []), p_ack = (\<lambda>_. Inl []),
      p_version = [], p_addr_str = (\<lambda>_. [])\<rparr>"

lemma demo_platform_eq: "constant_time_eq (p_ct_eq demo_platform)"
  using byte_eq.constant_time_eq_axioms by (simp add: demo_platform_def)

abbreviation demo_bound :: BoundAddresses where
  "demo_bound \<equiv> \<lparr>http = http_addr local_test, tcp = tcp_addr local_test, udp = udp_addr local_test\<rparr>"

definition demo_app where
  "demo_app = \<lparr>store = the (store_new list_caches (cache_config local_test) (0, 0)),
     monitor = runtime_new (runtime_config_from_env (\<lambda>_. None)), auth = auth_from_config local_test, config = local_test,
     addresses = demo_bound, agent_sockets = 0\<rparr>"

theorem api_document_is_truthful_witness:
  "\<exists>r route. router_with_runtime local_test = Some r \<and> find_route r GET ''/metrics'' = Some route \<and>
     fst (fst (write_handler demo_platform list_caches (layers route) (target route) bare_request demo_app)) \<in> {401, 403}"
proof -
  let ?p = "auth demo_app"
  have p: "AuthPolicy.token ?p = Some ''test-token-at-least-16-bytes''" "reads_are_protected ?p"
    by (simp_all add: demo_app_def auth_from_config_def local_test_def Let_def reads_are_protected_def)
  obtain op where op: "documented_operation ''get'' ''/metrics''
      (document [] (\<lambda>_. []) demo_bound (ingestion_is_protected ?p) (reads_are_protected ?p)) = Some op" "documented_protected op"
    using p(2) by (simp add: documented_operation_def document_def json_member_def Let_def document_paths_def metrics_path_def
        documented_protected_def security_requirement_def)
  from api_document_is_truthful [OF demo_platform_eq p(1) op(1), of local_test list_caches] op(2) bare_stranger
  show ?thesis by (auto simp: documented_verb_def)
qed

section \<open>Documented limits\<close>

definition documented_number :: "string \<Rightarrow> json \<Rightarrow> nat option" where
  "documented_number key schema = (case json_member key schema of Some (JNumber t) \<Rightarrow> parse_uint 64 t | _ \<Rightarrow> None)"

text \<open>The name, the bounds and the default of a documented query parameter.\<close>

definition documented_parameter :: "json \<Rightarrow> (string \<times> nat \<times> nat \<times> nat) option" where
  "documented_parameter x =
     (case (json_member ''name'' x, json_member ''schema'' x) of
        (Some (JString n), Some schema) \<Rightarrow>
          (case (documented_number ''minimum'' schema, documented_number ''maximum'' schema, documented_number ''default'' schema) of
             (Some lo, Some hi, Some dflt) \<Rightarrow> Some (n, lo, hi, dflt)
           | _ \<Rightarrow> None)
      | _ \<Rightarrow> None)"

definition documented_parameters :: "json \<Rightarrow> (string \<times> nat \<times> nat \<times> nat) list" where
  "documented_parameters operation =
     (case json_member ''parameters'' operation of Some (JArray xs) \<Rightarrow> List.map_filter documented_parameter xs | _ \<Rightarrow> [])"

lemma coordination_parameters:
  "json_member v (coordination_path sec) = Some op \<Longrightarrow>
   documented_parameters op = [(''max_assignments'', 1, 256, 16), (''max_assignments_per_agent'', 1, 32, 2),
     (''max_interventions'', 1, 512, 32), (''max_holds'', 1, 1024, 64)]"
  unfolding coordination_path_def json_member_single
  by (elim conjE, simp only:) code_simp

lemma explorer_parameters:
  "json_member v (explorer_path sec) = Some op \<Longrightarrow>
   documented_parameters op = [(''timeline_limit'', 1, 250, 100), (''session_limit'', 1, 250, 100), (''lesson_limit'', 1, 1000, 250)]"
  unfolding explorer_path_def json_member_single
  by (elim conjE, simp only:) code_simp

text \<open>The limit a policy gives for a parameter.\<close>

definition planning_limit :: "string \<Rightarrow> PlanningPolicy \<Rightarrow> nat" where
  "planning_limit n pol =
     (if n = ''max_assignments'' then PlanningPolicy.max_assignments pol
      else if n = ''max_assignments_per_agent'' then PlanningPolicy.max_assignments_per_agent pol
      else if n = ''max_interventions'' then PlanningPolicy.max_interventions pol else PlanningPolicy.max_holds pol)"

definition explorer_limit :: "string \<Rightarrow> ExplorerPolicy \<Rightarrow> nat" where
  "explorer_limit n pol =
     (if n = ''timeline_limit'' then ExplorerPolicy.timeline_limit pol
      else if n = ''session_limit'' then ExplorerPolicy.session_limit pol else ExplorerPolicy.lesson_limit pol)"

lemma str_split_none: "d \<notin> set t \<Longrightarrow> str_split d t = [t]"
  by (induction t) auto

lemma parse_query_single:
  assumes "CHR ''='' \<notin> set n" "CHR ''&'' \<notin> set n"
  shows "parse_query topic assign start (Some (n @ ''='' @ dec_nat v)) = assign n (dec_nat v) start"
proof -
  have "CHR ''&'' \<notin> set (n @ ''='' @ dec_nat v)" using assms(2) dec_nat_no_char [of "CHR ''&''" v] by simp
  then have "str_split CHR ''&'' (n @ ''='' @ dec_nat v) = [n @ ''='' @ dec_nat v]" by (rule str_split_none)
  moreover have "str_split_once CHR ''='' (n @ ''='' @ dec_nat v) = Some (n, dec_nat v)"
    using str_split_once_append [OF assms(1), of "dec_nat v"] by simp
  ultimately show ?thesis by (simp add: parse_query_def split: sum.split)
qed

lemma parse_number_dec: "v < 2 ^ 64 \<Longrightarrow> parse_number topic n (dec_nat v) = Inr v"
  by (simp add: parse_number_def parse_uint_dec_nat)

text \<open>
  C33. The documented limits are the enforced limits. A parameter of the coordination or explorer API is
  accepted exactly for the values between its documented bounds, an accepted value is the limit the
  projection uses, and a query without the parameter uses its documented default.
\<close>
theorem documented_limits_are_enforced:
  fixes v :: nat
  assumes v: "v < 2 ^ 64" and doc: "documented_operation ''get'' x (document version addr_str a iprot rprot) = Some op"
    and par: "(n, lo, hi, dflt) \<in> set (documented_parameters op)"
  shows "(x = ''/api/v1/coordination'' \<longrightarrow>
      (case planning_query_parse (Some (n @ ''='' @ dec_nat v)) of
         Inr q \<Rightarrow> lo \<le> v \<and> v \<le> hi \<and> planning_limit n (planning_query_policy q) = v
       | Inl _ \<Rightarrow> \<not> (lo \<le> v \<and> v \<le> hi)) \<and>
      planning_limit n (planning_query_policy planning_query_default) = dflt) \<and>
    (x = ''/api/v1/explorer'' \<longrightarrow>
      (case explorer_query_parse (Some (n @ ''='' @ dec_nat v)) of
         Inr q \<Rightarrow> lo \<le> v \<and> v \<le> hi \<and> explorer_limit n (explorer_query_policy q) = v
       | Inl _ \<Rightarrow> \<not> (lo \<le> v \<and> v \<le> hi)) \<and>
      explorer_limit n (explorer_query_policy explorer_query_default) = dflt)"
proof -
  let ?paths = "document_paths (security_requirement iprot) (security_requirement rprot)"
  from doc obtain y where y: "map_of ?paths x = Some y" "json_member ''get'' y = Some op"
    by (auto simp: documented_operation_def document_def json_member_def Let_def split: Option.bind_splits)
  have planning: ?thesis if "x = ''/api/v1/coordination''"
  proof -
    have "y = coordination_path (security_requirement rprot)" using y(1) that by (simp add: document_paths_def)
    with y(2) par have "(n, lo, hi, dflt) \<in> set [(''max_assignments'', 1, 256, 16), (''max_assignments_per_agent'', 1, 32, 2),
        (''max_interventions'', 1, 512, 32), (''max_holds'', 1, 1024, 64)]"
      using coordination_parameters by metis
    then consider "n = ''max_assignments''" "lo = 1" "hi = 256" "dflt = 16" | "n = ''max_assignments_per_agent''" "lo = 1" "hi = 32" "dflt = 2"
      | "n = ''max_interventions''" "lo = 1" "hi = 512" "dflt = 32" | "n = ''max_holds''" "lo = 1" "hi = 1024" "dflt = 64" by auto
    then have "case map_sum PlanBadRequest id (assign_planning n (dec_nat v) planning_query_default) of
         Inr q \<Rightarrow> lo \<le> v \<and> v \<le> hi \<and> planning_limit n (planning_query_policy q) = v
       | Inl _ \<Rightarrow> \<not> (lo \<le> v \<and> v \<le> hi)"
      "planning_limit n (planning_query_policy planning_query_default) = dflt" "CHR ''='' \<notin> set n" "CHR ''&'' \<notin> set n"
      by (cases; simp add: assign_planning_def parse_number_dec [OF v] bounded_def api_limits
          planning_query_default_def planning_query_policy_def planning_limit_def unwrap_or_def)+
    with that show ?thesis by (simp add: planning_query_parse_def parse_query_single [simplified])
  qed
  have explorer: ?thesis if "x = ''/api/v1/explorer''"
  proof -
    have "y = explorer_path (security_requirement rprot)" using y(1) that by (simp add: document_paths_def)
    with y(2) par have "(n, lo, hi, dflt) \<in> set [(''timeline_limit'', 1, 250, 100), (''session_limit'', 1, 250, 100),
        (''lesson_limit'', 1, 1000, 250)]"
      using explorer_parameters by metis
    then consider "n = ''timeline_limit''" "lo = 1" "hi = 250" "dflt = 100" | "n = ''session_limit''" "lo = 1" "hi = 250" "dflt = 100"
      | "n = ''lesson_limit''" "lo = 1" "hi = 1000" "dflt = 250" by auto
    then have "case map_sum ExplorerBadRequest id (assign_explorer n (dec_nat v) explorer_query_default) of
         Inr q \<Rightarrow> lo \<le> v \<and> v \<le> hi \<and> explorer_limit n (explorer_query_policy q) = v
       | Inl _ \<Rightarrow> \<not> (lo \<le> v \<and> v \<le> hi)"
      "explorer_limit n (explorer_query_policy explorer_query_default) = dflt" "CHR ''='' \<notin> set n" "CHR ''&'' \<notin> set n"
      by (cases; simp add: assign_explorer_def parse_number_dec [OF v] bounded_def api_limits
          explorer_query_default_def explorer_query_policy_def explorer_limit_def unwrap_or_def)+
    with that show ?thesis by (simp add: explorer_query_parse_def parse_query_single [simplified])
  qed
  from planning explorer show ?thesis by blast
qed

theorem documented_limits_are_enforced_witness:
  "\<exists>err. planning_query_parse (Some (''max_assignments='' @ dec_nat 300)) = Inl err"
proof -
  let ?a = "\<lparr>ip = V4 127 0 0 1, port = 0\<rparr>"
  obtain op where op: "documented_operation ''get'' ''/api/v1/coordination''
      (document [] (\<lambda>_. []) \<lparr>http = ?a, tcp = ?a, udp = ?a\<rparr> True True) = Some op"
    "json_member ''get'' (coordination_path (security_requirement True)) = Some op"
    by (simp add: documented_operation_def document_def json_member_def Let_def document_paths_def coordination_path_def)
  have "(''max_assignments'', 1, 256, 16) \<in> set (documented_parameters op)" by (simp add: coordination_parameters [OF op(2)])
  from documented_limits_are_enforced [OF _ op(1) this, of 300] show ?thesis
    by (simp split: sum.splits)
qed

end
