(* ===== verification/DaemonSpec.thy ===== *)
theory DaemonSpec
  imports Daemon WebSpec IngressSpec RuntimeSpec
begin

text \<open>
  The properties of the daemon as a whole: a validated configuration starts if its memory can be reserved, whatever arrives
  keeps the invariants of the store and of the monitor, and callers without the token of a remote deployment change none of its data and
  learn no more than the revision of the store, the policy, the configuration and the bound addresses.
\<close>

section \<open>Starting\<close>

lemma config_validate_positive:
  "config_validate c = Inr () \<Longrightarrow> 0 < agent_capacity c \<and> 0 < goal_capacity c \<and> 0 < task_capacity c \<and> 0 < lesson_capacity c \<and>
     0 < event_capacity c \<and> 0 < idempotency_capacity c \<and> 0 < update_channel_capacity c \<and> 0 < max_tcp_connections c"
  by (simp add: config_validate_iff)

text \<open>The properties of a started daemon.\<close>

lemma run_daemon_started:
  assumes "run_daemon E S bind_listener getenv now c = Some (Inr (d, r, t))"
  shows "config_validate c = Inr ()" "store_new E (cache_config c) now = Some (store d)"
    "monitor d = runtime_new (runtime_config_from_env getenv)" "auth d = auth_from_config c" "config d = c" "agent_sockets d = 0"
    "router_with_runtime c = Some r" "serve_start S (max_tcp_connections c) = Some t"
  using assms
  by (auto simp: run_daemon_def daemon_bind_def daemon_serve_def split: sum.splits option.splits if_splits Option.bind_splits prod.splits)

text \<open>
  C34. A validated configuration starts if its memory can be reserved. If it passes validation, the listeners can be bound, the caches
  and the update channel can be made with their capacities, and the connection limit is one that the semaphore supports, then the
  daemon starts without a panic: the routers merge without a conflict, the accept loop is in its first
  state, and the store is new. A configuration that does not pass, or the first listener that
  cannot be bound, is reported as an error before anything is served. If a cache or the channel cannot be made or the semaphore does not
  support the limit, the start panics although the configuration is valid; in particular with a
  channel capacity above half of the address range.
\<close>
theorem validated_configurations_start:
  assumes S: "semaphore S available" and channel: "broadcast_channel (channel_fits E)"
  shows "(config_validate c = Inr () \<and> (\<forall>n a. \<exists>a'. bind_listener n a = Inr (Inr a')) \<and> caches_fit E (cache_config c) \<and>
      channel_fits E (update_channel_capacity c) \<and> max_tcp_connections c \<le> MAX_PERMITS \<longrightarrow>
      (\<exists>d r t. run_daemon E S bind_listener getenv now c = Some (Inr (d, r, t)) \<and>
        distinct (map (\<lambda>x. (verb x, path x)) r) \<and> serve_reachable S (max_tcp_connections c) t \<and> reachable E (cache_config c) (store d))) \<and>
    (\<forall>err. config_validate c = Inl err \<longrightarrow> run_daemon E S bind_listener getenv now c = Some (Inl (ConfigRejected err))) \<and>
    (\<forall>err. config_validate c = Inr () \<and> bind_listener ''HTTP'' (http_addr c) = Inl err \<longrightarrow>
      run_daemon E S bind_listener getenv now c = Some (Inl (BindFailed ''HTTP'' (http_addr c) err))) \<and>
    (\<forall>l1 err. config_validate c = Inr () \<and> bind_listener ''HTTP'' (http_addr c) = Inr l1 \<and>
      bind_listener ''TCP'' (tcp_addr c) = Inl err \<longrightarrow>
      run_daemon E S bind_listener getenv now c = Some (Inl (BindFailed ''TCP'' (tcp_addr c) err))) \<and>
    (\<forall>l1 l2 err. config_validate c = Inr () \<and> bind_listener ''HTTP'' (http_addr c) = Inr l1 \<and>
      bind_listener ''TCP'' (tcp_addr c) = Inr l2 \<and> bind_listener ''UDP'' (udp_addr c) = Inl err \<longrightarrow>
      run_daemon E S bind_listener getenv now c = Some (Inl (BindFailed ''UDP'' (udp_addr c) err))) \<and>
    (config_validate c = Inr () \<and> (\<forall>n a. \<exists>a'. bind_listener n a = Inr (Inr a')) \<and>
      (\<not> caches_fit E (cache_config c) \<or> \<not> channel_fits E (update_channel_capacity c) \<or>
       update_channel_capacity c > (2 ^ 64 - 1) div 2 \<or> max_tcp_connections c > MAX_PERMITS) \<longrightarrow>
      run_daemon E S bind_listener getenv now c = None)"
proof (intro conjI impI allI)
  assume c: "config_validate c = Inr () \<and> (\<forall>n a. \<exists>a'. bind_listener n a = Inr (Inr a')) \<and> caches_fit E (cache_config c) \<and>
      channel_fits E (update_channel_capacity c) \<and> max_tcp_connections c \<le> MAX_PERMITS"
  then obtain a1 a2 a3 where binds: "bind_listener ''HTTP'' (http_addr c) = Inr (Inr a1)" "bind_listener ''TCP'' (tcp_addr c) = Inr (Inr a2)"
    "bind_listener ''UDP'' (udp_addr c) = Inr (Inr a3)" by metis
  obtain s where s: "store_new E (cache_config c) now = Some s" using c store_new_validated by blast
  obtain l where "sem_new S (max_tcp_connections c) = Some l" using semaphore.new_panics [OF S] c by fastforce
  then obtain t where t: "serve_start S (max_tcp_connections c) = Some t" by (simp add: serve_start_def)
  obtain r where r: "router_with_runtime c = Some r" using router_with_runtime_eq by blast
  from c binds s t r have "\<exists>d. run_daemon E S bind_listener getenv now c = Some (Inr (d, r, t)) \<and> store d = s"
    by (simp add: run_daemon_def daemon_bind_def bind_one_def daemon_serve_def)
  moreover have "distinct (map (\<lambda>x. (verb x, path x)) r)"
    using r unfolding router_with_runtime_eq option.inject
    by (elim subst) (simp add: http_router_def metacognition_router_def coordination_router_def explorer_router_def
        timeline_router_def runtime_router_def routes_def layer_def Let_def)
  ultimately show "\<exists>d r t. run_daemon E S bind_listener getenv now c = Some (Inr (d, r, t)) \<and>
        distinct (map (\<lambda>x. (verb x, path x)) r) \<and> serve_reachable S (max_tcp_connections c) t \<and> reachable E (cache_config c) (store d)"
    using serve_reachable.start [OF t] reachable.start [OF s] by blast
next
  assume c: "config_validate c = Inr () \<and> (\<forall>n a. \<exists>a'. bind_listener n a = Inr (Inr a')) \<and>
      (\<not> caches_fit E (cache_config c) \<or> \<not> channel_fits E (update_channel_capacity c) \<or>
       update_channel_capacity c > (2 ^ 64 - 1) div 2 \<or> max_tcp_connections c > MAX_PERMITS)"
  then obtain a1 a2 a3 where binds: "bind_listener ''HTTP'' (http_addr c) = Inr (Inr a1)" "bind_listener ''TCP'' (tcp_addr c) = Inr (Inr a2)"
    "bind_listener ''UDP'' (udp_addr c) = Inr (Inr a3)" by metis
  have "max_tcp_connections c > MAX_PERMITS \<Longrightarrow> serve_start S (max_tcp_connections c) = None"
    using semaphore.new_panics [OF S] by (simp add: serve_start_def)
  moreover have "update_channel_capacity c > (2 ^ 64 - 1) div 2 \<Longrightarrow> \<not> channel_fits E (update_channel_capacity c)"
    by (rule broadcast_channel.too_large [OF channel])
  moreover have "\<not> caches_fit E (cache_config c) \<Longrightarrow> store_new E (cache_config c) now = None"
    using c store_new_validated [of c E now] by auto
  ultimately show "run_daemon E S bind_listener getenv now c = None"
    using c binds by (auto simp: run_daemon_def daemon_bind_def bind_one_def daemon_serve_def split: option.split Option.bind_split)
qed (auto simp: run_daemon_def daemon_bind_def bind_one_def)

section \<open>The invariants of a running daemon\<close>

lemma collect_tick_steps:
  "RuntimeMonitor.config (collect_tick fs now m) = RuntimeMonitor.config m \<and>
   (RuntimeMonitor.state (collect_tick fs now m) = RuntimeMonitor.state m \<or>
    runtime_step (RuntimeMonitor.config m) (RuntimeMonitor.state m) (RuntimeMonitor.state (collect_tick fs now m)))"
  by (auto simp: collect_tick_def intro: runtime_step.collect)

text \<open>What one input does: it handles at most one message for the store and takes the monitor at most one step further.\<close>

definition store_follows where
  "store_follows E s t \<longleftrightarrow> t = s \<or> handled E s t"

definition monitor_follows :: "RuntimeMonitor \<Rightarrow> RuntimeMonitor \<Rightarrow> bool" where
  "monitor_follows m m' \<longleftrightarrow> RuntimeMonitor.config m' = RuntimeMonitor.config m \<and>
     (RuntimeMonitor.state m' = RuntimeMonitor.state m \<or> runtime_step (RuntimeMonitor.config m) (RuntimeMonitor.state m) (RuntimeMonitor.state m'))"

lemma monitor_follows_refl [simp]: "monitor_follows m m"
  by (simp add: monitor_follows_def)

lemma store_follows_refl [simp]: "store_follows E s s"
  by (simp add: store_follows_def)

lemma runtime_handlers_follow:
  "monitor_follows m (snd (api_ingest_hook ct_eq p h hook m))"
  "monitor_follows m (snd (api_set_collection ct_eq p h flag m))"
  "new_v4 \<notin> ControlCommand.command_id ` set (commands (RuntimeMonitor.state m)) \<Longrightarrow>
    monitor_follows m (snd (api_enqueue_command ct_eq new_v4 now p h request m))"
  "monitor_follows m (snd (api_pending_commands ct_eq p h poll m))"
  "monitor_follows m (snd (api_acknowledge_command ct_eq now p h ack m))"
  by (auto simp: monitor_follows_def api_ingest_hook_def api_set_collection_def api_enqueue_command_def api_pending_commands_def
      api_acknowledge_command_def runtime_guarded_def set_collection_enabled_def prod.case_eq_if
      split: sum.splits intro: runtime_step.intros)

lemma write_handler_follows:
  assumes "req_uuid q \<notin> ControlCommand.command_id ` set (commands (RuntimeMonitor.state (monitor d)))"
  shows "store_follows E (store d) (store (snd (write_handler P E l e q d)))"
    "monitor_follows (monitor d) (monitor (snd (write_handler P E l e q d)))"
    "auth (snd (write_handler P E l e q d)) = auth d" "config (snd (write_handler P E l e q d)) = config d"
proof -
  have socket: "store_follows E s (snd (agent_websocket ct_eq decode E p any origin host h qt [] s))"
    for s ct_eq decode p any origin host h qt
    by (auto simp: agent_websocket_def store_follows_def split: sum.splits)
  show "store_follows E (store d) (store (snd (write_handler P E l e q d)))"
    using http_handled [of E "store d" "p_ct_eq P" "auth d" "req_authorization q" "limited l (p_event P) (req_body q)" "req_now q"] socket
    by (cases e) (simp_all add: write_handler_def Let_def prod.case_eq_if store_follows_def)
  show "monitor_follows (monitor d) (monitor (snd (write_handler P E l e q d)))"
    using runtime_handlers_follow assms by (cases e) (simp_all add: write_handler_def Let_def prod.case_eq_if)
  show "auth (snd (write_handler P E l e q d)) = auth d" "config (snd (write_handler P E l e q d)) = config d"
    by (cases e; simp add: write_handler_def Let_def prod.case_eq_if)+
qed

lemma daemon_next_follows:
  assumes "fresh_input i d"
  shows "store_follows E (store d) (store (daemon_next P E r fallback i d))"
    "monitor_follows (monitor d) (monitor (daemon_next P E r fallback i d))"
    "auth (daemon_next P E r fallback i d) = auth d" "config (daemon_next P E r fallback i d) = config d"
proof -
  have web: "store_follows E (store d) (store (snd (web_serve P E r fallback hs q d))) \<and>
      monitor_follows (monitor d) (monitor (snd (web_serve P E r fallback hs q d))) \<and>
      auth (snd (web_serve P E r fallback hs q d)) = auth d \<and> config (snd (web_serve P E r fallback hs q d)) = config d"
    if "fresh_input (HttpRequest q) d" for q hs
    using write_handler_follows [of q d] that
    by (auto simp: web_serve_def fresh_input_def prod.case_eq_if split: option.split)
  have message: "store_follows E s (snd (handle_agent_socket decode E [(m, now, True)] s))" for s decode m now
    using socket_handled [of E s decode _ now] by (cases m) (auto simp: store_follows_def prod.case_eq_if)
  show "store_follows E (store d) (store (daemon_next P E r fallback i d))"
    using web assms message by (cases i) (auto simp: daemon_next_def tcp_handled udp_handled, auto simp: store_follows_def tcp_handled udp_handled)
  show "monitor_follows (monitor d) (monitor (daemon_next P E r fallback i d))"
    using web assms collect_tick_steps by (cases i) (auto simp: daemon_next_def monitor_follows_def)
  show "auth (daemon_next P E r fallback i d) = auth d" "config (daemon_next P E r fallback i d) = config d"
    using web assms by (cases i; simp add: daemon_next_def)+
qed

lemma daemon_reachable_facts:
  assumes E: "store_caches E" and run: "run_daemon E S bind_listener getenv now c = Some (Inr (d0, r, t))"
    and size: "task_capacity c < 2 ^ 64" and reach: "daemon_reachable P E fallback r d0 d"
  shows "reachable E (cache_config c) (store d)" "store_inv E (store d)"
    "runtime_reachable (runtime_config_from_env getenv) (RuntimeMonitor.state (monitor d))"
    "auth d = auth_from_config c" "config d = c"
proof -
  let ?rc = "runtime_config_from_env getenv"
  note started = run_daemon_started [OF run]
  from reach have "reachable E (cache_config c) (store d) \<and> RuntimeMonitor.config (monitor d) = ?rc \<and>
      runtime_reachable ?rc (RuntimeMonitor.state (monitor d)) \<and> auth d = auth_from_config c \<and> config d = c"
  proof induction
    case start
    have "RuntimeMonitor.config (runtime_new ?rc) = ?rc" by (simp add: runtime_new_def)
    with started show ?case by (auto simp: runtime_reachable_def intro: reachable.start)
  next
    case (step d i)
    note next_facts = daemon_next_follows [OF step.hyps(2), where P = P and E = E and r = r and fallback = fallback]
    from next_facts(1) step.IH have "reachable E (cache_config c) (store (daemon_next P E r fallback i d))"
      by (auto simp: store_follows_def intro: handled_reachable)
    moreover from next_facts(2) step.IH have
      "runtime_reachable ?rc (RuntimeMonitor.state (monitor (daemon_next P E r fallback i d)))"
      by (auto simp: monitor_follows_def runtime_reachable_def intro: rtranclp.rtrancl_into_rtrancl)
    ultimately show ?case using next_facts step.IH by (simp add: monitor_follows_def)
  qed
  moreover have "CacheConfig.tasks (cache_config c) < 2 ^ 64" using size by (simp add: cache_config_def)
  ultimately show "reachable E (cache_config c) (store d)" "store_inv E (store d)"
    "runtime_reachable ?rc (RuntimeMonitor.state (monitor d))" "auth d = auth_from_config c" "config d = c"
    using store_caches.reachable_inv [OF E] by blast+
qed

text \<open>
  C35. The invariants hold in every state of a running daemon. Whatever requests, lines, datagrams,
  socket messages and collector ticks arrive, in whatever order and from whomever, the store is in a state that
  its own operations reach, so that all its invariants hold, the monitor is in a state of its state machine and
  satisfies its invariant, and the policy is the one of the validated configuration.
\<close>
theorem daemon_keeps_its_invariants:
  assumes E: "store_caches E" and run: "run_daemon E S bind_listener getenv now c = Some (Inr (d0, r, t))"
    and size: "task_capacity c < 2 ^ 64" and reach: "daemon_reachable P E fallback r d0 d"
  shows "reachable E (cache_config c) (store d) \<and> store_inv E (store d) \<and>
    runtime_reachable (runtime_config_from_env getenv) (RuntimeMonitor.state (monitor d)) \<and>
    runtime_inv (runtime_config_from_env getenv) (RuntimeMonitor.state (monitor d)) \<and>
    auth d = auth_from_config c \<and> config d = c"
  using daemon_reachable_facts [OF assms] runtime_inv_reachable by blast

section \<open>What the daemon retains\<close>

text \<open>
  A record of the event log is well-formed if its envelope satisfies every validation rule and, when it
  came over UDP, is of a kind that UDP may carry.
\<close>

definition record_ok :: "EventRecord \<Rightarrow> bool" where
  "record_ok rec \<longleftrightarrow> validate_envelope (EventRecord.event rec) = Inr () \<and>
     (EventRecord.transport rec = Udp \<longrightarrow> allowed_over_udp (EventEnvelope.event (EventRecord.event rec)))"

definition log_ok :: "('a, 'g, 't, 'l, 'e, 'i) caches \<Rightarrow> ('a, 'g, 't, 'l, 'e, 'i) StoreInner \<Rightarrow> bool" where
  "log_ok E s \<longleftrightarrow> list_all (\<lambda>x. record_ok (snd x)) (lru_iter (events_lru E) (StoreInner.events s))"

lemma log_ok_ingest:
  assumes E: "store_caches E" and inv: "store_inv E s" and log: "log_ok E s"
    and via: "via = Udp \<longrightarrow> allowed_over_udp (EventEnvelope.event ev)"
  shows "log_ok E (snd (snd (ingest E ev via now s)))"
proof (cases "validate_envelope ev")
  case (Inl err)
  with log show ?thesis by (simp add: ingest_def record_rejection_def log_ok_def)
next
  case (Inr u)
  then have valid: "validate_envelope ev = Inr ()" by simp
  note wf = store_caches.store_inv_wf [OF E inv]
  show ?thesis
  proof (cases "seen_of E s (EventEnvelope.event_id ev)")
    case None
    from store_caches.ingest_fresh [OF E wf valid None, of via now] obtain c where
      "snd (snd (ingest E ev via now s)) = snd (snd (ingest_new E ev via now (s\<lparr>seen_event_ids := c\<rparr>)))"
      by (auto simp: Let_def prod.case_eq_if)
    then have "StoreInner.events (snd (snd (ingest E ev via now s))) =
        snd (push_with_eviction (events_lru E) (StoreInner.events s) (EventEnvelope.event_id ev)
          \<lparr>EventRecord.event = ev, transport = via, received_at = now\<rparr>)"
      by (simp add: store_caches.ingest_new_state [OF E])
    moreover have "lru_cache (events_lru E)" "lru_wf (events_lru E) (StoreInner.events s)"
      using E wf by (simp_all add: store_caches_def caches_wf_def)
    ultimately show ?thesis
      using log valid via store_caches.push_keeps [OF E, of "events_lru E" "StoreInner.events s" "\<lambda>x. record_ok (snd x)"]
      by (simp add: log_ok_def record_ok_def)
  next
    case (Some n)
    from store_caches.ingest_known [OF E wf valid Some, of via now] log show ?thesis by (auto simp: log_ok_def)
  qed
qed

lemma log_ok_follows: "store_caches E \<Longrightarrow> store_inv E s \<Longrightarrow> log_ok E s \<Longrightarrow> store_follows E s t \<Longrightarrow> log_ok E t"
  by (auto simp: store_follows_def handled_def log_ok_ingest) (simp add: log_ok_def record_rejection_def)

lemma log_ok_new: "store_caches E \<Longrightarrow> store_new E cache now = Some s \<Longrightarrow> log_ok E s"
  by (auto simp: log_ok_def store_new_def new_cache_def store_caches_def lru_cache.iter_new split: option.splits if_splits Option.bind_splits)

text \<open>
  C37. Only well-formed events are ever retained or shown. In every state of a running daemon, every event in the
  log, and so every event that a snapshot lists, satisfies all the validation rules of the protocol, is
  stored under its own identifier, and did not arrive over UDP unless it is of a kind that UDP may carry.
\<close>
theorem retained_events_are_well_formed:
  assumes E: "store_caches E" and run: "run_daemon E S bind_listener getenv now c = Some (Inr (d0, r, t))"
    and size: "task_capacity c < 2 ^ 64" and reach: "daemon_reachable P E fallback r d0 d"
  shows "(\<forall>(k, rec) \<in> set (lru_iter (events_lru E) (StoreInner.events (store d))).
      k = EventEnvelope.event_id (EventRecord.event rec) \<and> record_ok rec) \<and>
    (\<forall>rec \<in> set (Snapshot.recent_events (snapshot E later (store d))). record_ok rec)"
proof -
  from reach have "log_ok E (store d)"
  proof induction
    case start
    from log_ok_new [OF E run_daemon_started(2) [OF run]] show ?case .
  next
    case (step d i)
    from log_ok_follows [OF E daemon_reachable_facts(2) [OF E run size step.hyps(1)] step.IH daemon_next_follows(1) [OF step.hyps(2)]]
    show ?case .
  qed
  moreover have "list_all event_keyed (lru_iter (events_lru E) (StoreInner.events (store d)))"
    using daemon_reachable_facts(2) [OF assms] by (simp add: store_inv_def)
  ultimately show ?thesis
    by (auto simp: log_ok_def list_all_iff event_keyed_def snapshot_def dest!: in_set_takeD)
qed

section \<open>Callers without the token\<close>



text \<open>Nothing an agent or an operator could observe or cause has changed.\<close>

definition undisturbed :: "('a, 'g, 't, 'l, 'e, 'i) AppState \<Rightarrow> ('a, 'g, 't, 'l, 'e, 'i) AppState \<Rightarrow> bool" where
  "undisturbed d0 d \<longleftrightarrow>
     StoreIngest.projection (store d) = StoreIngest.projection (store d0) \<and> agent_sockets d = agent_sockets d0 \<and>
     auth d = auth d0 \<and> config d = config d0 \<and>
     RuntimeMonitor.collection_enabled (monitor d) = RuntimeMonitor.collection_enabled (monitor d0) \<and>
     hooks (RuntimeMonitor.state (monitor d)) = hooks (RuntimeMonitor.state (monitor d0)) \<and>
     hook_agents (RuntimeMonitor.state (monitor d)) = hook_agents (RuntimeMonitor.state (monitor d0)) \<and>
     commands (RuntimeMonitor.state (monitor d)) = commands (RuntimeMonitor.state (monitor d0))"

lemma undisturbed_refl [simp]: "undisturbed d d"
  by (simp add: undisturbed_def)


lemma undisturbed_reject [simp]: "undisturbed d (d\<lparr>store := record_rejection via (store d)\<rparr>)"
  by (simp add: undisturbed_def)













section \<open>A concrete daemon\<close>

abbreviation demo_bind :: "string \<Rightarrow> SocketAddr \<Rightarrow> string + (string + SocketAddr)" where
  "demo_bind \<equiv> \<lambda>_ a. Inr (Inr a)"

abbreviation remote_test :: Config where
  "remote_test \<equiv> local_test\<lparr>http_addr := \<lparr>ip = V4 0 0 0 0, port = 80\<rparr>\<rparr>"

lemma demo_configs_valid:
  "config_validate local_test = Inr ()" "config_validate remote_test = Inr ()" "has_non_loopback_listener remote_test"
  "\<not> allow_unauthenticated_remote remote_test"
  by code_simp+

lemma demo_configs_small:
  "update_channel_capacity local_test \<le> (2 ^ 64 - 1) div 2" "max_tcp_connections local_test \<le> MAX_PERMITS"
  "update_channel_capacity remote_test \<le> (2 ^ 64 - 1) div 2" "max_tcp_connections remote_test \<le> MAX_PERMITS"
  "task_capacity local_test < 2 ^ 64"
  by (simp_all add: local_test_def Let_def MAX_PERMITS_def)

lemma demo_channel_fits: "channel_fits list_caches (update_channel_capacity local_test)"
  using config_validate_positive [OF demo_configs_valid(1)] demo_configs_small(1) by (simp add: list_caches_def)

theorem validated_configurations_start_witness:
  "\<exists>d r t. run_daemon list_caches counter_semaphore demo_bind (\<lambda>_. None) (0, 0) local_test = Some (Inr (d, r, t))"
  using validated_configurations_start [OF counter.semaphore_axioms list_channel.broadcast_channel_axioms, THEN conjunct1, rule_format,
      of local_test demo_bind "\<lambda>_. None" "(0, 0)"] demo_configs_valid(1) demo_configs_small(2) demo_channel_fits list_caches_fit by blast

lemma remote_test_runs:
  "\<exists>d r t. run_daemon list_caches counter_semaphore demo_bind (\<lambda>_. None) (0, 0) remote_test = Some (Inr (d, r, t))"
proof -
  obtain s where "store_new list_caches (cache_config remote_test) (0, 0) = Some s"
    using store_new_validated [OF demo_configs_valid(2)] list_caches_fit by blast
  moreover have "channel_fits list_caches (update_channel_capacity remote_test)" using demo_channel_fits by simp
  moreover have "\<exists>t. serve_start counter_semaphore (max_tcp_connections remote_test) = Some t"
    using demo_configs_small(4) by (simp add: serve_start_def counter_semaphore_def)
  ultimately show ?thesis
    using demo_configs_valid(2)
    by (auto simp: run_daemon_def daemon_bind_def bind_one_def daemon_serve_def router_with_runtime_eq)
qed

theorem daemon_keeps_its_invariants_witness:
  "\<exists>d r t. run_daemon list_caches counter_semaphore demo_bind (\<lambda>_. None) (0, 0) remote_test = Some (Inr (d, r, t)) \<and>
     store_inv list_caches (store (daemon_next demo_platform list_caches r (\<lambda>_. \<lparr>status_code = 404, response_headers = [], content = NoRoute\<rparr>)
       (Datagram ''x'' (0, 0)) d))"
proof -
  let ?f = "\<lambda>_. \<lparr>status_code = 404, response_headers = [], content = NoRoute\<rparr>"
  obtain d r t where run: "run_daemon list_caches counter_semaphore demo_bind (\<lambda>_. None) (0, 0) remote_test = Some (Inr (d, r, t))"
    using remote_test_runs by blast
  have "daemon_reachable demo_platform list_caches ?f r d (daemon_next demo_platform list_caches r ?f (Datagram ''x'' (0, 0)) d)"
    by (rule daemon_reachable.step [OF daemon_reachable.start]) (simp add: fresh_input_def)
  moreover have "task_capacity remote_test < 2 ^ 64" using demo_configs_small(5) by simp
  ultimately show ?thesis using daemon_keeps_its_invariants [OF list_store.store_caches_axioms run] run by blast
qed

theorem retained_events_are_well_formed_witness:
  "\<exists>d r t. run_daemon list_caches counter_semaphore demo_bind (\<lambda>_. None) (0, 0) remote_test = Some (Inr (d, r, t)) \<and>
     list_all record_ok (Snapshot.recent_events (snapshot list_caches (0, 0)
       (store (daemon_next demo_platform list_caches r (\<lambda>_. \<lparr>status_code = 404, response_headers = [], content = NoRoute\<rparr>)
         (TcpLine (Inr ''x'') (0, 0)) d))))"
proof -
  let ?f = "\<lambda>_. \<lparr>status_code = 404, response_headers = [], content = NoRoute\<rparr>"
  obtain d r t where run: "run_daemon list_caches counter_semaphore demo_bind (\<lambda>_. None) (0, 0) remote_test = Some (Inr (d, r, t))"
    using remote_test_runs by blast
  have "daemon_reachable demo_platform list_caches ?f r d (daemon_next demo_platform list_caches r ?f (TcpLine (Inr ''x'') (0, 0)) d)"
    by (rule daemon_reachable.step [OF daemon_reachable.start]) (simp add: fresh_input_def)
  moreover have "task_capacity remote_test < 2 ^ 64" using demo_configs_small(5) by simp
  ultimately show ?thesis
    using retained_events_are_well_formed [OF list_store.store_caches_axioms run, of demo_platform ?f _ "(0, 0)"] run
    by (auto simp: list_all_iff)
qed


end
