(* ===== verification/Tools.thy ===== *)
theory Tools
  imports Client Api Provider
begin

text \<open>
  The command-line tools, \<open>src/bin\<close>. \<open>meta-agent-sidecar\<close> reads observations of a model
  provider from its standard input, one JSON object per line, normalizes them and forwards them with the
  event client; \<open>meta-agent-plan\<close> computes a coordination plan from a stored snapshot.

  The parser of the command line, \<open>serde_json\<close>, the parser of socket addresses and the file system are
  third-party code and appear as arguments. Standard input is the list of what reading its lines
  yields, each with the identifier, the clock and the network at the time of that line.
\<close>

section \<open>The sidecar\<close>

datatype ProviderArg = OpenAiArg | AnthropicArg | GeminiArg

datatype TransportArg = HttpArg | WebSocketArg | TcpArg | UdpArg

record SidecarArgs =
  provider_arg :: ProviderArg
  transport_arg :: TransportArg
  endpoint_arg :: "string option"
  token_arg :: "string option"
  timeout_seconds :: nat
  max_response_arg :: nat
  dry_run :: bool

text \<open>The arguments of a call that names the provider only.\<close>

definition sidecar_defaults :: "ProviderArg \<Rightarrow> SidecarArgs" where
  "sidecar_defaults p =
     \<lparr>provider_arg = p, transport_arg = HttpArg, endpoint_arg = None, token_arg = None, timeout_seconds = 10,
      max_response_arg = 256 * 1024, dry_run = False\<rparr>"

datatype SidecarError =
    EmptyInput
  | LineJson nat string
  | LineAdapter nat AdapterError
  | LineClient nat ClientError
  | SocketAddress string string
  | ZeroTimeout
  | SidecarIo string
  | SidecarClientConfig ClientError

text \<open>What the sidecar uses of other packages: the three observation decoders, the JSON parser, the address parser, and
  what the event client uses.\<close>

record Outside =
  from_value :: "ProviderKind \<Rightarrow> json \<Rightarrow> string + Observation"
  json_from_str :: "string \<Rightarrow> string + json"
  parse_address :: "string \<Rightarrow> string + SocketAddr"
  uri_from_str :: "string \<Rightarrow> string + Uri"
  client_request :: "string \<Rightarrow> string + unit"
  header_accepts :: "string \<Rightarrow> bool"
  codec :: Codec

record InputLine =
  line_text :: "string + string"
  line_uuid :: Uuid
  line_now :: DateTime
  line_network :: Network

text \<open>A line of output is the JSON text of one of these values.\<close>

datatype Printed = PrintedAck IngestAck | PrintedEvent EventEnvelope

fun arg_normalize :: "Outside \<Rightarrow> ProviderArg \<Rightarrow> Uuid \<Rightarrow> DateTime \<Rightarrow> json \<Rightarrow> AdapterError + EventEnvelope" where
  "arg_normalize X OpenAiArg new_v4 now v = normalize_openai (from_value X OpenAi) new_v4 now v"
| "arg_normalize X AnthropicArg new_v4 now v = normalize_anthropic (from_value X Anthropic) new_v4 now v"
| "arg_normalize X GeminiArg new_v4 now v = normalize_gemini (from_value X Gemini) new_v4 now v"

fun default_endpoint :: "TransportArg \<Rightarrow> string" where
  "default_endpoint HttpArg = ''http://127.0.0.1:8787/api/v1/events''"
| "default_endpoint WebSocketArg = ''ws://127.0.0.1:8787/ws/agent''"
| "default_endpoint TcpArg = ''127.0.0.1:8788''"
| "default_endpoint UdpArg = ''127.0.0.1:8789''"

definition parse_socket_address :: "Outside \<Rightarrow> string \<Rightarrow> SidecarError + SocketAddr" where
  "parse_socket_address X text =
     (case parse_address X text of Inl err \<Rightarrow> Inl (SocketAddress text err) | Inr a \<Rightarrow> Inr a)"

definition sidecar_transport :: "Outside \<Rightarrow> SidecarArgs \<Rightarrow> SidecarError + ClientTransport" where
  "sidecar_transport X args =
     (let text = (case endpoint_arg args of None \<Rightarrow> default_endpoint (transport_arg args) | Some t \<Rightarrow> t) in
      case transport_arg args of
        HttpArg \<Rightarrow> Inr (HttpTo text)
      | WebSocketArg \<Rightarrow> Inr (WebSocketTo text)
      | TcpArg \<Rightarrow> map_sum id TcpTo (parse_socket_address X text)
      | UdpArg \<Rightarrow> map_sum id UdpTo (parse_socket_address X text))"

definition sidecar_client :: "Outside \<Rightarrow> SidecarArgs \<Rightarrow> SidecarError + ClientConfig option" where
  "sidecar_client X args =
     (if dry_run args then Inr None
      else (case sidecar_transport X args of
          Inl err \<Rightarrow> Inl err
        | Inr to \<Rightarrow>
            map_sum SidecarClientConfig Some
              (event_client_new (uri_from_str X) (client_request X)
                (with_max_response_bytes (max_response_arg args)
                  (with_timeout (timeout_seconds args * 10 ^ 9) (client_config_new to (token_arg args)))))))"

text \<open>
  One line that is not blank: the strings handed to the network, and the line of output or the error.
\<close>

definition forward_line ::
  "Outside \<Rightarrow> SidecarArgs \<Rightarrow> ClientConfig option \<Rightarrow> nat \<Rightarrow> string \<Rightarrow> InputLine \<Rightarrow> string list \<times> (SidecarError + Printed)" where
  "forward_line X args client line_number line i =
     (case json_from_str X line of
        Inl err \<Rightarrow> ([], Inl (LineJson line_number err))
      | Inr value \<Rightarrow>
          (case arg_normalize X (provider_arg args) (line_uuid i) (line_now i) value of
             Inl err \<Rightarrow> ([], Inl (LineAdapter line_number err))
           | Inr ev \<Rightarrow>
               (case client of
                  None \<Rightarrow> ([], Inr (PrintedEvent ev))
                | Some c \<Rightarrow>
                    map_prod id (map_sum (LineClient line_number) PrintedAck)
                      (client_send (uri_from_str X) (client_request X) (header_accepts X) (codec X) (line_network i) c ev))))"

text \<open>The loop over the lines; it yields the strings sent, the lines printed, and the number of observations.\<close>

fun sidecar_lines ::
  "Outside \<Rightarrow> SidecarArgs \<Rightarrow> ClientConfig option \<Rightarrow> nat \<Rightarrow> nat \<Rightarrow> InputLine list \<Rightarrow>
   string list \<times> Printed list \<times> (SidecarError + nat)" where
  "sidecar_lines X args client line_number seen [] = ([], [], Inr seen)"
| "sidecar_lines X args client line_number seen (i # rest) =
     (case line_text i of
        Inl err \<Rightarrow> ([], [], Inl (SidecarIo err))
      | Inr line \<Rightarrow>
          let number = saturating_usize_add line_number 1 in
          if str_trim line = [] then sidecar_lines X args client number seen rest
          else (case forward_line X args client number line i of
              (sent, Inl err) \<Rightarrow> (sent, [], Inl err)
            | (sent, Inr out) \<Rightarrow>
                (case sidecar_lines X args client number (saturating_usize_add seen 1) rest of
                   (sents, outs, r) \<Rightarrow> (sent @ sents, out # outs, r))))"

definition sidecar_run ::
  "Outside \<Rightarrow> SidecarArgs \<Rightarrow> InputLine list \<Rightarrow> string list \<times> Printed list \<times> (SidecarError + unit)" where
  "sidecar_run X args stdin =
     (if timeout_seconds args = 0 then ([], [], Inl ZeroTimeout)
      else (case sidecar_client X args of
          Inl err \<Rightarrow> ([], [], Inl err)
        | Inr client \<Rightarrow>
            (case sidecar_lines X args client 0 0 stdin of
               (sent, outs, Inl err) \<Rightarrow> (sent, outs, Inl err)
             | (sent, outs, Inr seen) \<Rightarrow>
                 (sent, outs, if seen = 0 then Inl EmptyInput else Inr ()))))"

section \<open>The planner\<close>

record PlanArgs =
  input_path :: "string option"
  max_assignments_arg :: nat
  max_assignments_per_agent_arg :: nat
  max_interventions_arg :: nat
  max_holds_arg :: nat
  stale_after_seconds_arg :: int
  retry_loop_attempts_arg :: u32
  low_confidence_threshold_arg :: f32
  pretty :: bool

text \<open>The arguments of a call without options; 0.45 rounds to the \<open>f32\<close> with these bits.\<close>

definition plan_defaults :: PlanArgs where
  "plan_defaults =
     \<lparr>input_path = None, max_assignments_arg = 16, max_assignments_per_agent_arg = 2, max_interventions_arg = 32,
      max_holds_arg = 64, stale_after_seconds_arg = 15 * 60, retry_loop_attempts_arg = 3,
      low_confidence_threshold_arg = 0x3EE66666, pretty = False\<rparr>"

datatype CliError = CliRead string | CliJson string | CliPlanning PlanningError

definition read_input :: "(string \<Rightarrow> string + string) \<Rightarrow> string + string \<Rightarrow> string option \<Rightarrow> string + string" where
  "read_input read_file stdin p =
     (case p of
        Some name \<Rightarrow> if name \<noteq> ''-'' then read_file name else stdin
      | None \<Rightarrow> stdin)"

text \<open>The two encoders of \<open>serde_json\<close>, the compact one and the pretty one.\<close>

definition plan_run ::
  "(string \<Rightarrow> string + string) \<Rightarrow> string + string \<Rightarrow> (string \<Rightarrow> string + Snapshot) \<Rightarrow>
   (CoordinationPlan \<Rightarrow> string + string) \<Rightarrow> (CoordinationPlan \<Rightarrow> string + string) \<Rightarrow> (DateTime \<Rightarrow> DateTime \<Rightarrow> int) \<Rightarrow>
   PlanArgs \<Rightarrow> CliError + string" where
  "plan_run read_file stdin snapshot_from_str to_string to_string_pretty since args =
     (case read_input read_file stdin (input_path args) of
        Inl err \<Rightarrow> Inl (CliRead err)
      | Inr text \<Rightarrow>
          (case snapshot_from_str text of
             Inl err \<Rightarrow> Inl (CliJson err)
           | Inr snap \<Rightarrow>
               (case build_plan_with_policy since snap
                  \<lparr>stale_after_seconds = stale_after_seconds_arg args, retry_loop_attempts = retry_loop_attempts_arg args,
                   low_confidence_threshold = low_confidence_threshold_arg args\<rparr>
                  \<lparr>PlanningPolicy.max_assignments = max_assignments_arg args,
                   max_assignments_per_agent = max_assignments_per_agent_arg args,
                   max_interventions = max_interventions_arg args, max_holds = max_holds_arg args\<rparr> of
                  Inl err \<Rightarrow> Inl (CliPlanning err)
                | Inr plan \<Rightarrow> map_sum CliJson id (if pretty args then to_string_pretty plan else to_string plan))))"

end
