(* ===== verification/ToolSpec.thy ===== *)
theory ToolSpec
  imports Tools ClientSpec ApiSpec
begin

text \<open>
  Properties of the command-line tools: the sidecar forwards exactly the observations it reads, in
  order, and stops at the first line that fails; the planner computes the plan that the coordination
  API serves.
\<close>

section \<open>The sidecar\<close>

text \<open>A line that holds an observation.\<close>

definition holds_observation :: "InputLine \<Rightarrow> bool" where
  "holds_observation i = (case line_text i of Inl _ \<Rightarrow> False | Inr line \<Rightarrow> str_trim line \<noteq> [])"

definition readable :: "InputLine \<Rightarrow> bool" where
  "readable i = (\<exists>line. line_text i = Inr line)"

text \<open>
  What a line of output says about its line of input. The payload has no forbidden key at any depth; a
  dry run prints the normalized event, otherwise the event was valid and the line
  printed is its acknowledgement.
\<close>

definition forwarded :: "Outside \<Rightarrow> SidecarArgs \<Rightarrow> Printed \<Rightarrow> InputLine \<Rightarrow> bool" where
  "forwarded X args out i \<longleftrightarrow>
     (\<exists>line v ev. line_text i = Inr line \<and> json_from_str X line = Inr v \<and>
        (\<forall>k \<in> set (json_keys v). str_lower k \<notin> set FORBIDDEN_REASONING_KEYS) \<and>
        arg_normalize X (provider_arg args) (line_uuid i) (line_now i) v = Inr ev \<and>
        (case out of
           PrintedEvent e \<Rightarrow> dry_run args \<and> e = ev
         | PrintedAck ack \<Rightarrow> \<not> dry_run args \<and> validate_envelope ev = Inr () \<and> IngestAck.accepted ack \<and>
             IngestAck.event_id ack = EventEnvelope.event_id ev))"

text \<open>The error of the first line that fails, when \<open>before\<close> lines precede it.\<close>

definition fails_at :: "Outside \<Rightarrow> SidecarArgs \<Rightarrow> ClientConfig option \<Rightarrow> nat \<Rightarrow> InputLine \<Rightarrow> SidecarError \<Rightarrow> bool" where
  "fails_at X args client before i err =
     (case line_text i of
        Inl text \<Rightarrow> err = SidecarIo text
      | Inr line \<Rightarrow> str_trim line \<noteq> [] \<and> snd (forward_line X args client (before + 1) line i) = Inl err)"

text \<open>A run over \<open>stdin\<close> that stopped at its first failing line, after forwarding every observation before it.\<close>

definition stopped_at ::
  "Outside \<Rightarrow> SidecarArgs \<Rightarrow> ClientConfig option \<Rightarrow> nat \<Rightarrow> InputLine list \<Rightarrow> Printed list \<Rightarrow> SidecarError \<Rightarrow> bool" where
  "stopped_at X args client n stdin outs err \<longleftrightarrow>
     (\<exists>pre i post. stdin = pre @ i # post \<and> list_all readable pre \<and>
        length outs = length (filter holds_observation pre) \<and> fails_at X args client (n + length pre) i err)"

lemma stopped_at_first: "fails_at X args client n i err \<Longrightarrow> stopped_at X args client n (i # rest) [] err"
  unfolding stopped_at_def by (intro exI [of _ "[]"]) simp

lemma stopped_at_later:
  assumes "stopped_at X args client (n + 1) rest outs' err" and "readable i"
    and "length outs = length outs' + (if holds_observation i then 1 else 0)"
  shows "stopped_at X args client n (i # rest) outs err"
proof -
  from assms(1) obtain pre j post where "rest = pre @ j # post" "list_all readable pre"
    "length outs' = length (filter holds_observation pre)" "fails_at X args client (n + 1 + length pre) j err"
    unfolding stopped_at_def by blast
  with assms(2,3) show ?thesis
    unfolding stopped_at_def by (intro exI [of _ "i # pre"] exI [of _ j] exI [of _ post]) simp
qed

lemma arg_normalize_clean:
  assumes "arg_normalize X p new_v4 now v = Inr ev"
  shows "\<forall>k \<in> set (json_keys v). str_lower k \<notin> set FORBIDDEN_REASONING_KEYS"
proof -
  have "reject_hidden_reasoning v = Inr ()"
    using assms
    by (cases p) (simp_all add: normalize_openai_def normalize_anthropic_def normalize_gemini_def normalize_with_def split: sum.splits)
  then show ?thesis
    by (auto simp: reject_first_forbidden first_forbidden_def find_None_iff forbidden_key_def ok_def split: option.splits)
qed

lemma client_send_acknowledged:
  assumes "client_send parse_uri into_client_request header_value C N c ev = (sent, Inr ack)"
  shows "validate_envelope ev = Inr () \<and> IngestAck.accepted ack \<and> IngestAck.event_id ack = EventEnvelope.event_id ev"
  using assms by (auto simp: client_send_def client_success validate_ack_ok)

text \<open>The client that a run of the sidecar holds.\<close>

definition client_of :: "SidecarArgs \<Rightarrow> ClientConfig option \<Rightarrow> bool" where
  "client_of args client \<longleftrightarrow> (client = None \<longleftrightarrow> dry_run args)"

lemma sidecar_client_of: "sidecar_client X args = Inr client \<Longrightarrow> client_of args client"
  by (auto simp: sidecar_client_def client_of_def map_sum_Inr split: if_splits sum.splits)

lemma forward_line_Inr:
  assumes "client_of args client" and "line_text i = Inr line"
    and "forward_line X args client n line i = (sent, Inr out)"
  shows "forwarded X args out i"
proof -
  from assms(3) obtain v ev where v: "json_from_str X line = Inr v"
    and ev: "arg_normalize X (provider_arg args) (line_uuid i) (line_now i) v = Inr ev"
    by (auto simp: forward_line_def split: sum.splits)
  have "case out of
           PrintedEvent e \<Rightarrow> dry_run args \<and> e = ev
         | PrintedAck ack \<Rightarrow> \<not> dry_run args \<and> validate_envelope ev = Inr () \<and> IngestAck.accepted ack \<and>
             IngestAck.event_id ack = EventEnvelope.event_id ev"
  proof (cases client)
    case None
    with assms v ev show ?thesis by (auto simp: forward_line_def client_of_def)
  next
    case (Some c)
    with assms(3) v ev obtain ack where
      "client_send (uri_from_str X) (client_request X) (header_accepts X) (codec X) (line_network i) c ev = (sent, Inr ack)"
      "out = PrintedAck ack"
      by (auto simp: forward_line_def map_prod_def map_sum_Inr split: prod.splits)
    with client_send_acknowledged Some assms(1) show ?thesis by (auto simp: client_of_def)
  qed
  with assms(2) v ev arg_normalize_clean [OF ev] show ?thesis by (auto simp: forwarded_def)
qed

lemma saturating_usize_add_small: "a + b < 2 ^ 64 \<Longrightarrow> saturating_usize_add a b = a + b"
  by (simp add: saturating_usize_add_def)

text \<open>The loop: what it printed, when it reached the end, and where it stopped otherwise.\<close>

lemma sidecar_lines_exact:
  assumes "client_of args client" and "sidecar_lines X args client n k stdin = (sent, outs, r)"
    and "n + length stdin < 2 ^ 64" and "k + length stdin < 2 ^ 64"
  shows "list_all2 (forwarded X args) outs (take (length outs) (filter holds_observation stdin)) \<and>
    (dry_run args \<longrightarrow> sent = []) \<and>
    (case r of
       Inr tot \<Rightarrow> list_all readable stdin \<and> length outs = length (filter holds_observation stdin) \<and> tot = k + length outs
     | Inl err \<Rightarrow> stopped_at X args client n stdin outs err)"
  using assms(2-)
proof (induction stdin arbitrary: n k sent outs r)
  case Nil
  then show ?case by auto
next
  case (Cons i rest)
  have n: "saturating_usize_add n 1 = n + 1" using Cons.prems(2) by (simp add: saturating_usize_add_small)
  show ?case
  proof (cases "line_text i")
    case (Inl msg)
    with Cons.prems(1) stopped_at_first [of X args client n i "SidecarIo msg" rest] show ?thesis by (auto simp: fails_at_def)
  next
    case (Inr line)
    have read: "readable i" using Inr by (simp add: readable_def)
    show ?thesis
    proof (cases "str_trim line = []")
      case True
      then have blank: "\<not> holds_observation i" using Inr by (simp add: holds_observation_def)
      have "sidecar_lines X args client (n + 1) k rest = (sent, outs, r)" using Cons.prems(1) Inr True n by (simp add: Let_def)
      from Cons.IH [OF this] Cons.prems(2,3) blank read stopped_at_later [of X args client n rest outs _ i outs] show ?thesis
        by (cases r) auto
    next
      case False
      then have obs: "holds_observation i" using Inr by (simp add: holds_observation_def)
      have k: "saturating_usize_add k 1 = k + 1" using Cons.prems(3) by (simp add: saturating_usize_add_small)
      obtain now_sent res where fwd: "forward_line X args client (n + 1) line i = (now_sent, res)" by (cases "forward_line X args client (n + 1) line i")
      have quiet: "now_sent = []" if "dry_run args"
        using fwd that assms(1) by (auto simp: forward_line_def client_of_def split: sum.splits)
      show ?thesis
      proof (cases res)
        case (Inl err)
        then show ?thesis
          using Cons.prems(1) Inr False n fwd stopped_at_first [of X args client n i err rest] quiet by (auto simp: Let_def fails_at_def)
      next
        case out: (Inr out)
        obtain sents outs' r' where next_lines: "sidecar_lines X args client (n + 1) (k + 1) rest = (sents, outs', r')"
          by (cases "sidecar_lines X args client (n + 1) (k + 1) rest")
        have result: "sent = now_sent @ sents" "outs = out # outs'" "r = r'"
          using Cons.prems(1) Inr False n k fwd out next_lines by (auto simp: Let_def)
        have "forwarded X args out i" using forward_line_Inr [OF assms(1) Inr] fwd out by simp
        with Cons.IH [OF next_lines] Cons.prems(2,3) result obs read stopped_at_later [of X args client n rest outs' _ i outs] quiet show ?thesis
          by (cases r) auto
      qed
    qed
  qed
qed

lemma sidecar_lines_token: "sidecar_lines X (args\<lparr>token_arg := tok\<rparr>) client n k stdin = sidecar_lines X args client n k stdin"
  by (induction stdin arbitrary: n k) (simp_all add: forward_line_def Let_def split: sum.splits prod.splits)

text \<open>
  C39. The sidecar forwards exactly what it reads. The lines it prints correspond, in order, to the first
  lines of its input that are not blank: each comes from a payload without any forbidden reasoning key, and is the
  normalized event in a dry run and the acknowledgement of that event otherwise. When the run succeeds, the whole
  input was read, every line that is not blank was forwarded, and there was at least one. When it fails after its client
  was set up, either the input held no observation, or the error is that of the first failing line, under its
  number, and exactly the observations before it were forwarded. A dry run writes nothing to the network, and its output does
  not depend on the token.
\<close>
theorem sidecar_forwards_exactly:
  assumes run: "sidecar_run X args stdin = (sent, outs, r)" and size: "length stdin < 2 ^ 64"
  shows "list_all2 (forwarded X args) outs (take (length outs) (filter holds_observation stdin)) \<and>
    (dry_run args \<longrightarrow> sent = [] \<and> sidecar_run X (args\<lparr>token_arg := tok\<rparr>) stdin = (sent, outs, r)) \<and>
    (r = Inr () \<longrightarrow> list_all readable stdin \<and> outs \<noteq> [] \<and> length outs = length (filter holds_observation stdin)) \<and>
    (\<forall>client err. timeout_seconds args \<noteq> 0 \<and> sidecar_client X args = Inr client \<and> r = Inl err \<longrightarrow>
      (err = EmptyInput \<and> filter holds_observation stdin = []) \<or>
      stopped_at X args client 0 stdin outs err)"
proof (cases "timeout_seconds args = 0 \<or> (\<exists>err. sidecar_client X args = Inl err)")
  case True
  then show ?thesis using run by (auto simp: sidecar_run_def sidecar_client_def split: if_splits)
next
  case False
  then obtain client where client: "sidecar_client X args = Inr client" and positive: "timeout_seconds args \<noteq> 0"
    by (cases "sidecar_client X args") auto
  obtain lr where lines: "sidecar_lines X args client 0 0 stdin = (sent, outs, lr)"
    and r: "r = (case lr of Inl err \<Rightarrow> Inl err | Inr seen \<Rightarrow> if seen = 0 then Inl EmptyInput else Inr ())"
    using run client positive by (auto simp: sidecar_run_def split: prod.splits sum.splits)
  note exact = sidecar_lines_exact [OF sidecar_client_of [OF client] lines] size
  have "sidecar_run X (args\<lparr>token_arg := tok\<rparr>) stdin = (sent, outs, r)" if "dry_run args"
    using run that positive by (simp add: sidecar_run_def sidecar_client_def sidecar_lines_token)
  with exact r client show ?thesis by (cases lr) auto
qed

definition demo_observation :: Observation where
  "demo_observation =
     \<lparr>response_id = ''r'',
      adapter_context = \<lparr>AdapterContext.agent_id = ''a'', model = ''m'', instance_id = None, session_id = None,
        correlation_id = None, sequence = None\<rparr>,
      update = ObservedToolCall \<lparr>ToolCallData.task_id = ''t'', tool_name = ''n'', call_id = ''c'', summary = ''s'', attempt = 1\<rparr>\<rparr>"

definition demo_outside :: Outside where
  "demo_outside =
     \<lparr>from_value = \<lambda>_ _. Inr demo_observation,
      json_from_str = \<lambda>t. if t = ''bad'' then Inl ''eof'' else Inr (JObject [(''kind'', JNull)]),
      parse_address = \<lambda>_. Inl ''address'', uri_from_str = \<lambda>_. Inl ''uri'', client_request = \<lambda>_. Inr (),
      header_accepts = \<lambda>_. True, codec = demo_line_codec\<rparr>"

definition demo_line :: "string \<Rightarrow> InputLine" where
  "demo_line t = \<lparr>line_text = Inr t, line_uuid = 7, line_now = (0, 0), line_network = demo_network ''n'' []\<rparr>"

theorem sidecar_forwards_exactly_witness:
  "\<exists>ev. sidecar_run demo_outside (sidecar_defaults GeminiArg\<lparr>dry_run := True\<rparr>) (map demo_line [''{}'', '' '', ''bad'']) =
     ([], [PrintedEvent ev], Inl (LineJson 3 ''eof'')) \<and>
   forwarded demo_outside (sidecar_defaults GeminiArg\<lparr>dry_run := True\<rparr>) (PrintedEvent ev) (demo_line ''{}'')"
proof -
  let ?args = "sidecar_defaults GeminiArg\<lparr>dry_run := True\<rparr>"
  have blank: "str_trim '' '' = []" "str_trim ''{}'' \<noteq> []" "str_trim ''bad'' \<noteq> []" by code_simp+
  have clean: "reject_hidden_reasoning (JObject [(''kind'', JNull)]) = Inr ()" by code_simp
  obtain ev where run: "sidecar_run demo_outside ?args (map demo_line [''{}'', '' '', ''bad'']) =
     ([], [PrintedEvent ev], Inl (LineJson 3 ''eof''))"
    using blank clean
    by (simp add: sidecar_run_def sidecar_client_def sidecar_defaults_def demo_line_def forward_line_def demo_outside_def
        normalize_gemini_def normalize_with_def saturating_usize_add_def Let_def)
  have "filter holds_observation (map demo_line [''{}'', '' '', ''bad'']) = [demo_line ''{}'', demo_line ''bad'']"
    using blank by (simp add: holds_observation_def demo_line_def)
  with sidecar_forwards_exactly [OF run, of None] run show ?thesis by auto
qed

section \<open>The planner\<close>

text \<open>The options that ask for the policy of a parsed query.\<close>

definition options_of_query :: "PlanningQuery \<Rightarrow> PlanArgs \<Rightarrow> PlanArgs" where
  "options_of_query q args =
     args\<lparr>max_assignments_arg := unwrap_or (PlanningQuery.max_assignments q) (max_assignments_arg args),
       max_assignments_per_agent_arg :=
         unwrap_or (PlanningQuery.max_assignments_per_agent q) (max_assignments_per_agent_arg args),
       max_interventions_arg := unwrap_or (PlanningQuery.max_interventions q) (max_interventions_arg args),
       max_holds_arg := unwrap_or (PlanningQuery.max_holds q) (max_holds_arg args)\<rparr>"

text \<open>
  The planner agrees with the coordination API. Given a snapshot of the store as its input, and the options that
  correspond to a query the API accepts (none for the parameters that the query leaves out), the tool prints the
  encoding of exactly the plan the API serves for that query; so the defaults of the two agree. A
  limit of zero is refused by the tool with the planner's own error.
\<close>
theorem plan_tool_agrees_with_api:
  assumes reads: "authorize_read ct_eq p (bearer_token h) = Inr ()" and query: "planning_query_parse raw = Inr q"
    and snap: "stdin = Inr doc" "snapshot_from_str doc = Inr snap"
  shows "(\<exists>plan. plan_api ct_eq since p h raw snap = Inr plan \<and>
      plan_run read_file stdin snapshot_from_str to_string to_string_pretty since (options_of_query q plan_defaults) =
        map_sum CliJson id (to_string plan)) \<and>
    plan_run read_file stdin snapshot_from_str to_string to_string_pretty since (plan_defaults\<lparr>max_holds_arg := 0\<rparr>) =
      Inl (CliPlanning (InvalidPolicy ''maximum holds''))"
proof -
  let ?args = "options_of_query q plan_defaults"
  have policies:
    "\<lparr>stale_after_seconds = stale_after_seconds_arg ?args, retry_loop_attempts = retry_loop_attempts_arg ?args,
      low_confidence_threshold = low_confidence_threshold_arg ?args\<rparr> = analysis_policy_default"
    "\<lparr>PlanningPolicy.max_assignments = max_assignments_arg ?args, max_assignments_per_agent = max_assignments_per_agent_arg ?args,
      max_interventions = max_interventions_arg ?args, max_holds = max_holds_arg ?args\<rparr> = planning_query_policy q"
    by (simp_all add: options_of_query_def plan_defaults_def analysis_policy_default_def planning_query_policy_def
        planning_policy_default_def)
  have input: "read_input read_file stdin (input_path ?args) = Inr doc" "\<not> pretty ?args"
    using snap by (simp_all add: read_input_def options_of_query_def plan_defaults_def)
  obtain plan where plan: "build_plan_with_policy since snap analysis_policy_default (planning_query_policy q) = Inr plan"
    using plan_within_succeeds [OF planning_query_policy_within [OF query]] by blast
  then have "plan_api ct_eq since p h raw snap = Inr plan" using reads query by (simp add: plan_api_def)
  moreover have "plan_run read_file stdin snapshot_from_str to_string to_string_pretty since ?args = map_sum CliJson id (to_string plan)"
    unfolding plan_run_def policies using input snap plan by simp
  moreover have "plan_run read_file stdin snapshot_from_str to_string to_string_pretty since (plan_defaults\<lparr>max_holds_arg := 0\<rparr>) =
      Inl (CliPlanning (InvalidPolicy ''maximum holds''))"
    using snap by (simp add: plan_run_def read_input_def plan_defaults_def build_plan_with_policy_def validate_planning_policy_def
        guard_err_def run_checks.simps ok_def)
  ultimately show ?thesis by blast
qed

theorem plan_tool_agrees_with_api_witness:
  "\<exists>plan. plan_api (\<lambda>a b. list_all2 (=) a b) (\<lambda>_ _. 0) \<lparr>AuthPolicy.token = None, protect_reads = True\<rparr> None
       (Some ''max_holds=7'') (snapshot list_caches (0, 0) demo_s0) = Inr plan \<and>
     plan_run (\<lambda>_. Inl ''file'') (Inr ''doc'') (\<lambda>_. Inr (snapshot list_caches (0, 0) demo_s0)) (\<lambda>_. Inr ''plan'') (\<lambda>_. Inl [])
       (\<lambda>_ _. 0) (plan_defaults\<lparr>max_holds_arg := 7\<rparr>) = Inr ''plan''"
proof -
  let ?p = "\<lparr>AuthPolicy.token = None, protect_reads = True\<rparr>"
  have reads: "authorize_read (\<lambda>a b. list_all2 (=) a b) ?p (bearer_token None) = Inr ()" by code_simp
  have query: "planning_query_parse (Some ''max_holds=7'') = Inr (planning_query_default\<lparr>PlanningQuery.max_holds := Some 7\<rparr>)"
    by code_simp
  have "options_of_query (planning_query_default\<lparr>PlanningQuery.max_holds := Some 7\<rparr>) plan_defaults = plan_defaults\<lparr>max_holds_arg := 7\<rparr>"
    by (simp add: options_of_query_def planning_query_default_def plan_defaults_def unwrap_or_def)
  with plan_tool_agrees_with_api [OF reads query, where stdin = "Inr ''doc''" and doc = "''doc''" and
      snapshot_from_str = "\<lambda>_. Inr (snapshot list_caches (0, 0) demo_s0)" and since = "\<lambda>_ _. 0" and read_file = "\<lambda>_. Inl ''file''" and
      snap = "snapshot list_caches (0, 0) demo_s0" and to_string = "\<lambda>_. Inr ''plan''" and to_string_pretty = "\<lambda>_. Inl []"]
  show ?thesis by auto
qed

end
