(* ===== verification/Redact.thy ===== *)
theory Redact
  imports Client
begin

text \<open>
  The hand-written \<open>Debug\<close> implementations of the values that carry a token: \<open>Config\<close>, \<open>AuthPolicy\<close>, \<open>TransportFrame\<close>,
  \<open>TransportPayload\<close>, \<open>ClientConfig\<close> and \<open>EventClient\<close>. What the formatter builds is a tree of named fields whose leaves are
  values with a derived implementation.
\<close>

datatype debug_value =
    DebugBool bool
  | DebugNat nat
  | DebugText string
  | DebugAddr SocketAddr
  | DebugTarget ClientTransport
  | DebugEnvelope EventEnvelope
  | DebugStruct string "(string \<times> debug_value) list"
  | DebugTuple string "debug_value list"

definition debug_config :: "Config \<Rightarrow> debug_value" where
  "debug_config c = DebugStruct ''Config''
     [(''http_addr'', DebugAddr (http_addr c)),
      (''tcp_addr'', DebugAddr (tcp_addr c)),
      (''udp_addr'', DebugAddr (udp_addr c)),
      (''auth_token_configured'', DebugBool (auth_token c \<noteq> None)),
      (''allow_unauthenticated_remote'', DebugBool (allow_unauthenticated_remote c)),
      (''protect_read_api'', DebugBool (protect_read_api c)),
      (''cors_any'', DebugBool (cors_any c)),
      (''max_payload_bytes'', DebugNat (max_payload_bytes c)),
      (''max_udp_payload_bytes'', DebugNat (max_udp_payload_bytes c)),
      (''max_tcp_connections'', DebugNat (max_tcp_connections c)),
      (''agent_capacity'', DebugNat (agent_capacity c)),
      (''goal_capacity'', DebugNat (goal_capacity c)),
      (''task_capacity'', DebugNat (task_capacity c)),
      (''lesson_capacity'', DebugNat (lesson_capacity c)),
      (''event_capacity'', DebugNat (event_capacity c)),
      (''idempotency_capacity'', DebugNat (idempotency_capacity c)),
      (''update_channel_capacity'', DebugNat (update_channel_capacity c)),
      (''log_filter'', DebugText (log_filter c)),
      (''log_json'', DebugBool (log_json c))]"

definition debug_auth_policy :: "AuthPolicy \<Rightarrow> debug_value" where
  "debug_auth_policy p = DebugStruct ''AuthPolicy''
     [(''token_configured'', DebugBool (AuthPolicy.token p \<noteq> None)), (''protect_reads'', DebugBool (protect_reads p))]"

definition debug_frame :: "TransportFrame \<Rightarrow> debug_value" where
  "debug_frame f = DebugStruct ''TransportFrame''
     [(''token_configured'', DebugBool (TransportFrame.token f \<noteq> None)), (''event'', DebugEnvelope (TransportFrame.event f))]"

fun debug_payload :: "TransportPayload \<Rightarrow> debug_value" where
  "debug_payload (Frame f) = DebugTuple ''Frame'' [debug_frame f]"
| "debug_payload (Event e) = DebugTuple ''Event'' [DebugEnvelope e]"

definition debug_client_config :: "ClientConfig \<Rightarrow> debug_value" where
  "debug_client_config c = DebugStruct ''ClientConfig''
     [(''transport'', DebugTarget (ClientConfig.transport c)),
      (''token_configured'', DebugBool (ClientConfig.token c \<noteq> None)),
      (''timeout'', DebugNat (timeout c)),
      (''max_response_bytes'', DebugNat (max_response_bytes c))]"

definition debug_event_client :: "ClientConfig \<Rightarrow> debug_value" where
  "debug_event_client c = DebugStruct ''EventClient'' [(''config'', debug_client_config c)]"

text \<open>
  The output tells two values apart that differ in something other than the token, and never two that
  differ in a configured token only.
\<close>

lemma debug_config_redacts:
  "debug_config c = debug_config c' \<longleftrightarrow>
     c\<lparr>auth_token := None\<rparr> = c'\<lparr>auth_token := None\<rparr> \<and> (auth_token c = None \<longleftrightarrow> auth_token c' = None)"
  by (cases c; cases c') (auto simp: debug_config_def)

lemma debug_tokens_redacted:
  "debug_auth_policy (p\<lparr>AuthPolicy.token := Some t\<rparr>) = debug_auth_policy (p\<lparr>AuthPolicy.token := Some u\<rparr>)"
  "debug_payload (Frame (f\<lparr>TransportFrame.token := Some t\<rparr>)) = debug_payload (Frame (f\<lparr>TransportFrame.token := Some u\<rparr>))"
  "debug_event_client (k\<lparr>ClientConfig.token := Some t\<rparr>) = debug_event_client (k\<lparr>ClientConfig.token := Some u\<rparr>)"
  by (simp_all add: debug_auth_policy_def debug_frame_def debug_event_client_def debug_client_config_def)

end
