(* ===== verification/Live.thy ===== *)
theory Live
  imports UiStream StoreSpec
begin

text \<open>
  The announcement of updates. \<open>Store::ingest\<close> changes the projection under the lock of the store and sends the
  update after it has released the lock (\<open>src/store.rs\<close>), so other threads may ingest and send between the two. The
  record \<open>LiveStore\<close> is the shared projection with the updates that are still to be sent and those that were sent, and
  \<open>live_step\<close> interleaves the two halves in every way. A receiver is the position in the sent updates at which
  it subscribed. Between the release of the lock and the send there is no point at which a task can be cancelled,
  so every update is sent in the end. The capacity of the channel shows in a receiver that fell behind: it yields the number of updates it
  lost instead of them.
\<close>

section \<open>The two halves of an ingestion\<close>

record ('a, 'g, 't, 'l, 'e, 'i) LiveStore =
  shared :: "('a, 'g, 't, 'l, 'e, 'i) StoreInner"
  unpublished :: "StoreUpdate list"
  published :: "StoreUpdate list"

definition live_start ::
  "('a, 'g, 't, 'l, 'e, 'i) caches \<Rightarrow> CacheConfig \<Rightarrow> DateTime \<Rightarrow> ('a, 'g, 't, 'l, 'e, 'i) LiveStore option" where
  "live_start E cache now = map_option (\<lambda>s. \<lparr>shared = s, unpublished = [], published = []\<rparr>) (store_new E cache now)"

definition live_ingest ::
  "('a, 'g, 't, 'l, 'e, 'i) caches \<Rightarrow> EventEnvelope \<Rightarrow> Transport \<Rightarrow> DateTime \<Rightarrow> ('a, 'g, 't, 'l, 'e, 'i) LiveStore \<Rightarrow>
   (StoreError + IngestAck) \<times> ('a, 'g, 't, 'l, 'e, 'i) LiveStore" where
  "live_ingest E ev via now l =
     (case ingest E ev via now (shared l) of (r, u, s) \<Rightarrow>
        (r, l\<lparr>shared := s, unpublished := unpublished l @ (case u of None \<Rightarrow> [] | Some x \<Rightarrow> [x])\<rparr>))"

definition live_publish :: "StoreUpdate \<Rightarrow> ('a, 'g, 't, 'l, 'e, 'i) LiveStore \<Rightarrow> ('a, 'g, 't, 'l, 'e, 'i) LiveStore" where
  "live_publish u l = l\<lparr>unpublished := remove1 u (unpublished l), published := published l @ [u]\<rparr>"

definition subscribe :: "('a, 'g, 't, 'l, 'e, 'i) LiveStore \<Rightarrow> nat" where
  "subscribe l = length (published l)"

definition received :: "nat \<Rightarrow> ('a, 'g, 't, 'l, 'e, 'i) LiveStore \<Rightarrow> StoreUpdate list" where
  "received start l = drop start (published l)"

inductive live_step ::
  "('a, 'g, 't, 'l, 'e, 'i) caches \<Rightarrow> ('a, 'g, 't, 'l, 'e, 'i) LiveStore \<Rightarrow> ('a, 'g, 't, 'l, 'e, 'i) LiveStore \<Rightarrow> bool" for E where
  ingest: "live_step E l (snd (live_ingest E ev via now l))"
| reject: "live_step E l (l\<lparr>shared := record_rejection via (shared l)\<rparr>)"
| publish: "u \<in> set (unpublished l) \<Longrightarrow> live_step E l (live_publish u l)"

abbreviation live_run where "live_run E \<equiv> (live_step E)\<^sup>*\<^sup>*"

section \<open>Revisions\<close>

abbreviation current :: "('a, 'g, 't, 'l, 'e, 'i) LiveStore \<Rightarrow> u64" where
  "current l \<equiv> StoreInner.revision (shared l)"

lemma ingest_revision:
  assumes "store_caches E" and "ingest E ev via now s = (r, u, t)"
  shows "case u of None \<Rightarrow> StoreInner.revision t = StoreInner.revision s
    | Some x \<Rightarrow> StoreUpdate.revision x = StoreInner.revision t \<and> StoreInner.revision t = sat_add (StoreInner.revision s) 1"
  using assms(2)
  by (auto simp: ingest_def ingest_duplicate_def record_rejection_def Let_def prod.case_eq_if store_caches.ingest_new_state [OF assms(1)]
      store_caches.ingest_new_ack [OF assms(1)] split: sum.splits if_splits)

text \<open>What a step does to the revision and the updates.\<close>

lemma live_step_cases:
  assumes E: "store_caches E" and step: "live_step E l l'"
  obtains (announce) u where "current l' = sat_add (current l) 1" "StoreUpdate.revision u = current l'"
      "unpublished l' = unpublished l @ [u]" "published l' = published l"
  | (silent) "current l' = current l" "unpublished l' = unpublished l" "published l' = published l"
  | (publish) u where "u \<in> set (unpublished l)" "current l' = current l" "unpublished l' = remove1 u (unpublished l)"
      "published l' = published l @ [u]"
  using step
proof cases
  case (ingest ev via now)
  obtain r u s where i: "ingest E ev via now (shared l) = (r, u, s)" by (cases "ingest E ev via now (shared l)")
  note rev = ingest_revision [OF E i]
  show thesis
  proof (cases u)
    case None
    with ingest i rev show thesis by (intro silent) (simp_all add: live_ingest_def)
  next
    case (Some x)
    with ingest i rev show thesis by (intro announce [of x]) (simp_all add: live_ingest_def)
  qed
next
  case (reject via)
  then show thesis by (intro silent) (simp_all add: record_rejection_def)
next
  case (publish u)
  then show thesis by (intro that(3)) (simp_all add: live_publish_def)
qed

text \<open>
  No update is announced before it can be read, and while the revision has not saturated, every revision has exactly
  one update.
\<close>

definition live_inv :: "('a, 'g, 't, 'l, 'e, 'i) LiveStore \<Rightarrow> bool" where
  "live_inv l \<longleftrightarrow> (\<forall>u \<in> set (unpublished l @ published l). StoreUpdate.revision u \<le> current l) \<and>
     (unat (current l) < 2 ^ 64 - 1 \<longrightarrow>
        mset (map (\<lambda>u. unat (StoreUpdate.revision u)) (unpublished l @ published l)) = mset [1..<Suc (unat (current l))])"

lemma live_inv_start: "live_start E cache now = Some l \<Longrightarrow> live_inv l"
  by (auto simp: live_start_def live_inv_def store_new_def split: option.splits)

lemma live_inv_step:
  assumes E: "store_caches E" and step: "live_step E l l'" and inv: "live_inv l"
  shows "live_inv l'"
  using E step
proof (cases rule: live_step_cases)
  case (announce u)
  have "unat (current l') = min (unat (current l) + 1) (2 ^ 64 - 1)" using announce(1) by (simp add: unat_sat_add)
  with announce inv sat_add_ge [of "current l" 1] show ?thesis
    by (auto simp: live_inv_def intro: order_trans)
next
  case silent
  with inv show ?thesis by (simp add: live_inv_def)
next
  case (publish u)
  then have "mset (unpublished l' @ published l') = mset (unpublished l @ published l)" by simp
  then have "set (unpublished l' @ published l') = set (unpublished l @ published l)"
    and "mset (map f (unpublished l' @ published l')) = mset (map f (unpublished l @ published l))" for f :: "StoreUpdate \<Rightarrow> nat"
    by (metis set_mset_mset) (metis mset_map \<open>mset (unpublished l' @ published l') = mset (unpublished l @ published l)\<close>)
  with inv publish(2) show ?thesis unfolding live_inv_def by simp
qed

lemma live_inv_run: "live_run E l l' \<Longrightarrow> store_caches E \<Longrightarrow> live_inv l \<Longrightarrow> live_inv l'"
  by (induction rule: rtranclp_induct) (auto intro: live_inv_step)

text \<open>After a run that changed the revision, the newest revision is announced after the start of the run, or is about to be.\<close>

lemma live_run_announces:
  assumes E: "store_caches E" and run: "live_run E l l'"
  shows "\<exists>news. published l' = published l @ news \<and>
    (current l' = current l \<or> (\<exists>u \<in> set (unpublished l' @ news). StoreUpdate.revision u = current l'))"
  using run
proof (induction rule: rtranclp_induct)
  case base
  then show ?case by simp
next
  case (step m n)
  then obtain news where news: "published m = published l @ news"
    "current m = current l \<or> (\<exists>u \<in> set (unpublished m @ news). StoreUpdate.revision u = current m)" by blast
  from E step.hyps(2) show ?case
  proof (cases rule: live_step_cases)
    case (announce u)
    with news show ?thesis by auto
  next
    case silent
    with news show ?thesis by auto
  next
    case (publish u)
    have "x \<in> insert u (set (unpublished n))" if "x \<in> set (unpublished m)" for x
      using that publish(3) by (cases "x = u") simp_all
    then have "set (unpublished m @ news) \<subseteq> set (unpublished n @ news @ [u])" by auto
    with news(2) publish(2) have "current n = current l \<or> (\<exists>x \<in> set (unpublished n @ news @ [u]). StoreUpdate.revision x = current n)"
      by auto
    with publish(4) news(1) show ?thesis by (intro exI [of _ "news @ [u]"]) simp
  qed
qed

section \<open>Delivery to a page\<close>

text \<open>The stream stays open: every send succeeds and neither side closes.\<close>

fun stays_open :: "ui_event list \<Rightarrow> bool" where
  "stays_open [] = True"
| "stays_open (FromChannel item ok_sent # evs) = (ok_sent \<and> item \<noteq> ChannelClosed \<and> stays_open evs)"
| "stays_open (FromSocket incoming ok_sent # evs) =
     (ok_sent \<and> incoming \<notin> {None, Some WsClose, Some WsProtocolError} \<and> stays_open evs)"

text \<open>The items of a receiver that has caught up with the updates.\<close>

fun channel_drained :: "StoreUpdate list \<Rightarrow> channel_item list \<Rightarrow> bool" where
  "channel_drained us [] = (us = [])"
| "channel_drained us (Update u # items) = (case us of [] \<Rightarrow> False | v # vs \<Rightarrow> u = v \<and> channel_drained vs items)"
| "channel_drained us (Lagged n # items) = (0 < n \<and> n \<le> length us \<and> channel_drained (drop n us) items)"
| "channel_drained us (ChannelClosed # items) = False"

lemma stream_delivers:
  assumes "\<And>u. encode_update u \<noteq> None" and "stays_open evs" and "channel_drained us (channel_items evs)" and "u \<in> set us"
  shows "(\<exists>payload. UiUpdate u payload \<in> set (ui_stream encode_update evs)) \<or>
    (\<exists>n. UiResyncRequired n \<in> set (ui_stream encode_update evs))"
  using assms(2-)
proof (induction evs arbitrary: us)
  case (Cons e evs)
  show ?case
  proof (cases e)
    case (FromChannel item ok_sent)
    show ?thesis
    proof (cases item)
      case (Update v)
      obtain payload where payload: "encode_update v = Some payload" using assms(1) by blast
      from Cons.prems FromChannel Update obtain vs where "us = v # vs" "channel_drained vs (channel_items evs)"
        by (cases us) auto
      with Cons.IH [of vs] Cons.prems FromChannel Update payload show ?thesis by auto
    qed (use Cons.prems FromChannel in auto)
  next
    case (FromSocket incoming ok_sent)
    with Cons.prems(1) obtain m where "incoming = Some m" "m \<noteq> WsClose" "m \<noteq> WsProtocolError" by (cases incoming) auto
    with Cons.IH [of us] Cons.prems FromSocket show ?thesis by (cases m) auto
  qed
qed simp

text \<open>
  C31. Pages that follow the announcements become current. Let a receiver subscribe, then let the page read the
  store, and let the store come to rest later with every update sent, however the ingestions and the sends of all threads
  interleave. If the stream to the page stays open until the receiver has caught up, then either the page
  has read the final revision, or it is told of the final revision or to read again. An announced revision can always be
  read, and below the saturation of the counter every revision is announced exactly once.
\<close>
theorem pages_become_current:
  assumes E: "store_caches E" and start: "live_start E cache t0 = Some l0"
    and runs: "live_run E l0 subscribed" "live_run E subscribed read" "live_run E read final" and rest: "unpublished final = []"
    and encode: "\<And>u. encode_update u \<noteq> None" and stream: "stays_open evs"
    and caught_up: "channel_drained (received (subscribe subscribed) final) (channel_items evs)"
  shows "(StoreInner.revision (shared final) = Snapshot.revision (snapshot E now (shared read)) \<or>
      (\<exists>u payload. UiUpdate u payload \<in> set (ui_stream encode_update evs) \<and> StoreUpdate.revision u = StoreInner.revision (shared final)) \<or>
      (\<exists>n. UiResyncRequired n \<in> set (ui_stream encode_update evs))) \<and>
    (\<forall>u \<in> set (published read). StoreUpdate.revision u \<le> StoreInner.revision (shared read)) \<and>
    (unat (StoreInner.revision (shared final)) < 2 ^ 64 - 1 \<longrightarrow>
      mset (map (\<lambda>u. unat (StoreUpdate.revision u)) (published final)) = mset [1..<Suc (unat (StoreInner.revision (shared final)))])"
proof -
  have inv: "live_inv read" "live_inv final"
    using live_inv_start [OF start] live_inv_run [OF _ E] runs by blast+
  obtain early where early: "published read = published subscribed @ early"
    using live_run_announces [OF E runs(2)] by blast
  obtain news where news: "published final = published read @ news"
    "current final = current read \<or> (\<exists>u \<in> set news. StoreUpdate.revision u = current final)"
    using live_run_announces [OF E runs(3)] rest by auto
  then have got: "received (subscribe subscribed) final = early @ news"
    using early by (simp add: received_def subscribe_def)
  have "current final = current read \<or>
      (\<exists>u payload. UiUpdate u payload \<in> set (ui_stream encode_update evs) \<and> StoreUpdate.revision u = current final) \<or>
      (\<exists>n. UiResyncRequired n \<in> set (ui_stream encode_update evs))"
    using news(2) stream_delivers [OF encode stream caught_up] unfolding got by fastforce
  moreover have "Snapshot.revision (snapshot E now (shared read)) = current read" by (simp add: snapshot_def)
  ultimately show ?thesis using inv rest by (auto simp: live_inv_def)
qed

section \<open>Interleavings\<close>

definition demo_u1 :: StoreUpdate where "demo_u1 = the (fst (snd (ingest list_caches demo_e1 Http (10, 5) demo_s0)))"
definition demo_u2 :: StoreUpdate where "demo_u2 = the (fst (snd (ingest list_caches demo_e2 Tcp (11, 5) demo_s1)))"

definition demo_live where
  "demo_live s us vs = \<lparr>shared = s, unpublished = us, published = vs\<rparr>"

lemma demo_updates:
  "fst (snd (ingest list_caches demo_e1 Http (10, 5) demo_s0)) = Some demo_u1" "StoreUpdate.revision demo_u1 = 1"
  "fst (snd (ingest list_caches demo_e2 Tcp (11, 5) demo_s1)) = Some demo_u2" "StoreUpdate.revision demo_u2 = 2"
  "StoreInner.revision demo_s0 = 0" "StoreInner.revision demo_s1 = 1" "StoreInner.revision demo_s2 = 2"
  by code_simp+

lemma demo_live_steps:
  "live_step list_caches (demo_live demo_s0 us vs) (demo_live demo_s1 (us @ [demo_u1]) vs)"
  "live_step list_caches (demo_live demo_s1 us vs) (demo_live demo_s2 (us @ [demo_u2]) vs)"
  "u \<in> set us \<Longrightarrow> live_step list_caches (demo_live s us vs) (demo_live s (remove1 u us) (vs @ [u]))"
proof -
  show "live_step list_caches (demo_live demo_s0 us vs) (demo_live demo_s1 (us @ [demo_u1]) vs)"
    using live_step.ingest [of list_caches "demo_live demo_s0 us vs" demo_e1 Http "(10, 5)"] demo_updates(1)
    by (simp add: live_ingest_def demo_live_def demo_s1_def prod.case_eq_if)
  show "live_step list_caches (demo_live demo_s1 us vs) (demo_live demo_s2 (us @ [demo_u2]) vs)"
    using live_step.ingest [of list_caches "demo_live demo_s1 us vs" demo_e2 Tcp "(11, 5)"] demo_updates(3)
    by (simp add: live_ingest_def demo_live_def demo_s2_def prod.case_eq_if)
  show "live_step list_caches (demo_live s us vs) (demo_live s (remove1 u us) (vs @ [u]))" if "u \<in> set us"
    using live_step.publish [of u "demo_live s us vs" list_caches] that by (simp add: live_publish_def demo_live_def)
qed

text \<open>The updates can be announced out of the order of their revisions.\<close>

lemma updates_out_of_order:
  "live_run list_caches (demo_live demo_s0 [] []) (demo_live demo_s2 [] [demo_u2, demo_u1])"
proof -
  have different: "demo_u1 \<noteq> demo_u2" using demo_updates(2,4) by auto
  have "live_run list_caches (demo_live demo_s0 [] []) (demo_live demo_s2 [demo_u1, demo_u2] [])"
    using demo_live_steps(1) [of "[]" "[]"] demo_live_steps(2) [of "[demo_u1]" "[]"] by (simp add: rtranclp.rtrancl_into_rtrancl)
  moreover have "live_step list_caches (demo_live demo_s2 [demo_u1, demo_u2] []) (demo_live demo_s2 [demo_u1] [demo_u2])"
    using demo_live_steps(3) [of demo_u2 "[demo_u1, demo_u2]" demo_s2 "[]"] different by simp
  moreover have "live_step list_caches (demo_live demo_s2 [demo_u1] [demo_u2]) (demo_live demo_s2 [] [demo_u2, demo_u1])"
    using demo_live_steps(3) [of demo_u1 "[demo_u1]" demo_s2 "[demo_u2]"] by simp
  ultimately show ?thesis by (meson rtranclp.rtrancl_into_rtrancl)
qed

text \<open>
  The page reads the store when it is greeted, and \<open>handle_ui_socket\<close> subscribes only after the greeting. An update that is sent between
  the two is neither in what the page has read nor in what its receiver gets.
\<close>

lemma update_missed_before_subscription:
  "\<exists>read subscribed. live_run list_caches (demo_live demo_s0 [] []) read \<and> live_run list_caches read subscribed \<and>
     unpublished subscribed = [] \<and> received (subscribe subscribed) subscribed = [] \<and>
     Snapshot.revision (snapshot list_caches now (shared read)) < StoreInner.revision (shared subscribed)"
proof -
  have "live_run list_caches (demo_live demo_s0 [] []) (demo_live demo_s1 [] [demo_u1])"
    using demo_live_steps(1) [of "[]" "[]"] demo_live_steps(3) [of demo_u1 "[demo_u1]" demo_s1 "[]"]
    by (simp add: rtranclp.rtrancl_into_rtrancl)
  then show ?thesis
    using demo_updates
    by (intro exI [of _ "demo_live demo_s0 [] []"] exI [of _ "demo_live demo_s1 [] [demo_u1]"])
      (simp add: received_def subscribe_def demo_live_def snapshot_def)
qed

theorem pages_become_current_witness:
  "\<exists>u payload. UiUpdate u payload \<in> set (ui_stream (\<lambda>_. Some []) [FromChannel (Update demo_u2) True, FromChannel (Update demo_u1) True]) \<and>
     StoreUpdate.revision u = StoreInner.revision demo_s2"
proof -
  let ?evs = "[FromChannel (Update demo_u2) True, FromChannel (Update demo_u1) True]"
  let ?start = "demo_live demo_s0 [] []"
  have start: "live_start list_caches demo_cache (0, 0) = Some ?start"
    by (simp add: live_start_def demo_live_def demo_s0_def store_new_def new_cache_def demo_cache_def list_caches_def list_lru_def)
  have "channel_drained (received (subscribe ?start) (demo_live demo_s2 [] [demo_u2, demo_u1])) (channel_items ?evs)"
    by (simp add: received_def subscribe_def demo_live_def)
  from pages_become_current [OF list_store.store_caches_axioms start _ _ updates_out_of_order _ _ _ this, where encode_update = "\<lambda>_. Some []"]
  show ?thesis by (auto simp: demo_live_def snapshot_def demo_updates)
qed

end
