(* ===== verification/Replay.thy ===== *)
theory Replay
  imports DaemonSpec
begin

text \<open>
  The store as a replay of its events. The abstract machine \<open>replay_step\<close> applies one recorded event to the
  projection and appends it to the log; it has no identifiers to remember, no counters of messages and no
  tokens. The daemon refines it: whatever it handles, its projection is the replay of the accepted events.
\<close>

section \<open>The abstract machine\<close>

text \<open>What an operator can see of the store: everything but the remembered identifiers and the message counters.\<close>

definition view ::
  "('a, 'g, 't, 'l, 'e, 'i) StoreInner \<Rightarrow> 'a \<times> 'g \<times> 't \<times> 'l \<times> 'e \<times> EvictionCounters \<times> u64 \<times> DateTime" where
  "view s = (StoreInner.agents s, StoreInner.goals s, StoreInner.tasks s, StoreInner.lessons s, StoreInner.events s,
     (StoreInner.evictions s)\<lparr>EvictionCounters.idempotency := 0\<rparr>, StoreInner.revision s, StoreInner.started_at s)"

definition replay_step ::
  "('a, 'g, 't, 'l, 'e, 'i) caches \<Rightarrow> EventRecord \<Rightarrow> ('a, 'g, 't, 'l, 'e, 'i) StoreInner \<Rightarrow> ('a, 'g, 't, 'l, 'e, 'i) StoreInner" where
  "replay_step E rec s =
     (let s1 = apply_event E (EventRecord.event rec) s;
          (displaced, log) = push_with_eviction (events_lru E) (StoreInner.events s1)
            (EventEnvelope.event_id (EventRecord.event rec)) rec
      in s1\<lparr>StoreInner.events := log, StoreInner.revision := sat_add (StoreInner.revision s1) 1,
           StoreInner.evictions := (StoreInner.evictions s1)
             \<lparr>EvictionCounters.events := bump (displaced \<noteq> None) (EvictionCounters.events (StoreInner.evictions s1))\<rparr>\<rparr>)"

section \<open>The reducer does not look behind the view\<close>

definition behind :: "'i \<Rightarrow> Counters \<Rightarrow> u64 \<Rightarrow> ('a, 'g, 't, 'l, 'e, 'i) StoreInner \<Rightarrow> ('a, 'g, 't, 'l, 'e, 'i) StoreInner" where
  "behind i c n s = s\<lparr>seen_event_ids := i, StoreInner.counters := c,
     StoreInner.evictions := (StoreInner.evictions s)\<lparr>EvictionCounters.idempotency := n\<rparr>\<rparr>"

lemma view_behind: "view (behind i c n s) = view s"
  by (simp add: view_def behind_def)

lemma view_eq_behind:
  assumes "view s = view t"
  shows "t = behind (seen_event_ids t) (StoreInner.counters t) (EvictionCounters.idempotency (StoreInner.evictions t)) s"
proof -
  have "StoreInner.evictions t = (StoreInner.evictions s)\<lparr>EvictionCounters.idempotency := EvictionCounters.idempotency (StoreInner.evictions t)\<rparr>"
    using assms by (cases "StoreInner.evictions s"; cases "StoreInner.evictions t") (simp add: view_def)
  with assms show ?thesis by (cases s; cases t) (simp add: view_def behind_def)
qed

lemma behind_sel [simp]:
  "StoreInner.agents (behind i c n s) = StoreInner.agents s" "StoreInner.goals (behind i c n s) = StoreInner.goals s"
  "StoreInner.tasks (behind i c n s) = StoreInner.tasks s" "StoreInner.lessons (behind i c n s) = StoreInner.lessons s"
  "StoreInner.events (behind i c n s) = StoreInner.events s" "StoreInner.revision (behind i c n s) = StoreInner.revision s"
  "StoreInner.evictions (behind i c n s) = (StoreInner.evictions s)\<lparr>EvictionCounters.idempotency := n\<rparr>"
  by (simp_all add: behind_def)

lemma behind_upd [simp]:
  "(behind i c n s)\<lparr>StoreInner.agents := x1\<rparr> = behind i c n (s\<lparr>StoreInner.agents := x1\<rparr>)"
  "(behind i c n s)\<lparr>StoreInner.goals := x2\<rparr> = behind i c n (s\<lparr>StoreInner.goals := x2\<rparr>)"
  "(behind i c n s)\<lparr>StoreInner.tasks := x3\<rparr> = behind i c n (s\<lparr>StoreInner.tasks := x3\<rparr>)"
  "(behind i c n s)\<lparr>StoreInner.lessons := x4\<rparr> = behind i c n (s\<lparr>StoreInner.lessons := x4\<rparr>)"
  "(behind i c n s)\<lparr>StoreInner.events := x5\<rparr> = behind i c n (s\<lparr>StoreInner.events := x5\<rparr>)"
  "(behind i c n s)\<lparr>StoreInner.revision := x6\<rparr> = behind i c n (s\<lparr>StoreInner.revision := x6\<rparr>)"
  by (cases s; simp add: behind_def)+

lemma behind_evictions [simp]:
  "(behind i c n s)\<lparr>StoreInner.evictions := (v\<lparr>EvictionCounters.idempotency := n\<rparr>)\<rparr> = behind i c n (s\<lparr>StoreInner.evictions := v\<rparr>)"
  by (cases s; simp add: behind_def)

lemma evictions_commute [simp]:
  "v\<lparr>EvictionCounters.idempotency := n, EvictionCounters.agents := x1\<rparr> = v\<lparr>EvictionCounters.agents := x1, EvictionCounters.idempotency := n\<rparr>"
  "v\<lparr>EvictionCounters.idempotency := n, EvictionCounters.goals := x2\<rparr> = v\<lparr>EvictionCounters.goals := x2, EvictionCounters.idempotency := n\<rparr>"
  "v\<lparr>EvictionCounters.idempotency := n, EvictionCounters.tasks := x3\<rparr> = v\<lparr>EvictionCounters.tasks := x3, EvictionCounters.idempotency := n\<rparr>"
  "v\<lparr>EvictionCounters.idempotency := n, EvictionCounters.lessons := x4\<rparr> = v\<lparr>EvictionCounters.lessons := x4, EvictionCounters.idempotency := n\<rparr>"
  "v\<lparr>EvictionCounters.idempotency := n, EvictionCounters.events := x5\<rparr> = v\<lparr>EvictionCounters.events := x5, EvictionCounters.idempotency := n\<rparr>"
  by (cases v; simp)+

lemma behind_modify_agent [simp]: "modify_agent E a f (behind i c n s) = behind i c n (modify_agent E a f s)"
  by (simp add: modify_agent_def split: option.split)

lemma behind_modify_task [simp]: "modify_task E k occ f (behind i c n s) = map_prod id (behind i c n) (modify_task E k occ f s)"
  by (auto simp: modify_task_def split: option.split)

lemma behind_insert_task [simp]: "insert_task E k t (behind i c n s) = behind i c n (insert_task E k t s)"
  by (auto simp: insert_task_def split: option.split prod.split)

lemma behind_ensure [simp]:
  "ensure_task E tid a occ (behind i c n s) = behind i c n (ensure_task E tid a occ s)"
  "ensure_agent E e (behind i c n s) = behind i c n (ensure_agent E e s)"
  by (simp_all add: ensure_task_def ensure_agent_def task_counts_def Let_def prod.case_eq_if)

lemma behind_apply_event: "apply_event E e (behind i c n s) = behind i c n (apply_event E e s)"
  by (cases "EventEnvelope.event e")
    (simp_all add: apply_event_def apply_registered_def apply_heartbeat_def apply_goal_def apply_task_created_def
      apply_task_started_def apply_progress_def apply_reflection_def apply_lesson_def apply_error_def apply_completed_def
      apply_status_def Let_def prod.case_eq_if split: option.split)

lemma behind_replay_step: "replay_step E rec (behind i c n s) = behind i c n (replay_step E rec s)"
  by (simp add: replay_step_def behind_apply_event Let_def prod.case_eq_if)

lemma view_replay_step: "view s = view t \<Longrightarrow> view (replay_step E rec s) = view (replay_step E rec t)"
  by (metis view_eq_behind behind_replay_step view_behind)

section \<open>One step of the store\<close>

text \<open>Accepting a new event is a step of the abstract machine; nothing else changes the view.\<close>

lemma view_ingest_new:
  "view (snd (snd (ingest_new E ev via now s))) = view (replay_step E \<lparr>EventRecord.event = ev, transport = via, received_at = now\<rparr> s)"
  by (simp add: ingest_new_def replay_step_def view_def Let_def prod.case_eq_if)

lemma view_seen: "view (s\<lparr>seen_event_ids := c\<rparr>) = view s"
  by (simp add: view_def)

lemma view_counters: "view (s\<lparr>StoreInner.counters := x\<rparr>) = view s"
  by (simp add: view_def)

lemma view_ingest:
  assumes E: "store_caches E" and inv: "store_inv E s" and via: "via = Udp \<longrightarrow> allowed_over_udp (EventEnvelope.event ev)"
  shows "view (snd (snd (ingest E ev via now s))) = view s \<or>
    (\<exists>rec. record_ok rec \<and> view (snd (snd (ingest E ev via now s))) = view (replay_step E rec s))"
proof (cases "validate_envelope ev")
  case (Inl err)
  then show ?thesis by (simp add: ingest_def record_rejection_def view_counters)
next
  case (Inr u)
  then have valid: "validate_envelope ev = Inr ()" by simp
  note wf = store_caches.store_inv_wf [OF E inv]
  let ?rec = "\<lparr>EventRecord.event = ev, transport = via, received_at = now\<rparr>"
  show ?thesis
  proof (cases "seen_of E s (EventEnvelope.event_id ev)")
    case None
    from store_caches.ingest_fresh [OF E wf valid None, of via now] obtain c where
      "snd (snd (ingest E ev via now s)) = snd (snd (ingest_new E ev via now (s\<lparr>seen_event_ids := c\<rparr>)))"
      by (auto simp: Let_def prod.case_eq_if)
    then have "view (snd (snd (ingest E ev via now s))) = view (replay_step E ?rec s)"
      by (simp add: view_ingest_new view_replay_step [OF view_seen])
    moreover have "record_ok ?rec" using valid via by (simp add: record_ok_def)
    ultimately show ?thesis by blast
  next
    case (Some n)
    from store_caches.ingest_known [OF E wf valid Some, of via now] show ?thesis by (auto simp: view_def)
  qed
qed

lemma view_follows:
  assumes "store_caches E" and "store_inv E s" and "store_follows E s t"
  shows "view t = view s \<or> (\<exists>rec. record_ok rec \<and> view t = view (replay_step E rec s))"
proof -
  from assms(3) consider "t = s" | via where "t = record_rejection via s"
    | ev via now where "via = Udp \<longrightarrow> allowed_over_udp (EventEnvelope.event ev)" "t = snd (snd (ingest E ev via now s))"
    unfolding store_follows_def handled_def by blast
  then show ?thesis
  proof cases
    case 3
    with view_ingest [OF assms(1,2) 3(1)] show ?thesis by simp
  qed (simp_all add: record_rejection_def view_counters)
qed

section \<open>The log of a replay\<close>

lemma push_logged:
  assumes L: "lru_cache L" and wf: "lru_wf L c" and log: "lru_iter L c = map f (take (lru_cap L c) (rev recs))"
    and key: "\<And>x. f x = (k x, x)" and new: "distinct (map k (recs @ [rec]))"
  shows "lru_iter L (snd (lru_push L c (k rec) rec)) = map f (take (lru_cap L c) (rev (recs @ [rec])))"
proof -
  have absent: "map_of (lru_iter L c) (k rec) = None"
    using new by (auto simp: log key map_of_eq_None_iff dest!: in_set_takeD)
  from wf obtain n where n: "lru_cap L c = Suc n" by (cases "lru_cap L c") (auto simp: lru_wf_def)
  show ?thesis
  proof (cases "length recs < lru_cap L c")
    case True
    with lru_cache.push_room [OF L wf absent] log n key show ?thesis by simp
  next
    case False
    with lru_cache.push_full [OF L wf absent] log n key show ?thesis by (simp add: map_butlast [symmetric] butlast_take)
  qed
qed

definition record_id :: "EventRecord \<Rightarrow> Uuid" where
  "record_id rec = EventEnvelope.event_id (EventRecord.event rec)"

text \<open>The state agrees with the replay of the records: in its revision and, if no identifier occurs twice, in its log.\<close>

definition replays :: "('a, 'g, 't, 'l, 'e, 'i) caches \<Rightarrow> EventRecord list \<Rightarrow> ('a, 'g, 't, 'l, 'e, 'i) StoreInner \<Rightarrow> bool" where
  "replays E recs s \<longleftrightarrow> unat (StoreInner.revision s) = min (length recs) (2 ^ 64 - 1) \<and>
     (distinct (map record_id recs) \<longrightarrow>
        lru_iter (events_lru E) (StoreInner.events s) =
          map (\<lambda>rec. (record_id rec, rec)) (take (lru_cap (events_lru E) (StoreInner.events s)) (rev recs)))"

lemma replays_view: "view s = view t \<Longrightarrow> replays E recs s \<Longrightarrow> replays E recs t"
  by (simp add: view_def replays_def)

lemma replays_step:
  assumes E: "store_caches E" and inv: "store_inv E s" and r: "replays E recs s"
  shows "replays E (recs @ [rec]) (replay_step E rec s)"
proof -
  have log: "StoreInner.events (replay_step E rec s) = snd (lru_push (events_lru E) (StoreInner.events s) (record_id rec) rec)"
    "StoreInner.revision (replay_step E rec s) = sat_add (StoreInner.revision s) 1"
    using store_caches.log_part_apply_event [OF E, of "EventRecord.event rec" s]
    by (simp_all add: replay_step_def record_id_def Let_def prod.case_eq_if log_part_def store_caches.push_with_eviction_snd [OF E])
  have L: "lru_cache (events_lru E)" and wf: "lru_wf (events_lru E) (StoreInner.events s)"
    using E store_caches.store_inv_wf [OF E inv] by (simp_all add: store_caches_def caches_wf_def)
  have "unat (sat_add (StoreInner.revision s) 1) = min (length (recs @ [rec])) (2 ^ 64 - 1)"
    using r by (simp add: replays_def unat_sat_add)
  moreover have "lru_iter (events_lru E) (StoreInner.events (replay_step E rec s)) =
      map (\<lambda>x. (record_id x, x)) (take (lru_cap (events_lru E) (StoreInner.events (replay_step E rec s))) (rev (recs @ [rec])))"
    if "distinct (map record_id (recs @ [rec]))"
    unfolding log lru_cache.cap_push [OF L wf]
    by (rule push_logged [OF L wf _ _ that]) (use r that in \<open>simp_all add: replays_def\<close>)
  ultimately show ?thesis unfolding replays_def log(2) by blast
qed

lemma replays_new:
  assumes "store_caches E" and "store_new E cache now = Some s" shows "replays E [] s"
  using assms by (auto simp: replays_def store_new_def new_cache_def store_caches_def lru_cache.iter_new
      split: option.splits if_splits Option.bind_splits)

section \<open>The daemon refines the replay\<close>

text \<open>
  C36. A running daemon is a replay of the events it accepted. Whatever requests, lines, datagrams, socket messages and
  collector ticks it handled, over all transports and with all refusals, repetitions and invalid messages in between, there is a
  list of well-formed event records such that the agents, goals, tasks, lessons, the event log, the evictions from them and
  the revision are those that result from applying the records in turn to the store as it was at the start. The revision
  counts the records, and as long as no identifier was accepted twice, the log holds the newest of
  them, as many as its capacity allows, newest first: the state of a daemon whose log has not overflowed
  can be rebuilt from the log alone.
\<close>
theorem daemon_is_a_replay:
  assumes E: "store_caches E" and run: "run_daemon E S bind_listener getenv now c = Some (Inr (d0, r, t))"
    and size: "task_capacity c < 2 ^ 64" and reach: "daemon_reachable P E fallback r d0 d"
  shows "\<exists>recs. list_all record_ok recs \<and> view (store d) = view (fold (replay_step E) recs (store d0)) \<and>
    unat (StoreInner.revision (store d)) = min (length recs) (2 ^ 64 - 1) \<and>
    (distinct (map record_id recs) \<longrightarrow>
      map snd (lru_iter (events_lru E) (StoreInner.events (store d))) = take (event_capacity c) (rev recs))"
proof -
  from reach have "\<exists>recs. list_all record_ok recs \<and> view (store d) = view (fold (replay_step E) recs (store d0)) \<and>
      replays E recs (store d)"
  proof induction
    case start
    from replays_new [OF E run_daemon_started(2) [OF run]] show ?case by (intro exI [of _ "[]"]) simp
  next
    case (step d i)
    then obtain recs where recs: "list_all record_ok recs" "view (store d) = view (fold (replay_step E) recs (store d0))"
      "replays E recs (store d)" by blast
    note inv = daemon_reachable_facts(2) [OF E run size step.hyps(1)]
    let ?t = "store (daemon_next P E r fallback i d)"
    from view_follows [OF E inv daemon_next_follows(1) [OF step.hyps(2)], of P r fallback] show ?case
    proof
      assume "view ?t = view (store d)"
      with recs replays_view show ?thesis by metis
    next
      assume "\<exists>rec. record_ok rec \<and> view ?t = view (replay_step E rec (store d))"
      then obtain rec where rec: "record_ok rec" "view ?t = view (replay_step E rec (store d))" by blast
      from replays_view [OF rec(2) [symmetric] replays_step [OF E inv recs(3)]] rec recs(1)
        view_replay_step [OF recs(2), of E rec]
      show ?thesis by (intro exI [of _ "recs @ [rec]"]) simp
    qed
  qed
  moreover have "caps E (store d) = config_caps (cache_config c)"
    using daemon_reachable_facts(1) [OF assms] size store_caches.reachable_inv [OF E] by (simp add: cache_config_def)
  then have "lru_cap (events_lru E) (StoreInner.events (store d)) = event_capacity c"
    by (simp add: caps_def config_caps_def cache_config_def)
  ultimately show ?thesis by (auto simp: replays_def comp_def)
qed

theorem daemon_is_a_replay_witness:
  "\<exists>d r t recs. run_daemon list_caches counter_semaphore demo_bind (\<lambda>_. None) (0, 0) remote_test = Some (Inr (d, r, t)) \<and>
     view (store (daemon_next demo_platform list_caches r (\<lambda>_. \<lparr>status_code = 404, response_headers = [], content = NoRoute\<rparr>)
       (TcpLine (Inr ''x'') (0, 0)) d)) = view (fold (replay_step list_caches) recs (store d)) \<and> list_all record_ok recs"
proof -
  let ?f = "\<lambda>_. \<lparr>status_code = 404, response_headers = [], content = NoRoute\<rparr>"
  obtain d r t where run: "run_daemon list_caches counter_semaphore demo_bind (\<lambda>_. None) (0, 0) remote_test = Some (Inr (d, r, t))"
    using remote_test_runs by blast
  have "daemon_reachable demo_platform list_caches ?f r d (daemon_next demo_platform list_caches r ?f (TcpLine (Inr ''x'') (0, 0)) d)"
    by (rule daemon_reachable.step [OF daemon_reachable.start]) (simp add: fresh_input_def)
  moreover have "task_capacity remote_test < 2 ^ 64" using demo_configs_small(5) by simp
  ultimately show ?thesis using daemon_is_a_replay [OF list_store.store_caches_axioms run] run by blast
qed

end
