(* ===== verification/Spec2Isabelle.thy ===== *)
theory Spec2Isabelle
  imports Model Auth StoreSpec TimelineSpec MetaSpec CoordSpec ExplorerSpec RuntimeSpec Provider IngressSpec ApiSpec ClientSpec DaemonSpec ToolSpec Redact Live Replay
begin

text \<open>
  Verification of the agent control plane (the Rust program under \<open>src/src\<close>).

  \<^bold>\<open>The program.\<close> Agents report events over HTTP, WebSocket, TCP and UDP. A transport authenticates a
  message and hands its envelope to the store, which validates it, recognizes repeated identifiers,
  and folds it into bounded least-recently-used caches of agents, goals, tasks, lessons and events. Operators
  read the store through snapshots: the metacognition analysis derives diagnostics from a snapshot, the
  coordination planner turns the analysis into assignments, holds and interventions, the explorer and
  the timeline list what is retained. Beside the store, the runtime monitor keeps what agent hooks and the
  host's process table report, and queues control commands for cooperative agents. Provider adapters
  turn observations of model providers into envelopes. The daemon binds the listeners and serves one router with every
  page and API. An embedded client sends events over each transport, and two command-line tools use the adapters, the client
  and the planner.

  \<^bold>\<open>Theories and sources.\<close>
  \<^item> \<open>Prelude\<close>, \<open>Utf8\<close>, \<open>Floats\<close>: the parts of the Rust library the code uses. Saturating integers, checks joined by
    the question-mark operator, comparators with the stable sort (locale \<open>total_cmp\<close>), \<open>BTreeMap\<close> (locale
    \<open>ordered_map\<close>), byte strings with \<open>trim\<close>, \<open>split\<close>, \<open>lines\<close>, \<open>parse\<close> and UTF-8 validation,
    and \<open>f32\<close>/\<open>f64\<close> arithmetic on their bits.
  \<^item> \<open>Model\<close> (\<open>model.rs\<close>), \<open>Config\<close> (\<open>config.rs\<close>), \<open>Auth\<close> (\<open>auth.rs\<close>): events, validators, configuration, tokens.
  \<^item> \<open>Lru\<close>, \<open>Store\<close> (\<open>store.rs\<close>): the store over an interface of the caches, and every operation of \<open>Store\<close>
    with the whole reducer \<open>apply_event\<close>. \<open>StoreInv\<close>, \<open>StoreSteps\<close>, \<open>StoreRuns\<close>, \<open>StoreIngest\<close>: its invariant and
    the inductive relation \<open>reachable\<close>. \<open>StoreSpec\<close>: its properties.
  \<^item> \<open>Metacognition\<close>, \<open>Graph\<close>, \<open>Analysis\<close> (\<open>metacognition/\<close>): policy, dependency graph and analysis. \<open>Cycles\<close> and
    \<open>Depths\<close>: the recursive searches with their termination and meaning. \<open>MetaSpec\<close>: their properties.
  \<^item> \<open>Coordination\<close> (\<open>coordination.rs\<close>), with \<open>Determinism\<close> and \<open>Selection\<close> for its proofs and \<open>CoordSpec\<close> for its properties.
  \<^item> \<open>Timeline\<close>, \<open>TimelineSpec\<close> (\<open>timeline.rs\<close>); \<open>Explorer\<close>, \<open>ExplorerSpec\<close> (\<open>explorer.rs\<close>).
  \<^item> \<open>RuntimeModel\<close> (\<open>runtime/mod.rs\<close>, \<open>runtime/model.rs\<close>), \<open>Runtime\<close> (\<open>runtime/monitor.rs\<close>), \<open>Collector\<close>
    (\<open>runtime/collector.rs\<close>): the monitor's state is the record \<open>RuntimeState\<close>, each method that takes its lock is one
    definition. \<open>RuntimeInv\<close>: the state machine \<open>runtime_step\<close> and its invariant. \<open>RuntimeSpec\<close>: its properties.
  \<^item> \<open>Provider\<close> (\<open>provider.rs\<close>): the adapters and their property.
  \<^item> \<open>Ingress\<close> (\<open>http.rs\<close>, \<open>tcp.rs\<close>, \<open>udp.rs\<close>), \<open>IngressSpec\<close>: the transports in front of the store.
  \<^item> \<open>Api\<close> (the five \<open>_api.rs\<close> files), \<open>ApiSpec\<close>: query strings, read handlers, runtime handlers.
  \<^item> \<open>Serve\<close>: the accept loop of \<open>tcp.rs\<close> with its connection limit and shutdown, and the phases of its connections with
    the points at which they see the cancellation, as the step relation \<open>serve_step\<close>;
    \<open>UiStream\<close>: the stream of updates to an operator page (\<open>handle_ui_socket\<close> of \<open>http.rs\<close>), with their properties.
    \<open>Live\<close>: the announcement of updates by \<open>Store::ingest\<close> and \<open>Store::subscribe\<close>, with every interleaving of changing the store and
    sending the update (\<open>live_step\<close>).
  \<^item> \<open>OpenApi\<close> (\<open>openapi.rs\<close>): the whole document as a JSON value. \<open>Web\<close> (\<open>web.rs\<close> and every \<open>router\<close>): route tables,
    layers, security headers, the extractors of the upgrades and the dispatch of a request; \<open>WebSpec\<close>: the document against the router.
  \<^item> \<open>Daemon\<close> (\<open>daemon.rs\<close>, \<open>main.rs\<close>): binding, start-up, and the running daemon as a machine over the handled messages
    (\<open>daemon_next\<close>, \<open>daemon_reachable\<close>); \<open>DaemonSpec\<close>: its properties. \<open>Replay\<close>: the abstract
    machine that applies recorded events one by one, and that the daemon refines it.
  \<^item> \<open>Client\<close> (\<open>client.rs\<close>), \<open>Decimal\<close>, \<open>ClientSpec\<close>: the event client, alone and against the server's transports.
    \<open>Redact\<close>: the \<open>Debug\<close> output of values with a token.
  \<^item> \<open>Tools\<close> (\<open>bin/\<close>), \<open>ToolSpec\<close>: the sidecar and the planner.
  \<^item> This theory: from the events that arrived to the plans that are served.

  \<^bold>\<open>What is shown.\<close> Of the store: exact completion counters, bounded and keyed caches, a consistent task life
  cycle, revisions, idempotent retries, refinement of a single-task specification, isolation and time order
  (\<open>StoreSpec\<close>). Of the analysis: what the cycle search reports and misses, the depth equations, and
  diagnostics by their rules, stated on the snapshot (\<open>MetaSpec\<close>). Of the planner: round-robin selection, fairness, accounting, limits,
  assignments of ready tasks only, independence of the listing order (\<open>CoordSpec\<close>). Of the lists: cursors that round-trip and pages
  that cover everything outside leap seconds, exact sessions, accounted omissions. Of the monitor: its invariant, agent
  summaries exact in every field, the life of a command, complete snapshots. Of the edge: hidden reasoning is refused, every message is
  counted once, tokens guard every path, queries never cause internal errors, connections stay within their limit, the
  shutdown waits for nothing but replies that are being written, the operator stream loses nothing silently, and a page that subscribed before it read the store becomes current. Of the client: a reported success is an acknowledgement of exactly the event
  that was sent, HTTP responses are read exactly, and a retry takes effect once. Of the whole: the API document
  agrees with the router and the limits, a valid configuration starts if its memory can be reserved, every message keeps the invariants of store and monitor,
  only well-formed events are retained, the state of a daemon is the replay of the events it accepted,
  a remote deployment with a token shows callers without it no data and lets them change none, the sidecar forwards exactly what it reads, and the plans that are served follow from the events that
  arrived.

  \<^bold>\<open>Conventions.\<close> State is passed explicitly, an error is the left side of a sum. Fixed-width integers are words; where the code
  adds without saturation the model wraps, as the release profile does. Third-party code is an
  argument: the \<open>lru\<close> crate (contract \<open>lru_cache\<close>, interpreted by a list implementation; whether the memory of
  a capacity can be reserved is part of the argument), \<open>subtle\<close>
  (contract \<open>constant_time_eq\<close>), the formats of \<open>uuid\<close> and \<open>chrono\<close> (contract \<open>cursor_codec\<close>), JSON decoding,
  random identifiers and clocks, the file system, the iteration order of hash maps, the semaphore of \<open>tokio\<close> (contract \<open>semaphore\<close>),
  its broadcast channel (contract \<open>broadcast_channel\<close> for its capacity, \<open>channel_yields\<close> for what it yields), sockets with their time limits (record \<open>Network\<close>), and URI and address parsing. Routing follows
  the documented rules of \<open>axum\<close>. No definition uses fuel:
  every loop is a structural recursion or a function with a termination proof (the graph searches by the nodes not yet
  visited, the selection rounds by the length of the queues).

  \<^bold>\<open>Not modelled.\<close> The bytes of JSON encodings, the HTTP and WebSocket protocols below the handlers, the headers of the CORS
  layer, logging, signals and timers belong to the asynchronous runtime and third-party crates. The operator pages (\<open>ui.rs\<close> and its
  siblings) are HTML text built by \<open>leptos\<close> macros around scripts; a page appears as an answer with its protection label. The parsing of
  command lines is generated by \<open>clap\<close>. Tests are not modelled.
\<close>

section \<open>From events to assignments\<close>

lemma snapshot_keys_distinct:
  assumes "store_caches E" and "reachable E cache s" and "CacheConfig.tasks cache < 2 ^ 64"
  shows "distinct (map task_key (Snapshot.tasks (snapshot E now s)))" "distinct (map agent_key (Snapshot.agents (snapshot E now s)))"
proof -
  have inv: "store_inv E s" using store_caches.reachable_inv [OF assms] by simp
  show "distinct (map task_key (Snapshot.tasks (snapshot E now s)))"
    using distinct_keyed_tasks [of "lru_iter (tasks_lru E) (StoreInner.tasks s)"] inv
    by (simp add: snapshot_def store_inv_def tasks_inv_def caches_wf_def lru_wf_def task_key_def [abs_def])
  show "distinct (map agent_key (Snapshot.agents (snapshot E now s)))"
    using distinct_keyed_agents [of "lru_iter (agents_lru E) (StoreInner.agents s)"] inv
    by (simp add: snapshot_def store_inv_def tasks_inv_def caches_wf_def lru_wf_def comp_def agent_key_def)
qed

text \<open>
  C40. From events to assignments. Whatever events the transports delivered, in whatever order, every
  assignment of a plan that the coordination API serves names a task the store retains, with all its
  dependencies retained and succeeded, no detected cycle, no contradictory completion, no undeclared
  goal and an agent that is not offline; and whenever the store retains an active task of this kind,
  the plan assigns something.
\<close>
theorem served_plans_are_sound_and_live:
  assumes E: "store_caches E" and reach: "reachable E cache s" and size: "CacheConfig.tasks cache < 2 ^ 64"
    and plan: "plan_api ct_eq since p h raw (snapshot E now s) = Inr plan"
  shows "(\<forall>a \<in> set (CoordinationPlan.assignments plan).
      \<exists>t \<in> set (retained_tasks E s). task_key t = assignment_key a \<and> dispatchable (snapshot E now s) t) \<and>
    ((\<exists>t \<in> set (retained_tasks E s). dispatchable (snapshot E now s) t \<and> is_active (TaskState.status t)) \<longrightarrow>
      CoordinationPlan.assignments plan \<noteq> [])"
proof -
  let ?snap = "snapshot E now s"
  note keys = snapshot_keys_distinct [OF E reach size, of now]
  have tasks: "Snapshot.tasks ?snap = retained_tasks E s" by (simp add: snapshot_def retained_tasks_def)
  obtain pol where built: "build_plan_with_policy since ?snap analysis_policy_default pol = Inr plan"
    using plan by (auto simp: plan_api_def map_sum_Inr split: sum.splits)
  have "\<exists>t \<in> set (retained_tasks E s). task_key t = assignment_key a \<and> dispatchable ?snap t"
    if a: "a \<in> set (CoordinationPlan.assignments plan)" for a
  proof -
    obtain t where t: "t \<in> set (Snapshot.tasks ?snap)" "placement_of since ?snap analysis_policy_default t = Candidate a"
      using plan_assignment_placed [OF built a] by blast
    with placement_of_candidate [OF keys t(1), of since analysis_policy_default] placed_candidate_key [OF t(2)] tasks
    show ?thesis by auto
  qed
  with plan_assigns_something [OF keys built] tasks show ?thesis by auto
qed

definition demo_started_state where
  "demo_started_state = snd (snd (ingest list_caches demo_e2 Tcp (11, 5) demo_s0))"

lemma demo_started_tasks:
  "map (\<lambda>t. (task_key t, TaskSpec.depends_on (TaskState.task t), TaskSpec.goal_id (TaskState.task t), TaskState.status t,
     completion_mismatch t)) (retained_tasks list_caches demo_started_state) = [((''b'', ''x''), [], None, TaskStatus.Running, False)]"
  by code_simp

lemma demo_started_agents:
  "list_all (\<lambda>a. AgentState.status a \<noteq> AgentStatus.Offline)
     (map snd (lru_iter (agents_lru list_caches) (StoreInner.agents demo_started_state)))"
  by code_simp

lemma no_dependencies_no_cycle:
  assumes "TaskSpec.depends_on (TaskState.task t) = []"
  shows "task_key t \<notin> dependency_cycle_members (task_table [t])"
proof
  assume "task_key t \<in> dependency_cycle_members (task_table [t])"
  then obtain k where "dep_edge (task_table [t]) (task_key t) k"
    using cycle_member_on_cycle [OF task_table_wf] tranclpD by metis
  with assms show False by (auto simp: dep_edge_def task_table_def bt_get_collect bt_get_def split: if_splits option.splits)
qed

theorem served_plans_are_sound_and_live_witness:
  "\<exists>plan. plan_api (=) (\<lambda>_ _. 0) \<lparr>AuthPolicy.token = None, protect_reads = False\<rparr> None None
       (snapshot list_caches (30, 0) demo_started_state) = Inr plan \<and>
     CoordinationPlan.assignments plan \<noteq> []"
proof -
  let ?snap = "snapshot list_caches (30, 0) demo_started_state"
  have tasks: "Snapshot.tasks ?snap = retained_tasks list_caches demo_started_state" by (simp add: snapshot_def retained_tasks_def)
  obtain plan where plan: "plan_api (=) (\<lambda>_ _. 0) \<lparr>AuthPolicy.token = None, protect_reads = False\<rparr> None None ?snap = Inr plan"
    using plan_default [of "\<lambda>_ _. 0" ?snap]
    by (auto simp: plan_api_def authorize_read_def ok_def planning_query_parse_def parse_query_def build_plan_def
        planning_query_policy_def planning_query_default_def unwrap_or_def planning_policy_default_def)
  obtain t where t: "retained_tasks list_caches demo_started_state = [t]" using demo_started_tasks by auto
  have agents: "\<forall>a \<in> set (Snapshot.agents ?snap). AgentState.status a \<noteq> AgentStatus.Offline"
    using demo_started_agents by (simp add: snapshot_def list_all_iff)
  have facts: "TaskSpec.depends_on (TaskState.task t) = []" "TaskSpec.goal_id (TaskState.task t) = None"
    "\<not> completion_mismatch t" "is_active (TaskState.status t)"
    using demo_started_tasks by (simp_all add: t is_active_def)
  then have "dispatchable ?snap t"
    using agents no_dependencies_no_cycle [OF facts(1)] unfolding dispatchable_def tasks t by simp
  moreover have "reachable list_caches demo_cache demo_started_state"
    unfolding demo_started_state_def by (rule reachable.ingest [OF demo_reachable(1)])
  moreover have "CacheConfig.tasks demo_cache < 2 ^ 64" by (simp add: demo_cache_def)
  ultimately show ?thesis
    using served_plans_are_sound_and_live [OF list_store.store_caches_axioms _ _ plan] plan t facts(4) by auto
qed

end
